(* ===== verification/Prelude.thy ===== *)
theory Prelude
  imports Main "HOL-Library.Word" "HOL-Library.State_Monad"
begin

text \<open>
  The vocabulary every component shares.

  \<^item> Machine integers: \<open>u8\<close>, \<open>u16\<close>, \<open>u32\<close>, \<open>u64\<close> are words of that width; a
    C \<open>int\<close> whose arithmetic cannot overflow in the code is an \<open>int\<close>.
  \<^item> Byte order: little-endian (the AX88179) and big-endian (DNS) readers and writers
    with their round trips.
  \<^item> Outside calls: a component talks to code that is not modelled (UHS, coreinit,
    nsysnet, lwIP) only through \<open>ext\<close>. The answer is taken from an arbitrary
    \<open>env\<close>, a function of the whole history of calls and the present call, and the
    call is appended to \<open>trace\<close>. Every theorem holds for every \<open>env\<close>, that is,
    for every behaviour of the outside, and can speak of the order of the calls.
  \<^item> A weakest-precondition function \<open>wp\<close> for the state monad with a rule
    collection \<open>wp\<close>, so that component proofs are \<open>simp add: wp\<close>.
\<close>

unbundle bit_operations_syntax

section \<open>Machine integers\<close>

type_synonym u8 = "8 word"
type_synonym u16 = "16 word"
type_synonym u32 = "32 word"
type_synonym u64 = "64 word"
type_synonym bytes = "u8 list"

named_theorems wp "rewrite rules that push wp through a program"
named_theorems masks "single-bit masks of 32-bit sets"

definition bitm :: "nat \<Rightarrow> u32" where
  "bitm n = push_bit n 1"

lemma bit_bitm [masks]: "bit (bitm n) m \<longleftrightarrow> m = n \<and> n < 32"
  by (auto simp: bitm_def bit_push_bit_iff bit_1_iff simp del: push_bit_of_1)

lemma and_bitm_eq_0 [masks]:
  assumes "n < 32"
  shows "(w AND bitm n = 0) \<longleftrightarrow> \<not> bit (w :: u32) n"
proof
  assume "w AND bitm n = 0"
  then have "\<not> bit (w AND bitm n) n" by simp
  with assms show "\<not> bit w n" by (simp add: bit_and_iff bit_bitm)
next
  assume "\<not> bit w n"
  then show "w AND bitm n = 0"
    by (intro bit_word_eqI) (auto simp: bit_and_iff bit_bitm)
qed

lemma bit_or_bitm [masks]: "n < 32 \<Longrightarrow> bit (w OR bitm n) m \<longleftrightarrow> m = n \<or> bit w m"
  by (auto simp: bit_or_iff bit_bitm)

lemma bit_and_not_bitm [masks]: "bit (w AND NOT (bitm n)) m \<longleftrightarrow> bit w m \<and> m \<noteq> n"
  using bit_imp_le_length [of w m]
  by (auto simp: bit_and_iff bit_not_iff bit_bitm)

lemma bit32_less: "bit (w :: u32) n \<Longrightarrow> n < 32"
  using bit_imp_le_length [of w n] by simp

section \<open>Byte order\<close>

definition le32 :: "bytes \<Rightarrow> u32" where
  "le32 p = (ucast (p ! 0) OR push_bit 8 (ucast (p ! 1))) OR
     (push_bit 16 (ucast (p ! 2)) OR push_bit 24 (ucast (p ! 3)))"

definition le32_bytes :: "u32 \<Rightarrow> bytes" where
  "le32_bytes w = [ucast w, ucast (drop_bit 8 w), ucast (drop_bit 16 w), ucast (drop_bit 24 w)]"

lemma length_le32_bytes [simp]: "length (le32_bytes w) = 4"
  by (simp add: le32_bytes_def)

lemma le32_le32_bytes [simp]: "le32 (le32_bytes w @ xs) = w"
proof (rule bit_word_eqI)
  fix n assume "n < LENGTH(32)"
  then show "bit (le32 (le32_bytes w @ xs)) n = bit w n"
    by (cases "n < 24"; cases "n < 16") (auto simp: le32_def le32_bytes_def bit_simps not_less)
qed

definition be16 :: "bytes \<Rightarrow> u16" where
  "be16 p = push_bit 8 (ucast (p ! 0)) OR ucast (p ! 1)"

definition be16_bytes :: "u16 \<Rightarrow> bytes" where
  "be16_bytes v = [ucast (drop_bit 8 v), ucast v]"

lemma length_be16_bytes [simp]: "length (be16_bytes v) = 2"
  by (simp add: be16_bytes_def)

lemma be16_be16_bytes [simp]: "be16 (be16_bytes v @ xs) = v"
proof (rule bit_word_eqI)
  fix n assume "n < LENGTH(16)"
  then show "bit (be16 (be16_bytes v @ xs)) n = bit v n"
    by (auto simp: be16_def be16_bytes_def bit_simps not_less)
qed

definition be32 :: "bytes \<Rightarrow> u32" where
  "be32 p = (push_bit 24 (ucast (p ! 0)) OR push_bit 16 (ucast (p ! 1))) OR
     (push_bit 8 (ucast (p ! 2)) OR ucast (p ! 3))"

definition be32_bytes :: "u32 \<Rightarrow> bytes" where
  "be32_bytes w = [ucast (drop_bit 24 w), ucast (drop_bit 16 w), ucast (drop_bit 8 w), ucast w]"

lemma length_be32_bytes [simp]: "length (be32_bytes w) = 4"
  by (simp add: be32_bytes_def)

lemma be32_be32_bytes [simp]: "be32 (be32_bytes w @ xs) = w"
proof (rule bit_word_eqI)
  fix n assume "n < LENGTH(32)"
  then show "bit (be32 (be32_bytes w @ xs)) n = bit w n"
    by (cases "n < 24"; cases "n < 16") (auto simp: be32_def be32_bytes_def bit_simps not_less)
qed

lemma be32_take: "4 \<le> n \<Longrightarrow> be32 (take n p) = be32 p"
  by (simp add: be32_def)

lemma word8_eqI: "(\<And>n. n < 8 \<Longrightarrow> bit a n = bit b n) \<Longrightarrow> a = (b :: u8)"
  by (rule bit_word_eqI) simp

lemma bit8_beyond: "8 \<le> n \<Longrightarrow> \<not> bit (a :: u8) n"
  using bit_imp_le_length [of a n] by auto

lemma be32_bytes_be32 [simp]:
  assumes "4 \<le> length p"
  shows "be32_bytes (be32 p) = take 4 p"
proof -
  obtain a b c d q where p: "p = a # b # c # d # q"
    using assms by (auto simp: numeral_eq_Suc Suc_le_length_iff)
  show ?thesis
    unfolding p be32_bytes_def be32_def
    by (auto intro!: word8_eqI simp: bit_simps bit8_beyond)
qed

text \<open>The C \<open>int\<close> stored big-endian at the start of a memory area.\<close>

definition int_at :: "bytes \<Rightarrow> int" where
  "int_at p = sint (be32 p)"

definition int_bytes :: "int \<Rightarrow> bytes" where
  "int_bytes v = be32_bytes (word_of_int v)"

lemma length_int_bytes [simp]: "length (int_bytes v) = 4"
  by (simp add: int_bytes_def)

lemma int_bytes_int_at [simp]: "4 \<le> length p \<Longrightarrow> int_bytes (int_at p) = take 4 p"
  by (simp add: int_bytes_def int_at_def)

lemma int_at_int_bytes [simp]:
  "- (2 ^ 31) \<le> v \<Longrightarrow> v < 2 ^ 31 \<Longrightarrow> int_at (int_bytes v @ xs) = v"
  by (simp add: int_bytes_def int_at_def sint_sbintrunc' signed_take_bit_int_eq_self)

lemma int_at_range: "- (2 ^ 31) \<le> int_at p" "int_at p < 2 ^ 31"
  using sint_ge [of "be32 p"] sint_lt [of "be32 p"] by (simp_all add: int_at_def)

section \<open>Memory\<close>

text \<open>\<open>memcpy_at off src dst\<close> is the array \<open>dst\<close> after \<open>memcpy(dst + off, src, n)\<close>.\<close>

definition memcpy_at :: "nat \<Rightarrow> 'a list \<Rightarrow> 'a list \<Rightarrow> 'a list" where
  "memcpy_at off src dst = take off dst @ src @ drop (off + length src) dst"

lemma length_memcpy_at [simp]:
  "off + length src \<le> length dst \<Longrightarrow> length (memcpy_at off src dst) = length dst"
  by (simp add: memcpy_at_def)

lemma take_memcpy_at_0 [simp]: "n \<le> length src \<Longrightarrow> take n (memcpy_at 0 src dst) = take n src"
  by (simp add: memcpy_at_def)

text \<open>\<open>slice off n xs\<close> are the \<open>n\<close> bytes read at \<open>xs + off\<close>.\<close>

definition slice :: "nat \<Rightarrow> nat \<Rightarrow> 'a list \<Rightarrow> 'a list" where
  "slice off n xs = take n (drop off xs)"

lemma length_slice [simp]: "off + n \<le> length xs \<Longrightarrow> length (slice off n xs) = n"
  by (simp add: slice_def)

lemma slice_append_left: "off + n \<le> length xs \<Longrightarrow> slice off n (xs @ ys) = slice off n xs"
  by (simp add: slice_def)

lemma slice_append_right: "length xs \<le> off \<Longrightarrow> slice off n (xs @ ys) = slice (off - length xs) n ys"
  by (simp add: slice_def)

lemma slice_take: "off + n \<le> m \<Longrightarrow> slice off n (take m xs) = slice off n xs"
  by (simp add: slice_def take_drop add.commute min_def)

section \<open>Calls to code outside the model\<close>

record ('c, 'r) world =
  env :: "'c list \<Rightarrow> 'c \<Rightarrow> 'r"
  trace :: "'c list"

abbreviation return :: "'a \<Rightarrow> ('s, 'a) state" where
  "return \<equiv> State_Monad.return"

definition gets :: "('s \<Rightarrow> 'a) \<Rightarrow> ('s, 'a) state" where
  "gets f = State (\<lambda>s. (f s, s))"

definition modify :: "('s \<Rightarrow> 's) \<Rightarrow> ('s, unit) state" where
  "modify f = State (\<lambda>s. ((), f s))"

definition ext :: "'c \<Rightarrow> (('c, 'r, 'z) world_scheme, 'r) state" where
  "ext c = State (\<lambda>s. (env s (trace s) c, s\<lparr>trace := trace s @ [c]\<rparr>))"

definition whenM :: "bool \<Rightarrow> ('s, unit) state \<Rightarrow> ('s, unit) state" where
  "whenM b m = (if b then m else return ())"

text \<open>A C \<open>for\<close> loop whose body neither breaks nor returns.\<close>

fun for_each :: "'a list \<Rightarrow> ('a \<Rightarrow> ('s, unit) state) \<Rightarrow> ('s, unit) state" where
  "for_each [] f = return ()"
| "for_each (x # xs) f = do { f x; for_each xs f }"

text \<open>What a stretch of calls \<open>cs\<close> made after the history \<open>h\<close> yields, by a reading of each call
  with its answer.\<close>

fun collect :: "('r \<Rightarrow> 'c \<Rightarrow> 'a list) \<Rightarrow> ('c list \<Rightarrow> 'c \<Rightarrow> 'r) \<Rightarrow> 'c list \<Rightarrow> 'c list \<Rightarrow> 'a list" where
  "collect f e h [] = []"
| "collect f e h (c # cs) = f (e h c) c @ collect f e (h @ [c]) cs"

lemma collect_append [simp]: "collect f e h (cs @ ds) = collect f e h cs @ collect f e (h @ cs) ds"
  by (induction cs arbitrary: h) simp_all

lemma collect_none: "(\<And>c r. c \<in> set cs \<Longrightarrow> f r c = []) \<Longrightarrow> collect f e h cs = []"
  by (induction cs arbitrary: h) simp_all

section \<open>Weakest preconditions\<close>

definition wp :: "('s, 'a) state \<Rightarrow> ('a \<Rightarrow> 's \<Rightarrow> bool) \<Rightarrow> 's \<Rightarrow> bool" where
  "wp m Q s \<longleftrightarrow> (case run_state m s of (a, t) \<Rightarrow> Q a t)"

lemma run_state_gets [simp]: "run_state (gets f) s = (f s, s)"
  by (simp add: gets_def)

lemma run_state_modify [simp]: "run_state (modify f) s = ((), f s)"
  by (simp add: modify_def)

lemma run_state_ext [simp]:
  "run_state (ext c) s = (env s (trace s) c, s\<lparr>trace := trace s @ [c]\<rparr>)"
  by (simp add: ext_def)

lemma wp_return [wp]: "wp (return x) Q s = Q x s"
  by (simp add: wp_def)

lemma wp_bind [wp]: "wp (State_Monad.bind m f) Q s = wp m (\<lambda>a t. wp (f a) Q t) s"
  by (simp add: wp_def case_prod_beta)

lemma wp_gets [wp]: "wp (gets f) Q s = Q (f s) s"
  by (simp add: wp_def)

lemma wp_modify [wp]: "wp (modify f) Q s = Q () (f s)"
  by (simp add: wp_def)

lemma wp_ext [wp]: "wp (ext c) Q s = Q (env s (trace s) c) (s\<lparr>trace := trace s @ [c]\<rparr>)"
  by (simp add: wp_def)

lemma wp_if [wp]: "wp (if b then m else n) Q s = (if b then wp m Q s else wp n Q s)"
  by simp

lemma wp_whenM [wp]: "wp (whenM b m) Q s = (if b then wp m Q s else Q () s)"
  by (simp add: whenM_def wp_return)

lemma wp_let [wp]: "wp (let x = e in f x) Q s = wp (f e) Q s"
  by simp

lemma wp_case_option [wp]:
  "wp (case z of None \<Rightarrow> m | Some x \<Rightarrow> f x) Q s =
     (case z of None \<Rightarrow> wp m Q s | Some x \<Rightarrow> wp (f x) Q s)"
  by (cases z) simp_all

lemma wp_case_prod [wp]:
  "wp (case p of (a, b) \<Rightarrow> f a b) Q s = wp (f (fst p) (snd p)) Q s"
  by (cases p) simp

lemma wp_run_state: "wp m Q s \<longleftrightarrow> Q (fst (run_state m s)) (snd (run_state m s))"
  by (simp add: wp_def case_prod_beta)

lemma wp_mono: "wp m Q s \<Longrightarrow> (\<And>a t. Q a t \<Longrightarrow> R a t) \<Longrightarrow> wp m R s"
  by (simp add: wp_run_state)

lemma wp_conj: "wp m Q s \<Longrightarrow> wp m R s \<Longrightarrow> wp m (\<lambda>a t. Q a t \<and> R a t) s"
  by (simp add: wp_run_state)

lemma wpD: "run_state m s = (a, t) \<Longrightarrow> wp m Q s \<Longrightarrow> Q a t"
  by (simp add: wp_run_state)

lemma wp_for_each:
  assumes "I s" and "\<And>x t. x \<in> set xs \<Longrightarrow> I t \<Longrightarrow> wp (f x) (\<lambda>_. I) t"
  shows "wp (for_each xs f) (\<lambda>_. I) s"
  using assms
proof (induction xs arbitrary: s)
  case Nil
  then show ?case by (simp add: wp)
next
  case (Cons x xs)
  have "wp (f x) (\<lambda>_. I) s"
    using Cons.prems by simp
  then have "wp (f x) (\<lambda>_ t. wp (for_each xs f) (\<lambda>_. I) t) s"
    using Cons.IH Cons.prems(2) by (auto elim!: wp_mono)
  then show ?case by (simp add: wp)
qed

section \<open>Running programs\<close>

text \<open>Execution rules, so that a run on a concrete state is a simplification. A definition
  \<open>f x = body\<close> enters as \<open>run_state (f x) s = run_state body s\<close>: it is unfolded only where
  it is run.\<close>

named_theorems runs "execution rules"

lemma run_cong: "m = n \<Longrightarrow> run_state m s = run_state n s"
  by simp

lemma run_bind [runs]:
  "run_state (State_Monad.bind m f) s = (case run_state m s of (a, t) \<Rightarrow> run_state (f a) t)"
  by simp

lemma run_if [runs]: "run_state (if b then m else n) s = (if b then run_state m s else run_state n s)"
  by simp

lemma run_whenM [runs]: "run_state (whenM b m) s = (if b then run_state m s else ((), s))"
  by (simp add: whenM_def)

lemma run_let [runs]: "run_state (let x = e in f x) s = run_state (f e) s"
  by simp

lemma run_case_prod [runs]:
  "run_state (case p of (a, b) \<Rightarrow> f a b) s = (case p of (a, b) \<Rightarrow> run_state (f a b) s)"
  by (cases p) simp

lemma run_case_option [runs]:
  "run_state (case z of None \<Rightarrow> m | Some x \<Rightarrow> f x) s =
     (case z of None \<Rightarrow> run_state m s | Some x \<Rightarrow> run_state (f x) s)"
  by (cases z) simp_all

lemma run_case_sum [runs]:
  "run_state (case z of Inl e \<Rightarrow> m e | Inr x \<Rightarrow> f x) s =
     (case z of Inl e \<Rightarrow> run_state (m e) s | Inr x \<Rightarrow> run_state (f x) s)"
  by (cases z) simp_all

section \<open>Programs that may stop early\<close>

text \<open>A program of type \<open>('s, 'e + 'a) state\<close> models a C sequence with early returns or
  \<open>goto fail\<close>: \<open>Inl e\<close> is the early exit and \<open>bindE\<close> skips what follows.\<close>

definition bindE ::
  "('s, 'e + 'a) state \<Rightarrow> ('a \<Rightarrow> ('s, 'e + 'b) state) \<Rightarrow> ('s, 'e + 'b) state" where
  "bindE m f = do { r \<leftarrow> m; case r of Inl e \<Rightarrow> return (Inl e) | Inr x \<Rightarrow> f x }"

lemma wp_case_sum [wp]:
  "wp (case z of Inl e \<Rightarrow> m e | Inr x \<Rightarrow> f x) Q s =
     (case z of Inl e \<Rightarrow> wp (m e) Q s | Inr x \<Rightarrow> wp (f x) Q s)"
  by (cases z) simp_all

lemma wp_bindE [wp]:
  "wp (bindE m f) Q s = wp m (\<lambda>r t. case r of Inl e \<Rightarrow> Q (Inl e) t | Inr x \<Rightarrow> wp (f x) Q t) s"
  by (simp add: bindE_def wp cong: sum.case_cong)

lemma run_bindE [runs]:
  "run_state (bindE m f) s = (case run_state m s of (Inl e, t) \<Rightarrow> (Inl e, t)
     | (Inr x, t) \<Rightarrow> run_state (f x) t)"
  by (auto simp: bindE_def case_prod_beta split: sum.split)

lemma wp_bindE_I:
  assumes "wp m R s" and "\<And>e t. R (Inl e) t \<Longrightarrow> Q (Inl e) t" and "\<And>x t. R (Inr x) t \<Longrightarrow> wp (f x) Q t"
  shows "wp (bindE m f) Q s"
  using assms(1) by (auto simp: wp_bindE elim!: wp_mono intro: assms(2,3) split: sum.split)

lemma wp_bind_I:
  assumes "wp m R s" and "\<And>x t. R x t \<Longrightarrow> wp (f x) Q t"
  shows "wp (State_Monad.bind m f) Q s"
  using assms(1) by (auto simp: wp_bind elim!: wp_mono intro: assms(2))

text \<open>\<open>errors E m\<close>: every early exit of \<open>m\<close> satisfies \<open>E\<close>.\<close>

definition errors :: "('e \<Rightarrow> bool) \<Rightarrow> ('s, 'e + 'a) state \<Rightarrow> bool" where
  "errors E m \<longleftrightarrow> (\<forall>s e. fst (run_state m s) = Inl e \<longrightarrow> E e)"

named_theorems errors "introduction rules for errors"

lemma errors_return [errors]: "(\<And>e. r = Inl e \<Longrightarrow> E e) \<Longrightarrow> errors E (return r)"
  by (simp add: errors_def)

lemma errors_bind [errors]: "(\<And>x. errors E (k x)) \<Longrightarrow> errors E (State_Monad.bind m k)"
  by (simp add: errors_def case_prod_beta)

lemma errors_if [errors]: "errors E m \<Longrightarrow> errors E n \<Longrightarrow> errors E (if b then m else n)"
  by simp

lemma errors_bindE [errors]:
  assumes "errors E m" and "\<And>x. errors E (k x)"
  shows "errors E (bindE m k)"
  using assms by (fastforce simp: bindE_def errors_def case_prod_beta split: sum.splits)

section \<open>Invariants of programs\<close>

text \<open>\<open>keeps I m\<close>: every run of \<open>m\<close> from a state satisfying \<open>I\<close> ends in one.\<close>

definition keeps :: "('s \<Rightarrow> bool) \<Rightarrow> ('s, 'a) state \<Rightarrow> bool" where
  "keeps I m \<longleftrightarrow> (\<forall>s. I s \<longrightarrow> wp m (\<lambda>_. I) s)"

named_theorems keeps "introduction rules for keeps"

lemma keepsI: "(\<And>s. I s \<Longrightarrow> wp m (\<lambda>_. I) s) \<Longrightarrow> keeps I m"
  by (simp add: keeps_def)

lemma keepsD: "keeps I m \<Longrightarrow> I s \<Longrightarrow> wp m (\<lambda>_. I) s"
  by (simp add: keeps_def)

lemma keeps_run: "keeps I m \<Longrightarrow> I s \<Longrightarrow> I (snd (run_state m s))"
  by (simp add: keeps_def wp_run_state)

lemma keeps_return [keeps]: "keeps I (return x)"
  by (simp add: keeps_def wp)

lemma keeps_gets [keeps]: "keeps I (gets f)"
  by (simp add: keeps_def wp)

lemma keeps_modify: "(\<And>s. I s \<Longrightarrow> I (f s)) \<Longrightarrow> keeps I (modify f)"
  by (simp add: keeps_def wp)

lemma keeps_bind [keeps]: "keeps I m \<Longrightarrow> (\<And>a. keeps I (f a)) \<Longrightarrow> keeps I (State_Monad.bind m f)"
  by (simp add: keeps_def wp_run_state case_prod_beta)

lemma keeps_if [keeps]: "(b \<Longrightarrow> keeps I m) \<Longrightarrow> (\<not> b \<Longrightarrow> keeps I n) \<Longrightarrow> keeps I (if b then m else n)"
  by simp

lemma keeps_whenM [keeps]: "(b \<Longrightarrow> keeps I m) \<Longrightarrow> keeps I (whenM b m)"
  by (simp add: whenM_def keeps_return)

lemma keeps_case_option [keeps]:
  "keeps I m \<Longrightarrow> (\<And>x. keeps I (f x)) \<Longrightarrow> keeps I (case z of None \<Rightarrow> m | Some x \<Rightarrow> f x)"
  by (cases z) simp_all

lemma keeps_case_prod [keeps]:
  "(\<And>a b. keeps I (f a b)) \<Longrightarrow> keeps I (case p of (a, b) \<Rightarrow> f a b)"
  by (cases p) simp

lemma keeps_case_sum [keeps]:
  "(\<And>a. keeps I (f a)) \<Longrightarrow> (\<And>b. keeps I (g b)) \<Longrightarrow> keeps I (case z of Inl a \<Rightarrow> f a | Inr b \<Rightarrow> g b)"
  by (cases z) simp_all

lemma keeps_let [keeps]: "keeps I (f e) \<Longrightarrow> keeps I (let x = e in f x)"
  by simp

lemma keeps_bindE [keeps]: "keeps I m \<Longrightarrow> (\<And>a. keeps I (f a)) \<Longrightarrow> keeps I (bindE m f)"
  by (auto simp: bindE_def intro!: keeps)

lemma keeps_for_each [keeps]: "(\<And>x. x \<in> set xs \<Longrightarrow> keeps I (f x)) \<Longrightarrow> keeps I (for_each xs f)"
  by (induction xs) (auto intro!: keeps)

section \<open>Frames of programs\<close>

text \<open>\<open>preserves f m\<close>: no run of \<open>m\<close> changes the part \<open>f\<close> of the state.\<close>

definition preserves :: "('s \<Rightarrow> 'b) \<Rightarrow> ('s, 'a) state \<Rightarrow> bool" where
  "preserves f m \<longleftrightarrow> (\<forall>s. f (snd (run_state m s)) = f s)"

named_theorems preserves "introduction rules for preserves"

lemma preservesI: "(\<And>s. wp m (\<lambda>_ t. f t = f s) s) \<Longrightarrow> preserves f m"
  by (simp add: preserves_def wp_run_state)

lemma preserves_run: "preserves f m \<Longrightarrow> f (snd (run_state m s)) = f s"
  by (simp add: preserves_def)

lemma wp_preserves:
  "preserves f m \<Longrightarrow> (\<And>r t. f t = f s \<Longrightarrow> Q r t) \<Longrightarrow> wp m Q s"
  by (simp add: preserves_def wp_run_state)

lemma wp_keep: "preserves f m \<Longrightarrow> wp m (\<lambda>_ t. f t = f s) s"
  by (simp add: preserves_def wp_run_state)

lemma preserves_return [preserves]: "preserves f (return x)"
  by (simp add: preserves_def)

lemma preserves_gets [preserves]: "preserves f (gets g)"
  by (simp add: preserves_def)

lemma preserves_bind [preserves]:
  "preserves f m \<Longrightarrow> (\<And>a. preserves f (k a)) \<Longrightarrow> preserves f (State_Monad.bind m k)"
  by (simp add: preserves_def case_prod_beta)

lemma preserves_if [preserves]:
  "(b \<Longrightarrow> preserves f m) \<Longrightarrow> (\<not> b \<Longrightarrow> preserves f n) \<Longrightarrow> preserves f (if b then m else n)"
  by simp

lemma preserves_whenM [preserves]: "(b \<Longrightarrow> preserves f m) \<Longrightarrow> preserves f (whenM b m)"
  by (simp add: whenM_def preserves_return)

lemma preserves_case_option [preserves]:
  "preserves f m \<Longrightarrow> (\<And>x. preserves f (k x)) \<Longrightarrow> preserves f (case z of None \<Rightarrow> m | Some x \<Rightarrow> k x)"
  by (cases z) simp_all

lemma preserves_case_prod [preserves]:
  "(\<And>a b. preserves f (k a b)) \<Longrightarrow> preserves f (case p of (a, b) \<Rightarrow> k a b)"
  by (cases p) simp

lemma preserves_case_sum [preserves]:
  "(\<And>a. preserves f (g a)) \<Longrightarrow> (\<And>b. preserves f (h b)) \<Longrightarrow>
     preserves f (case z of Inl a \<Rightarrow> g a | Inr b \<Rightarrow> h b)"
  by (cases z) simp_all

lemma preserves_let [preserves]: "preserves f (k e) \<Longrightarrow> preserves f (let x = e in k x)"
  by simp

lemma preserves_bindE [preserves]:
  "preserves f m \<Longrightarrow> (\<And>a. preserves f (k a)) \<Longrightarrow> preserves f (bindE m k)"
  unfolding bindE_def by (intro preserves)

lemma preserves_for_each [preserves]:
  "(\<And>x. x \<in> set xs \<Longrightarrow> preserves f (k x)) \<Longrightarrow> preserves f (for_each xs k)"
  by (induction xs) (auto intro!: preserves)

lemma preserves_coarser:
  "preserves f m \<Longrightarrow> (\<And>s t. f s = f t \<Longrightarrow> g s = g t) \<Longrightarrow> preserves g m"
  unfolding preserves_def by blast

text \<open>Sequencing after a part that keeps \<open>f\<close>.\<close>

lemma wp_bindE_keep:
  assumes "preserves f m" and "f s = c" and "\<And>e t. f t = c \<Longrightarrow> Q (Inl e) t"
    and "\<And>x t. f t = c \<Longrightarrow> wp (k x) Q t"
  shows "wp (bindE m k) Q s"
  by (rule wp_bindE_I [where R = "\<lambda>_ t. f t = c", OF wp_preserves [OF assms(1)]])
     (simp_all add: assms)

lemma wp_bind_keep:
  assumes "preserves f m" and "f s = c" and "\<And>x t. f t = c \<Longrightarrow> wp (k x) Q t"
  shows "wp (State_Monad.bind m k) Q s"
  by (rule wp_bind_I [where R = "\<lambda>_ t. f t = c", OF wp_preserves [OF assms(1)]])
     (simp_all add: assms)

section \<open>Results of programs\<close>

text \<open>\<open>returns P m\<close>: every result of \<open>m\<close> satisfies \<open>P\<close>, whatever the state.\<close>

definition returns :: "('a \<Rightarrow> bool) \<Rightarrow> ('s, 'a) state \<Rightarrow> bool" where
  "returns P m \<longleftrightarrow> (\<forall>s. P (fst (run_state m s)))"

named_theorems returns "introduction rules for returns"

lemma returnsD: "returns P m \<Longrightarrow> P (fst (run_state m s))"
  by (simp add: returns_def)

lemma returns_return [returns]: "P x \<Longrightarrow> returns P (return x)"
  by (simp add: returns_def)

lemma returns_bind [returns]: "(\<And>x. returns P (k x)) \<Longrightarrow> returns P (State_Monad.bind m k)"
  by (simp add: returns_def case_prod_beta)

lemma returns_bind_res: "returns R m \<Longrightarrow> (\<And>x. R x \<Longrightarrow> returns P (k x)) \<Longrightarrow> returns P (State_Monad.bind m k)"
  by (simp add: returns_def case_prod_beta)

lemma returns_if [returns]:
  "(b \<Longrightarrow> returns P m) \<Longrightarrow> (\<not> b \<Longrightarrow> returns P n) \<Longrightarrow> returns P (if b then m else n)"
  by simp

lemma returns_let [returns]: "returns P (f e) \<Longrightarrow> returns P (let x = e in f x)"
  by simp

lemma returns_case_prod [returns]:
  "(\<And>a b. p = (a, b) \<Longrightarrow> returns P (f a b)) \<Longrightarrow> returns P (case p of (a, b) \<Rightarrow> f a b)"
  by (cases p) simp

lemma returns_case_option [returns]:
  "(z = None \<Longrightarrow> returns P m) \<Longrightarrow> (\<And>x. z = Some x \<Longrightarrow> returns P (f x)) \<Longrightarrow>
     returns P (case z of None \<Rightarrow> m | Some x \<Rightarrow> f x)"
  by (cases z) simp_all

end
