(* ===== verification/Env.thy ===== *)
theory Env
  imports Prelude
begin

text \<open>
  The calls the program makes to code outside the model, one constructor per function
  called, with the arguments the callee can see, and the record of what an answer may
  carry. Nothing is assumed of the answers here.

  \<^item> \<open>uhs_call\<close>: Wii U USB host stack (nsysuhs.rpl), used by \<^verbatim>\<open>driver/ax88179.c\<close>.
  \<^item> \<open>os_call\<close>: coreinit and the C allocator.
  \<^item> \<open>lwip_call\<close>: the TCP/IP stack, used by \<^verbatim>\<open>net/ax_net.c\<close>.
  \<^item> \<open>sock_call\<close>: lwIP's socket API, used by \<^verbatim>\<open>aroma_module/nsysnet_shim.c\<close>.
  \<^item> \<open>nsn_call\<close>: the console's own socket library (nsysnet.rpl) behind the \<open>real_\<close> pointers.
  \<^item> \<open>dns_call\<close>, \<open>nsd_call\<close>: name resolution of lwIP and of nsysnet.
  \<^item> \<open>nssl_call\<close>, \<open>patcher_call\<close>, \<open>module_call\<close>: secure sockets, function patcher, module services.
  \<^item> \<open>port_call\<close>: the threads, semaphores and queues under lwIP, used by \<^verbatim>\<open>net/port/sys_arch.c\<close>.

  An answer's \<open>r_ret\<close> is the returned number (1 and 0 for a non-NULL and a NULL pointer),
  \<open>r_val\<close> a returned 32-bit address, \<open>r_msg\<close> a received message (its pointer and first
  argument), \<open>r_errno\<close> the errno the callee sets if it sets one, \<open>r_nsa\<close>, \<open>r_lsa\<close> and \<open>r_len\<close>
  an address and length it writes, \<open>r_extra\<close> a second byte area, \<open>r_sets\<close> the descriptor sets it writes, \<open>r_ints\<close> and
  \<open>r_nsas\<close> the arrays it writes, \<open>r_ais\<close> and \<open>r_nais\<close> the address lists it returns (nsysnet's
  with the addresses of the nodes).
\<close>

section \<open>USB host stack\<close>

datatype uhs_admin = UHS_ADMIN_EP_ENABLE | UHS_ADMIN_EP_CANCEL | UHS_ADMIN_EP_DISABLE

datatype uhs_call =
    UhsClientOpen
  | UhsQueryInterfaces u16 u16 nat
  | UhsAcquireInterface u32
  | UhsReleaseInterface u32
  | UhsClientClose
  | UhsAdministerEndpoint u32 uhs_admin u32 nat nat
  | UhsSubmitControlRequest u32 bytes u8 u8 u16 u16 u16 nat
  | UhsSubmitBulkRequest u32 u8 nat bytes nat
  | UhsSubmitBulkRequestAsync u32 u8 nat "nat option" nat nat

record uhs_endpoint =
  bLength :: u8
  bEndpointAddress :: u8
  bmAttributes :: u8
  wMaxPacketSize :: u16

record uhs_profile =
  p_if_handle :: u32
  in_endpoints :: "uhs_endpoint list"
  out_endpoints :: "uhs_endpoint list"

section \<open>Operating system\<close>

datatype os_call =
    Os_calloc
  | OSGetTime
  | OSSleepMs nat
  | OSWaitEventWithTimeout int
  | OSInitMessageQueue nat
  | OSSendMessage nat nat
  | OSReceiveMessage
  | OSMillisecondsToTicks nat
  | OSMicrosecondsToTicks nat
  | OSTicksToMicroseconds int
  | OSSleepTicks int
  | Os_malloc nat
  | Os_free u32
  | OSCreateThread nat
  | OSResumeThread nat
  | OSIsThreadTerminated nat
  | OSJoinThread nat
  | OSGetCurrentThread
  | OSGetTitleID
  | OSTicksToMilliseconds int

section \<open>lwIP\<close>

text \<open>The stack's functions the network layer calls. The interface argument is always the
  module's one \<open>iface\<close>.\<close>

datatype lwip_call =
    Lock_tcpip_core
  | Unlock_tcpip_core
  | Tcpip_init
  | Tcpip_shutdown
  | Lwip_port_reset_all
  | Sys_now
  | Sys_timeout nat
  | Netif_add
  | Netif_remove
  | Netif_set_default
  | Netif_set_up
  | Netif_set_down
  | Netif_set_link_up
  | Netif_set_link_down
  | Netif_set_addr u32 u32 u32
  | Netif_is_link_up
  | Netif_ip4_addr
  | Netif_ip4_netmask
  | Netif_ip4_gw
  | Netif_dhcp_data
  | Dhcp_start
  | Dhcp_stop
  | Dhcp_release_and_stop
  | Dhcp_cleanup
  | Dhcp_supplied_address
  | Pbuf_alloc nat
  | Pbuf_take bytes
  | Pbuf_free
  | Netif_input bytes

section \<open>Sockets\<close>

text \<open>nsysnet's \<open>struct nsn_sockaddr\<close>, read as \<open>struct nsn_sockaddr_in\<close>, and lwIP's
  \<open>struct sockaddr_in\<close>. Ports and addresses are in network order.\<close>

record nsn_sockaddr =
  nsn_family :: u16
  nsn_port :: u16
  nsn_addr :: u32
  nsn_zero :: bytes

record sockaddr_in =
  sin_len :: u8
  sin_family :: u8
  sin_port :: u16
  sin_addr :: u32
  sin_zero :: bytes

type_synonym timeval = "int \<times> int"

text \<open>A descriptor set of lwIP (32 sockets, offset 0) and of nsysnet is a 32-bit mask.\<close>

datatype sock_call =
    Lwip_socket int int int
  | Lwip_close int
  | Lwip_bind int sockaddr_in
  | Lwip_connect int sockaddr_in
  | Lwip_listen int int
  | Lwip_accept int bool
  | Lwip_shutdown int int
  | Lwip_send int bytes int
  | Lwip_sendto int bytes int int "sockaddr_in option"
  | Lwip_recv int int int
  | Lwip_recvfrom int int int bool
  | Lwip_recvfrom_with_ttl int int int bool
  | Lwip_select int "u32 option" "u32 option" "u32 option" "timeval option"
  | Lwip_getsockname int
  | Lwip_getpeername int
  | Lwip_ioctl_FIONBIO int int
  | Lwip_ioctl_FIONREAD int
  | Lwip_fcntl_F_GETFL int
  | Lwip_setsockopt int int int "bytes option" u32
  | Lwip_getsockopt int int int "bytes option" "u32 option"

datatype nsn_call =
    Real_socket int int int
  | Real_socketclose int
  | Real_socketclose_all
  | Real_bind int "nsn_sockaddr option" u32
  | Real_connect int "nsn_sockaddr option" u32
  | Real_listen int int
  | Real_accept int "nsn_sockaddr option" "u32 option"
  | Real_shutdown int int
  | Real_send int bytes int
  | Real_sendto int bytes int "nsn_sockaddr option" u32
  | Real_sendto_multi int bytes int int "nsn_sockaddr list" int
  | Real_sendto_multi_ex int int int
  | Real_recv int int int
  | Real_recvfrom int int int "nsn_sockaddr option" "u32 option"
  | Real_recvfrom_ex int int int "nsn_sockaddr option" "u32 option" "bytes option" int
  | Real_recvfrom_multi int int int int "timeval option"
  | Real_select int "u32 option" "u32 option" "u32 option" "timeval option"
  | Real_getsockname int "nsn_sockaddr option" "u32 option"
  | Real_getpeername int "nsn_sockaddr option" "u32 option"
  | Real_setsockopt int int int "bytes option" u32
  | Real_getsockopt int int int "bytes option" "u32 option"
  | Real_socketlasterr

section \<open>Name resolution\<close>

text \<open>Names are C strings without their terminator. \<open>struct addrinfo\<close> without its list pointer,
  in lwIP's and nsysnet's form; hints are the first four fields.\<close>

record ai_hints =
  h_flags :: int
  h_family :: int
  h_socktype :: int
  h_protocol :: int

record lw_addrinfo =
  la_flags :: int
  la_family :: int
  la_socktype :: int
  la_protocol :: int
  la_addr :: sockaddr_in
  la_canonname :: "bytes option"

record nsn_addrinfo =
  na_flags :: int
  na_family :: int
  na_socktype :: int
  na_protocol :: int
  na_addrlen :: u32
  na_canonname :: "bytes option"
  na_addr :: nsn_sockaddr

datatype dns_call =
    Lwip_gethostbyname "bytes option"
  | Lwip_getaddrinfo "bytes option" "bytes option" "ai_hints option"
  | Lwip_freeaddrinfo
  | Dns_getserver nat
  | Dns_gethostbyname bytes u32

datatype nsd_call =
    Real_gethostbyname "bytes option"
  | Real_gethostbyaddr "bytes option" u32 int
  | Real_getaddrinfo "bytes option" "bytes option" "ai_hints option" bool
  | Real_getaddrinfo_rs "bytes option" "bytes option" "ai_hints option" bool
  | Real_getaddrinfo_async "bytes option" "bytes option" "ai_hints option" bool
  | Real_getaddrinfo_async_rs "bytes option" "bytes option" "ai_hints option" bool
  | Real_dns_abort_by_hname "bytes option"
  | Real_freeaddrinfo u32
  | Real_getnameinfo "nsn_sockaddr option" u32 "u32 option" "u32 option" int
  | Real_get_h_errno
  | Real_gai_strerror int

section \<open>Secure sockets, function patcher, module environment\<close>

text \<open>Nintendo's NSSL; the Aroma function patcher; and what the module itself uses: the loopback
  address parser, the UDP log, the kernel access of Mocha, files (\<open>Fopen\<close> answers with the contents).
  \<open>Other_threads\<close> is no call: it asks what the module's other threads did in the meantime.
  Threads are numbered: 0 to 7 the relays, 8 the worker, 9 the watchdog.\<close>

datatype nssl_call =
    Real_NSSLCreateConnection int "bytes option" int int int int
  | Real_NSSLDestroyConnection int
  | Real_NSSLFinish

datatype patcher_call =
    FunctionPatcher_InitLibrary
  | FunctionPatcher_GetVersion
  | FunctionPatcher_AddFunctionPatch string
  | FunctionPatcher_RemoveFunctionPatch u32
  | FunctionPatcher_DeInitLibrary

datatype module_call =
    Lwip_inet_pton string
  | WHBLogUdpInit
  | WHBLogUdpDeinit
  | Mocha_InitLibrary
  | Mocha_IOSUKernelRead32 u32
  | Mocha_IOSUKernelWrite32 u32 u32
  | Mocha_DeInitLibrary
  | Fopen string
  | Fclose
  | Other_threads

section \<open>The port of lwIP\<close>

text \<open>What \<^verbatim>\<open>net/port/sys_arch.c\<close> calls. Objects are known by their addresses; the \<open>New_\<close> calls are
  its allocations, by what is allocated (0 in \<open>r_val\<close> is NULL); a flag tells whether a call blocks.\<close>

datatype port_call =
    New_sem
  | New_mutex
  | New_mbox nat
  | New_thread
  | New_stack int
  | New_thread_start
  | Port_free u32
  | OSInitSemaphore u32 u8
  | OSWaitSemaphore u32
  | OSTryWaitSemaphore u32
  | OSSignalSemaphore u32
  | OSInitMutex u32
  | OSLockMutex u32
  | OSUnlockMutex u32
  | Mbox_init u32 nat
  | Mbox_send u32 u32 bool
  | Mbox_receive u32 bool
  | Port_create_thread u32 u32 u32 int int
  | OSDetachThread u32
  | Port_resume_thread u32
  | Run_thread_fn u32 u32

section \<open>All calls and answers\<close>

datatype call =
    Uhs uhs_call
  | Os os_call
  | Lwip lwip_call
  | Sock sock_call
  | Nsn nsn_call
  | Dns dns_call
  | Nsd nsd_call
  | Nssl nssl_call
  | Patcher patcher_call
  | Module module_call
  | Port port_call

text \<open>A bulk-IN completion the host stack delivers: the \<open>user\<close> pointer (a slot) and DMA
  buffer given at submission, the result, the byte count, and the bytes it wrote.\<close>

record rx_event =
  ev_user :: "nat option"
  ev_buf :: nat
  ev_ret :: int
  ev_actual :: u32
  ev_bytes :: bytes

record resp =
  r_ret :: int
  r_data :: bytes
  r_profile :: uhs_profile
  r_rx :: "rx_event list"
  r_val :: u32
  r_msg :: "nat \<times> nat"
  r_errno :: "int option"
  r_nsa :: nsn_sockaddr
  r_lsa :: sockaddr_in
  r_len :: u32
  r_extra :: bytes
  r_sets :: "u32 \<times> u32 \<times> u32"
  r_ints :: "int list"
  r_nsas :: "nsn_sockaddr list"
  r_ais :: "lw_addrinfo list"
  r_nais :: "(u32 \<times> nsn_addrinfo) list"

definition ep0 :: uhs_endpoint where
  "ep0 = \<lparr>bLength = 0, bEndpointAddress = 0, bmAttributes = 0, wMaxPacketSize = 0\<rparr>"

definition nsn0 :: nsn_sockaddr where
  "nsn0 = \<lparr>nsn_family = 0, nsn_port = 0, nsn_addr = 0, nsn_zero = replicate 8 0\<rparr>"

definition sin0 :: sockaddr_in where
  "sin0 = \<lparr>sin_len = 0, sin_family = 0, sin_port = 0, sin_addr = 0, sin_zero = replicate 8 0\<rparr>"

definition resp0 :: resp where
  "resp0 = \<lparr>r_ret = 0, r_data = [],
     r_profile = \<lparr>p_if_handle = 0, in_endpoints = replicate 16 ep0, out_endpoints = replicate 16 ep0\<rparr>,
     r_rx = [], r_val = 0, r_msg = (0, 0), r_errno = None, r_nsa = nsn0, r_lsa = sin0,
     r_len = 0, r_extra = [], r_sets = (0, 0, 0), r_ints = [], r_nsas = [], r_ais = [], r_nais = []\<rparr>"

end
