(* ===== verification/Driver_Control.thy ===== *)
theory Driver_Control
  imports Env
begin

text \<open>
  The AX88179 driver of \<^verbatim>\<open>driver/ax88179.c\<close>: its state, register access over USB control
  transfers, endpoint discovery, open, close and link polling. The receive ring is in
  \<open>Driver_Rx\<close>, the transmit path in \<open>Driver_Tx\<close>.

  The driver allows one instance (\<open>g_open\<close>). The heap object behind \<open>Ax88179 *\<close> is the
  field \<open>axp\<close>: \<open>None\<close> where the pointer is NULL or freed. Log lines are not modelled.
\<close>

section \<open>State\<close>

datatype slot_state = AX_RX_SLOT_IDLE | AX_RX_SLOT_PENDING | AX_RX_SLOT_DONE

text \<open>\<open>sl_ptr\<close> is the DMA buffer the slot points to, as its index in \<open>g_rx_async\<close>.\<close>

record AxRxAsyncSlot =
  sl_state :: slot_state
  sl_ret :: int
  sl_actual :: u32
  sl_ptr :: "nat option"

record ax88179 =
  tx_maxpacket :: u16
  medium :: u16
  enabled_eps :: u32
  ep_in_mask :: u32
  ep_out_mask :: u32
  last_control :: int
  last_cmd :: u8
  last_value :: u16
  last_index :: u16
  last_size :: u16
  last_read :: bool
  if_handle :: u32
  ep_in :: u8
  ep_out :: u8
  ep_irq :: u8
  mac :: bytes
  rx_len :: int
  rx_frames :: int
  rx_next :: int
  rx_hdr_offset :: u32
  rx_pos :: int
  rx_consume :: nat
  rx_async_started :: bool
  last_bulk :: int
  last_bulk_us :: u32

definition ax_zero :: ax88179 where
  "ax_zero = \<lparr>tx_maxpacket = 0, medium = 0, enabled_eps = 0, ep_in_mask = 0, ep_out_mask = 0,
     last_control = 0, last_cmd = 0, last_value = 0, last_index = 0, last_size = 0,
     last_read = False, if_handle = 0, ep_in = 0, ep_out = 0, ep_irq = 0, mac = replicate 6 0,
     rx_len = 0, rx_frames = 0, rx_next = 0, rx_hdr_offset = 0, rx_pos = 0, rx_consume = 0,
     rx_async_started = False, last_bulk = 0, last_bulk_us = 0\<rparr>"

record drv = "(call, resp) world" +
  axp :: "ax88179 option"
  g_open :: bool
  phy_init_generation :: u32
  debug_last_link :: int
  g_rx :: bytes
  g_rx_async :: "bytes list"
  g_rx_slots :: "AxRxAsyncSlot list"
  g_tx :: bytes

definition upd_ax :: "(ax88179 \<Rightarrow> ax88179) \<Rightarrow> ('z drv_scheme, unit) state" where
  "upd_ax f = modify (\<lambda>s. s\<lparr>axp := map_option f (axp s)\<rparr>)"

definition get_ax :: "(ax88179 \<Rightarrow> 'a) \<Rightarrow> ('z drv_scheme, 'a) state" where
  "get_ax f = gets (\<lambda>s. f (the (axp s)))"

lemma wp_upd_ax [wp]: "wp (upd_ax f) Q s = Q () (s\<lparr>axp := map_option f (axp s)\<rparr>)"
  by (simp add: upd_ax_def wp)

lemma wp_get_ax [wp]: "wp (get_ax f) Q s = Q (f (the (axp s))) s"
  by (simp add: get_ax_def wp)

lemma keeps_get_ax [keeps]: "keeps I (get_ax f)"
  by (simp add: keeps_def wp)

section \<open>Constants\<close>

abbreviation (input) "AX_ACCESS_MAC \<equiv> (0x01 :: u8)"
abbreviation (input) "AX_ACCESS_PHY \<equiv> (0x02 :: u8)"
abbreviation (input) "AX_NODE_ID \<equiv> (0x10 :: u16)"
abbreviation (input) "AX_RX_CTL \<equiv> (0x0b :: u16)"
abbreviation (input) "AX_MEDIUM_STATUS_MODE \<equiv> (0x22 :: u16)"
abbreviation (input) "AX_PHYPWR_RSTCTL \<equiv> (0x26 :: u16)"
abbreviation (input) "AX_RX_BULKIN_QCTRL \<equiv> (0x2e :: u16)"
abbreviation (input) "AX_CLK_SELECT \<equiv> (0x33 :: u16)"
abbreviation (input) "AX_RXCOE_CTL \<equiv> (0x34 :: u16)"
abbreviation (input) "AX_TXCOE_CTL \<equiv> (0x35 :: u16)"
abbreviation (input) "AX_PAUSE_WATERLVL_HIGH \<equiv> (0x54 :: u16)"
abbreviation (input) "AX_PAUSE_WATERLVL_LOW \<equiv> (0x55 :: u16)"
abbreviation (input) "AX_PHYPWR_RSTCTL_IPRL \<equiv> (0x0020 :: u16)"
abbreviation (input) "AX88179_PHY_ID \<equiv> (0x03 :: u16)"
abbreviation (input) "AX_PHYSICAL_LINK_STATUS \<equiv> (0x02 :: u16)"
abbreviation (input) "ASIX_VID \<equiv> (0x0b95 :: u16)"
abbreviation (input) "AX88179_PID \<equiv> (0x1790 :: u16)"
abbreviation (input) "REQ_IN \<equiv> (0xC0 :: u8)"
abbreviation (input) "REQ_OUT \<equiv> (0x40 :: u8)"
abbreviation (input) "MAX_IFACES \<equiv> (16 :: nat)"
abbreviation (input) "RX_BUFFER_SIZE \<equiv> (26624 :: nat)"
abbreviation (input) "RX_ASYNC_SLOTS \<equiv> (3 :: nat)"
abbreviation (input) "RX_CTL_DEFAULT \<equiv>
  (0x0100 OR 0x0200 OR 0x0080 OR 0x0020 OR 0x0008 OR 0x0002 :: u16)"
abbreviation (input) "UHS_DIR_OUT \<equiv> (1 :: nat)"
abbreviation (input) "UHS_DIR_IN \<equiv> (2 :: nat)"

section \<open>Register access\<close>

definition ax88179_force_cold_next_open :: "('z drv_scheme, unit) state" where
  "ax88179_force_cold_next_open =
     modify (\<lambda>s. s\<lparr>phy_init_generation := 0, debug_last_link := - 1\<rparr>)"

definition sleep_ms :: "nat \<Rightarrow> ('z drv_scheme, unit) state" where
  "sleep_ms ms = do { ext (Os (OSSleepMs ms)); return () }"

text \<open>\<open>data\<close> is the caller's buffer (\<open>None\<close> for NULL); the second component of the result
  is that buffer afterwards. A read returns what the transfer left in \<open>g_ctrl\<close>.\<close>

definition control ::
  "bool \<Rightarrow> u8 \<Rightarrow> u16 \<Rightarrow> u16 \<Rightarrow> u16 \<Rightarrow> bytes option \<Rightarrow> ('z drv_scheme, int \<times> bytes) state" where
  "control rd cmd val idx sz data = do {
     a \<leftarrow> gets axp;
     if a = None \<or> data = None \<or> sz = 0 \<or> sz > 64 then return (- 1, [])
     else do {
       let g_ctrl = (if rd then replicate 64 0
                     else memcpy_at 0 (take (unat sz) (the data)) (replicate 64 0));
       upd_ax (\<lambda>a. a\<lparr>last_cmd := cmd, last_value := val, last_index := idx,
                      last_size := sz, last_read := rd\<rparr>);
       h \<leftarrow> get_ax if_handle;
       r \<leftarrow> ext (Uhs (UhsSubmitControlRequest h g_ctrl cmd (if rd then REQ_IN else REQ_OUT)
                      val idx sz 1000));
       upd_ax (\<lambda>a. a\<lparr>last_control := r_ret r\<rparr>);
       if r_ret r < 0 then return (- 1, the data)
       else if r_ret r \<noteq> uint sz then return (- 1, the data)
       else if rd then
         return (0, take (unat sz) (memcpy_at 0 (take 64 (r_data r)) g_ctrl))
       else return (0, the data)
     }
   }"

definition reg_write :: "u8 \<Rightarrow> u16 \<Rightarrow> u16 \<Rightarrow> bytes \<Rightarrow> ('z drv_scheme, int) state" where
  "reg_write cmd reg sz data = do {
     (r, _) \<leftarrow> control False cmd reg sz sz (Some data);
     return r }"

definition reg_read :: "u8 \<Rightarrow> u16 \<Rightarrow> u16 \<Rightarrow> bytes option \<Rightarrow> ('z drv_scheme, int \<times> bytes) state" where
  "reg_read cmd reg sz out = control True cmd reg sz sz out"

definition ax88179_read_mac :: "u16 \<Rightarrow> bytes option \<Rightarrow> u16 \<Rightarrow> ('z drv_scheme, int \<times> bytes) state" where
  "ax88179_read_mac reg out sz = reg_read AX_ACCESS_MAC reg sz out"

text \<open>\<open>val\<close> is the variable behind \<open>value\<close> before the call (\<open>None\<close> for NULL).\<close>

definition ax88179_read_phy :: "u16 \<Rightarrow> u16 option \<Rightarrow> ('z drv_scheme, int \<times> u16) state" where
  "ax88179_read_phy reg val = (case val of None \<Rightarrow> return (- 1, 0) | Some old \<Rightarrow> do {
     (r, bs) \<leftarrow> control True AX_ACCESS_PHY AX88179_PHY_ID reg 2 (Some [0, 0]);
     if r \<noteq> 0 then return (- 1, old)
     else return (0, ucast (bs ! 0) OR push_bit 8 (ucast (bs ! 1))) })"

definition phy_write :: "u16 \<Rightarrow> u16 \<Rightarrow> ('z drv_scheme, int) state" where
  "phy_write reg val = do {
     (r, _) \<leftarrow> control False AX_ACCESS_PHY AX88179_PHY_ID reg 2
                (Some [ucast val, ucast (drop_bit 8 val)]);
     return r }"

definition ax88179_last_control :: "('z drv_scheme, int) state" where
  "ax88179_last_control = gets (\<lambda>s. case axp s of None \<Rightarrow> - 1 | Some a \<Rightarrow> last_control a)"

definition mac_write8 :: "u16 \<Rightarrow> u8 \<Rightarrow> ('z drv_scheme, int) state" where
  "mac_write8 reg val = reg_write AX_ACCESS_MAC reg 1 [val]"

definition mac_write16 :: "u16 \<Rightarrow> u16 \<Rightarrow> ('z drv_scheme, int) state" where
  "mac_write16 reg val =
     reg_write AX_ACCESS_MAC reg 2 [ucast (val AND 0xFF), ucast (drop_bit 8 val)]"

section \<open>Endpoints\<close>

definition swap16 :: "u16 \<Rightarrow> u16" where
  "swap16 m = drop_bit 8 m OR push_bit 8 m"

definition legal_mps :: "u16 \<Rightarrow> bool" where
  "legal_mps m \<longleftrightarrow> m = 64 \<or> m = 512 \<or> m = 1024"

definition scan_in :: "uhs_endpoint \<Rightarrow> ax88179 \<Rightarrow> ax88179" where
  "scan_in e a =
     (if bLength e \<noteq> 0 \<and> bEndpointAddress e AND 0x80 \<noteq> 0 then
        let kind = bmAttributes e AND 0x03 in
        if kind = 0x02 \<and> ep_in a = 0 then
          let n = bEndpointAddress e AND 0x0F in
          a\<lparr>ep_in := n, ep_in_mask := bitm (16 + unat n)\<rparr>
        else if kind = 0x03 \<and> ep_irq a = 0 then
          a\<lparr>ep_irq := bEndpointAddress e AND 0x0F\<rparr>
        else a
      else a)"

definition scan_out :: "uhs_endpoint \<Rightarrow> ax88179 \<Rightarrow> ax88179" where
  "scan_out e a =
     (if bLength e \<noteq> 0 \<and> bEndpointAddress e AND 0x80 = 0 then
        if bmAttributes e AND 0x03 = 0x02 \<and> ep_out a = 0 then
          let n = bEndpointAddress e AND 0x0F;
              mps = (if legal_mps (wMaxPacketSize e) then wMaxPacketSize e
                     else swap16 (wMaxPacketSize e));
              b = a\<lparr>ep_out := n, ep_out_mask := bitm (unat n)\<rparr> in
          if legal_mps mps then b\<lparr>tx_maxpacket := mps\<rparr> else b
        else a
      else a)"

fun scan_endpoints :: "(uhs_endpoint \<times> uhs_endpoint) list \<Rightarrow> ax88179 \<Rightarrow> ax88179" where
  "scan_endpoints [] a = a"
| "scan_endpoints ((i, o') # es) a = scan_endpoints es (scan_out o' (scan_in i a))"

definition find_endpoints :: "uhs_profile \<Rightarrow> ('z drv_scheme, int) state" where
  "find_endpoints p = do {
     upd_ax (\<lambda>a. scan_endpoints (take 16 (zip (in_endpoints p) (out_endpoints p)))
                   (a\<lparr>ep_in := 0, ep_out := 0, ep_irq := 0\<rparr>));
     a \<leftarrow> get_ax id;
     return (if ep_in a \<noteq> 0 \<and> ep_out a \<noteq> 0 \<and> tx_maxpacket a \<noteq> 0 then 0 else - 1) }"

section \<open>Opening and closing\<close>

datatype open_error =
    AlreadyOpen
  | OutOfMemory
  | CannotOpenUhs
  | NoAdapter
  | NoBulkPair
  | InterfaceRefused
  | EndpointFail string
  | StageFail string

definition ax88179_close :: "('z drv_scheme, unit) state" where
  "ax88179_close = do {
     p \<leftarrow> gets axp;
     case p of None \<Rightarrow> return () | Some _ \<Rightarrow> do {
       mac_write16 AX_RX_CTL 0;
       upd_ax (\<lambda>a. a\<lparr>rx_async_started := False\<rparr>);
       a \<leftarrow> get_ax id;
       whenM (ep_in_mask a \<noteq> 0) (do {
         ext (Uhs (UhsAdministerEndpoint (if_handle a) UHS_ADMIN_EP_CANCEL (ep_in_mask a) 0 0));
         return () });
       whenM (enabled_eps a \<noteq> 0) (do {
         ext (Uhs (UhsAdministerEndpoint (if_handle a) UHS_ADMIN_EP_DISABLE (enabled_eps a) 0 0));
         return () });
       ext (Uhs (UhsReleaseInterface (if_handle a)));
       ext (Uhs UhsClientClose);
       modify (\<lambda>s. s\<lparr>axp := None\<rparr>);
       modify (\<lambda>s. s\<lparr>g_open := False\<rparr>) } }"

definition check :: "string \<Rightarrow> ('s, int) state \<Rightarrow> ('s, open_error + unit) state" where
  "check stage m = do {
     r \<leftarrow> m;
     return (if r \<noteq> 0 then Inl (StageFail stage) else Inr ()) }"

definition checkR :: "string \<Rightarrow> ('s, int \<times> 'a) state \<Rightarrow> ('s, open_error + 'a) state" where
  "checkR stage m = do {
     (r, x) \<leftarrow> m;
     return (if r \<noteq> 0 then Inl (StageFail stage) else Inr x) }"

definition require :: "string \<Rightarrow> bool \<Rightarrow> ('s, open_error + unit) state" where
  "require stage b = return (if b then Inr () else Inl (StageFail stage))"

definition liftE :: "('s, 'a) state \<Rightarrow> ('s, open_error + 'a) state" where
  "liftE m = do { x \<leftarrow> m; return (Inr x) }"

text \<open>Whether the PHY of an adapter opened before in this session may be kept as it is.\<close>

definition warm_phy_check :: "('z drv_scheme, bool) state" where
  "warm_phy_check = do {
     g \<leftarrow> gets phy_init_generation;
     if g = 0 then return False
     else do {
       (r0, bmcr) \<leftarrow> ax88179_read_phy 0 (Some 0xffff);
       if r0 \<noteq> 0 then return False
       else do {
         (r1, bmsr) \<leftarrow> ax88179_read_phy 1 (Some 0xffff);
         return (\<not> (r1 \<noteq> 0 \<or> bmcr = 0xffff \<or> bmcr = 0 \<or> bmsr = 0xffff \<or> bmsr = 0)) } } }"

definition bringup_phy_reset :: "bool \<Rightarrow> ('z drv_scheme, open_error + unit) state" where
  "bringup_phy_reset warm =
     (if warm then return (Inr ())
      else bindE (check ''PHY power reset'' (mac_write16 AX_PHYPWR_RSTCTL 0)) (\<lambda>_.
           bindE (check ''PHY power reset'' (mac_write16 AX_PHYPWR_RSTCTL AX_PHYPWR_RSTCTL_IPRL)) (\<lambda>_.
           liftE (sleep_ms 500))))"

definition mac_valid :: "bytes \<Rightarrow> bool" where
  "mac_valid m \<longleftrightarrow> fold (OR) m 0 \<noteq> 0 \<and> (m ! 0) AND 1 = 0"

definition bringup_mac :: "('z drv_scheme, open_error + unit) state" where
  "bringup_mac =
     bindE (check ''clock select'' (mac_write8 AX_CLK_SELECT 3)) (\<lambda>_.
     bindE (liftE (sleep_ms 200)) (\<lambda>_.
     bindE (checkR ''clock readback'' (reg_read AX_ACCESS_MAC AX_CLK_SELECT 1 (Some [0]))) (\<lambda>clock.
     bindE (require ''clock readback'' (clock ! 0 AND 3 = 3)) (\<lambda>_.
     bindE (checkR ''MAC address'' (reg_read AX_ACCESS_MAC AX_NODE_ID 6 (Some (replicate 6 0)))) (\<lambda>m.
     bindE (liftE (upd_ax (\<lambda>a. a\<lparr>mac := m\<rparr>))) (\<lambda>_.
     require ''MAC address'' (mac_valid m)))))))"

definition bringup_rxtx :: "('z drv_scheme, open_error + unit) state" where
  "bringup_rxtx =
     (let st = ''RX/TX configuration'' in
     bindE (check st (mac_write16 AX_RX_CTL 0)) (\<lambda>_.
     bindE (check st (mac_write16 AX_MEDIUM_STATUS_MODE 0)) (\<lambda>_.
     bindE (check st (reg_write AX_ACCESS_MAC AX_RX_BULKIN_QCTRL 5 [7, 0x20, 3, 0x16, 0xff])) (\<lambda>_.
     bindE (check st (mac_write8 AX_PAUSE_WATERLVL_LOW 0x34)) (\<lambda>_.
     bindE (check st (mac_write8 AX_PAUSE_WATERLVL_HIGH 0x52)) (\<lambda>_.
     bindE (check st (mac_write8 AX_RXCOE_CTL 0)) (\<lambda>_.
     check st (mac_write8 AX_TXCOE_CTL 0))))))))"

definition bringup_autoneg :: "bool \<Rightarrow> ('z drv_scheme, open_error + unit) state" where
  "bringup_autoneg warm =
     (let st = ''PHY page/autonegotiation'' in
     bindE (check st (phy_write 0x1f 0)) (\<lambda>_.
     bindE (checkR st (ax88179_read_phy 0 (Some 0))) (\<lambda>bmcr.
     bindE (require st (bmcr \<noteq> 0xffff)) (\<lambda>_.
     let new0 = (bmcr AND NOT 0xcc00) OR 0x1000;
         new_bmcr = (if warm then new0 else new0 OR 0x0200) in
     bindE (check st (phy_write 0 new_bmcr)) (\<lambda>_.
     liftE (modify (\<lambda>s. s\<lparr>debug_last_link := - 1,
                             phy_init_generation := phy_init_generation s + 1\<rparr>)))))))"

definition enable_endpoint :: "string \<Rightarrow> (ax88179 \<Rightarrow> u32) \<Rightarrow> nat \<Rightarrow> nat \<Rightarrow>
    ('z drv_scheme, open_error + unit) state" where
  "enable_endpoint stage sel n sz = do {
     a \<leftarrow> get_ax id;
     r \<leftarrow> ext (Uhs (UhsAdministerEndpoint (if_handle a) UHS_ADMIN_EP_ENABLE (sel a) n sz));
     if r_ret r < 0 then return (Inl (EndpointFail stage))
     else do {
       upd_ax (\<lambda>b. b\<lparr>enabled_eps := enabled_eps b OR sel a\<rparr>);
       return (Inr ()) } }"

text \<open>Everything of \<open>ax88179_open\<close> between the acquired interface and its two exits; the
  labels \<open>fail\<close> and \<open>ep_fail\<close> are the two kinds of \<open>Inl\<close>.\<close>

definition open_bringup :: "('z drv_scheme, open_error + unit) state" where
  "open_bringup = do {
     warm \<leftarrow> warm_phy_check;
     bindE (bringup_phy_reset warm) (\<lambda>_.
     bindE bringup_mac (\<lambda>_.
     bindE bringup_rxtx (\<lambda>_.
     bindE (bringup_autoneg warm) (\<lambda>_.
     bindE (enable_endpoint ''enable bulk IN'' ep_in_mask RX_ASYNC_SLOTS RX_BUFFER_SIZE) (\<lambda>_.
     bindE (enable_endpoint ''enable bulk OUT'' ep_out_mask 1 2048) (\<lambda>_.
     check ''start RX'' (mac_write16 AX_RX_CTL RX_CTL_DEFAULT))))))) }"

definition free_ax :: "('z drv_scheme, unit) state" where
  "free_ax = modify (\<lambda>s. s\<lparr>axp := None\<rparr>)"

definition client_close_fail :: "open_error \<Rightarrow> ('z drv_scheme, open_error + unit) state" where
  "client_close_fail e = do { ext (Uhs UhsClientClose); free_ax; return (Inl e) }"

text \<open>From the first matching profile on: endpoints, interface, bring-up and its exits.\<close>

definition open_interface :: "uhs_profile \<Rightarrow> ('z drv_scheme, open_error + unit) state" where
  "open_interface p = do {
     e \<leftarrow> find_endpoints p;
     if e \<noteq> 0 then client_close_fail NoBulkPair else do {
     h \<leftarrow> get_ax if_handle;
     k \<leftarrow> ext (Uhs (UhsAcquireInterface h));
     if r_ret k < 0 then client_close_fail InterfaceRefused else do {
     modify (\<lambda>s. s\<lparr>g_open := True\<rparr>);
     b \<leftarrow> open_bringup;
     case b of Inr _ \<Rightarrow> return (Inr ())
     | Inl e \<Rightarrow> do { ax88179_close; return (Inl e) } }}}"

definition ax88179_open :: "('z drv_scheme, open_error + unit) state" where
  "ax88179_open = do {
     op \<leftarrow> gets g_open;
     if op then return (Inl AlreadyOpen) else do {
     m \<leftarrow> ext (Os Os_calloc);
     if r_ret m = 0 then return (Inl OutOfMemory) else do {
     modify (\<lambda>s. s\<lparr>axp := Some ax_zero\<rparr>);
     r \<leftarrow> ext (Uhs UhsClientOpen);
     if r_ret r < 0 then do { free_ax; return (Inl CannotOpenUhs) } else do {
     q \<leftarrow> ext (Uhs (UhsQueryInterfaces ASIX_VID AX88179_PID MAX_IFACES));
     if r_ret q \<le> 0 then client_close_fail NoAdapter else do {
     upd_ax (\<lambda>a. a\<lparr>if_handle := p_if_handle (r_profile q)\<rparr>);
     open_interface (r_profile q) }}}}}"

definition ax88179_abandon_title :: "('z drv_scheme, unit) state" where
  "ax88179_abandon_title = do {
     p \<leftarrow> gets axp;
     case p of None \<Rightarrow> return () | Some _ \<Rightarrow> do {
       upd_ax (\<lambda>a. a\<lparr>rx_async_started := False\<rparr>);
       free_ax;
       modify (\<lambda>s. s\<lparr>g_open := False\<rparr>) } }"

definition ax88179_mac :: "('z drv_scheme, bytes option) state" where
  "ax88179_mac = gets (\<lambda>s. map_option mac (axp s))"

section \<open>Link\<close>

definition link_speed :: "u16 \<Rightarrow> int" where
  "link_speed status =
     (if status AND 0xc000 = 0x8000 then 1000
      else if status AND 0xc000 = 0x4000 then 100 else 10)"

definition link_medium :: "u16 \<Rightarrow> u16" where
  "link_medium status =
     (let m0 = 0x100;
          m1 = (if status AND 0x2000 \<noteq> 0 then m0 OR 2 else m0);
          m2 = (if link_speed status = 1000 then m1 OR 9 else m1)
      in if link_speed status = 100 then m2 OR 0x200 else m2)"

definition link_queue :: "int \<Rightarrow> u8 \<Rightarrow> bytes" where
  "link_queue spd usb =
     (if spd = 1000 \<and> usb AND 4 \<noteq> 0 then [7, 0x4f, 0, 0x12, 0xff]
      else if spd = 1000 \<and> usb AND 2 \<noteq> 0 then [7, 0x20, 3, 0x16, 0xff]
      else if spd = 100 \<and> usb AND 6 \<noteq> 0 then [7, 0xae, 7, 0x18, 0xff]
      else [7, 0xcc, 0x4c, 0x18, 8])"

text \<open>The TX FIFO wait. The result is \<open>i\<close> after the loop, \<open>- 1\<close> for the early return; the
  first argument is the number of rounds left.\<close>

fun wait_fifo :: "nat \<Rightarrow> ('z drv_scheme, int) state" where
  "wait_fifo 0 = return 10"
| "wait_fifo (Suc k) = do {
     (r, fifo) \<leftarrow> control True 0x81 0x8c 0 4 (Some [0, 0, 0, 0]);
     if r \<noteq> 0 then return (- 1)
     else if le32 fifo AND 0x40000000 = 0 then return (int (10 - Suc k))
     else do { sleep_ms 10; wait_fifo k } }"

definition link_up_bits :: "u16 \<Rightarrow> u16 \<Rightarrow> bool" where
  "link_up_bits bmsr status \<longleftrightarrow>
     bmsr AND 4 \<noteq> 0 \<and> bmsr AND 0x20 \<noteq> 0 \<and> status AND 0x400 \<noteq> 0"

definition link_reconfigure :: "u16 \<Rightarrow> ('z drv_scheme, bool) state" where
  "link_reconfigure status = do {
     (r, usb) \<leftarrow> reg_read AX_ACCESS_MAC AX_PHYSICAL_LINK_STATUS 1 (Some [0]);
     if r \<noteq> 0 then return False else do {
     w1 \<leftarrow> mac_write16 AX_MEDIUM_STATUS_MODE 0;
     if w1 \<noteq> 0 then return False else do {
     w2 \<leftarrow> mac_write16 AX_RX_CTL 0;
     if w2 \<noteq> 0 then return False else do {
     w3 \<leftarrow> reg_write AX_ACCESS_MAC AX_RX_BULKIN_QCTRL 5 (link_queue (link_speed status) (usb ! 0));
     if w3 \<noteq> 0 then return False else do {
     w4 \<leftarrow> mac_write16 AX_RX_CTL RX_CTL_DEFAULT;
     if w4 \<noteq> 0 then return False else do {
     i \<leftarrow> wait_fifo 10;
     if i < 0 then return False else
     if i = 10 then return False else do {
     w5 \<leftarrow> mac_write16 AX_MEDIUM_STATUS_MODE (link_medium status);
     if w5 \<noteq> 0 then return False else do {
     upd_ax (\<lambda>a. a\<lparr>rx_frames := 0, medium := link_medium status\<rparr>);
     return True }}}}}}} }"

text \<open>What a poll does once the PHY registers are read. Pairs are the return value and
  \<open>*speed\<close>.\<close>

definition link_apply :: "u16 \<Rightarrow> u16 \<Rightarrow> ('z drv_scheme, int \<times> int) state" where
  "link_apply bmsr status = do {
     modify (\<lambda>s. s\<lparr>debug_last_link := (if link_up_bits bmsr status then 1 else 0)\<rparr>);
     med \<leftarrow> get_ax medium;
     if \<not> link_up_bits bmsr status then do {
       w \<leftarrow> (if med \<noteq> 0 then mac_write16 AX_MEDIUM_STATUS_MODE 0 else return 0);
       if w \<noteq> 0 then return (- 1, 0)
       else do {
         upd_ax (\<lambda>a. a\<lparr>medium := 0, rx_frames := 0\<rparr>);
         return (0, 0) } }
     else if med \<noteq> link_medium status then do {
       ok \<leftarrow> link_reconfigure status;
       return (if ok then (1, link_speed status) else (- 1, 0)) }
     else return (1, link_speed status) }"

definition ax88179_link :: "('z drv_scheme, int \<times> int) state" where
  "ax88179_link = do {
     p \<leftarrow> gets axp;
     if p = None then return (- 1, 0) else do {
     (r1, _) \<leftarrow> ax88179_read_phy 1 (Some 0);
     if r1 \<noteq> 0 then return (- 1, 0) else do {
     (r2, bmsr) \<leftarrow> ax88179_read_phy 1 (Some 0);
     if r2 \<noteq> 0 then return (- 1, 0) else do {
     (r3, status) \<leftarrow> ax88179_read_phy 0x11 (Some 0);
     if r3 \<noteq> 0 then return (- 1, 0)
     else if bmsr = 0xffff \<or> status = 0xffff then return (- 1, 0)
     else link_apply bmsr status }}}}"

definition ax88179_endpoints :: "('z drv_scheme, (u8 \<times> u8 \<times> u8) option) state" where
  "ax88179_endpoints = gets (\<lambda>s. map_option (\<lambda>a. (ep_in a, ep_out a, ep_irq a)) (axp s))"

definition ax88179_last_bulk :: "('z drv_scheme, int) state" where
  "ax88179_last_bulk = gets (\<lambda>s. case axp s of None \<Rightarrow> 0 | Some a \<Rightarrow> last_bulk a)"

definition ax88179_last_bulk_us :: "('z drv_scheme, u32) state" where
  "ax88179_last_bulk_us = gets (\<lambda>s. case axp s of None \<Rightarrow> 0 | Some a \<Rightarrow> last_bulk_us a)"

lemmas driver_runs [runs] =
  upd_ax_def [THEN run_cong]
  get_ax_def [THEN run_cong]
  ax88179_force_cold_next_open_def [THEN run_cong]
  sleep_ms_def [THEN run_cong]
  control_def [THEN run_cong]
  reg_write_def [THEN run_cong]
  reg_read_def [THEN run_cong]
  ax88179_read_mac_def [THEN run_cong]
  ax88179_read_phy_def [THEN run_cong]
  phy_write_def [THEN run_cong]
  ax88179_last_control_def [THEN run_cong]
  mac_write8_def [THEN run_cong]
  mac_write16_def [THEN run_cong]
  find_endpoints_def [THEN run_cong]
  ax88179_close_def [THEN run_cong]
  warm_phy_check_def [THEN run_cong]
  bringup_phy_reset_def [THEN run_cong]
  bringup_mac_def [THEN run_cong]
  bringup_rxtx_def [THEN run_cong]
  bringup_autoneg_def [THEN run_cong]
  enable_endpoint_def [THEN run_cong]
  open_bringup_def [THEN run_cong]
  free_ax_def [THEN run_cong]
  client_close_fail_def [THEN run_cong]
  open_interface_def [THEN run_cong]
  ax88179_open_def [THEN run_cong]
  ax88179_abandon_title_def [THEN run_cong]
  ax88179_mac_def [THEN run_cong]
  link_reconfigure_def [THEN run_cong]
  link_apply_def [THEN run_cong]
  ax88179_link_def [THEN run_cong]
  ax88179_endpoints_def [THEN run_cong]
  ax88179_last_bulk_def [THEN run_cong]
  ax88179_last_bulk_us_def [THEN run_cong]
  check_def [THEN run_cong]
  checkR_def [THEN run_cong]
  require_def [THEN run_cong]
  liftE_def [THEN run_cong]

section \<open>What control transfers leave alone\<close>

text \<open>Control transfers write only the \<open>last_*\<close> diagnostics of the device and the call
  history. \<open>ctl_frame\<close> is everything else, with the number of client and interface
  acquisitions and releases made so far.\<close>

definition core :: "ax88179 \<Rightarrow> ax88179" where
  "core a = a\<lparr>last_control := 0, last_cmd := 0, last_value := 0, last_index := 0,
     last_size := 0, last_read := False\<rparr>"

lemma core_sel [simp]:
  "tx_maxpacket (core a) = tx_maxpacket a" "medium (core a) = medium a"
  "enabled_eps (core a) = enabled_eps a" "ep_in_mask (core a) = ep_in_mask a"
  "ep_out_mask (core a) = ep_out_mask a" "if_handle (core a) = if_handle a"
  "ep_in (core a) = ep_in a" "ep_out (core a) = ep_out a" "mac (core a) = mac a"
  "rx_len (core a) = rx_len a" "rx_frames (core a) = rx_frames a" "rx_next (core a) = rx_next a"
  "rx_hdr_offset (core a) = rx_hdr_offset a" "rx_pos (core a) = rx_pos a"
  "rx_consume (core a) = rx_consume a" "rx_async_started (core a) = rx_async_started a"
  "last_bulk (core a) = last_bulk a"
  by (simp_all add: core_def)

fun is_acquire :: "call \<Rightarrow> bool" where
  "is_acquire (Uhs (UhsAcquireInterface _)) = True"
| "is_acquire _ = False"

fun is_release :: "call \<Rightarrow> bool" where
  "is_release (Uhs (UhsReleaseInterface _)) = True"
| "is_release _ = False"

fun is_rx_submit :: "call \<Rightarrow> bool" where
  "is_rx_submit (Uhs (UhsSubmitBulkRequestAsync _ _ _ _ _ _)) = True"
| "is_rx_submit _ = False"

definition calls :: "(call \<Rightarrow> bool) \<Rightarrow> 'z drv_scheme \<Rightarrow> nat" where
  "calls P s = length (filter P (trace s))"

text \<open>Client opens, client closes, interface acquisitions, interface releases.\<close>

definition tally :: "'z drv_scheme \<Rightarrow> nat \<times> nat \<times> nat \<times> nat" where
  "tally s = (calls ((=) (Uhs UhsClientOpen)) s, calls ((=) (Uhs UhsClientClose)) s,
              calls is_acquire s, calls is_release s)"

lemma calls_trace [simp]:
  "calls P (s\<lparr>trace := trace s @ cs\<rparr>) = calls P s + length (filter P cs)"
  by (simp add: calls_def)

lemma calls_cong [simp]:
  "calls P (s\<lparr>axp := x\<rparr>) = calls P s" "calls P (s\<lparr>g_open := o'\<rparr>) = calls P s"
  "calls P (s\<lparr>phy_init_generation := g\<rparr>) = calls P s"
  "calls P (s\<lparr>debug_last_link := l\<rparr>) = calls P s"
  "calls P (s\<lparr>g_rx := b\<rparr>) = calls P s" "calls P (s\<lparr>g_rx_async := bs\<rparr>) = calls P s"
  "calls P (s\<lparr>g_rx_slots := sl\<rparr>) = calls P s"
  "calls P (s\<lparr>g_tx := tx\<rparr>) = calls P s"
  by (simp_all add: calls_def)

definition rest where
  "rest s = (g_open s, phy_init_generation s, g_rx s, g_rx_async s, g_rx_slots s, g_tx s, drv.more s, tally s, calls is_rx_submit s, env s)"

definition ctl_frame where
  "ctl_frame s = (map_option core (axp s), rest s)"

lemma frame_only_control [preserves]: "preserves ctl_frame (control rd cmd val idx sz data)"
  by (rule preservesI)
     (auto simp: control_def wp ctl_frame_def rest_def tally_def core_def option.map_comp comp_def)

lemma frame_only_sleep [preserves]: "preserves ctl_frame (sleep_ms ms)"
  by (rule preservesI) (simp add: sleep_ms_def wp ctl_frame_def rest_def tally_def)

lemma frame_only_regs [preserves]:
  "preserves ctl_frame (reg_write cmd reg sz bs)" "preserves ctl_frame (reg_read cmd reg sz out)"
  "preserves ctl_frame (ax88179_read_phy reg v)" "preserves ctl_frame (phy_write reg w)"
  unfolding reg_write_def reg_read_def ax88179_read_phy_def phy_write_def
  by (intro preserves)+

lemma frame_only_mac [preserves]:
  "preserves ctl_frame (mac_write8 reg v)" "preserves ctl_frame (mac_write16 reg w)"
  unfolding mac_write8_def mac_write16_def by (intro preserves)+

lemma preserves_checks [preserves]:
  "preserves f m \<Longrightarrow> preserves f (check st m)" "preserves f m' \<Longrightarrow> preserves f (checkR st m')"
  "preserves f (require st b)" "preserves f n \<Longrightarrow> preserves f (liftE n)"
  unfolding check_def checkR_def require_def liftE_def by (intro preserves; assumption)+

lemma frame_only_bringup [preserves]:
  "preserves ctl_frame warm_phy_check" "preserves ctl_frame (bringup_phy_reset w)"
  "preserves ctl_frame bringup_rxtx"
  unfolding warm_phy_check_def bringup_phy_reset_def bringup_rxtx_def Let_def
  by (intro preserves)+

lemma frame_only_wait_fifo [preserves]: "preserves ctl_frame (wait_fifo k)"
  by (induction k) (auto intro!: preserves)

end
