(* ===== verification/Driver_Open.thy ===== *)
theory Driver_Open
  imports Driver_Control
begin

text \<open>
  What \<open>ax88179_open\<close>, \<open>ax88179_close\<close> and \<open>ax88179_link\<close> guarantee: resources are
  released on every failure path, a device that opens is completely configured, and
  the link state decides whether frames may be sent.
\<close>

section \<open>Endpoint discovery\<close>

text \<open>What \<open>find_endpoints\<close> establishes of the fields it fills.\<close>

definition eps_ok :: "ax88179 \<Rightarrow> bool" where
  "eps_ok a \<longleftrightarrow>
     ep_in a < 16 \<and> ep_out a < 16 \<and>
     (ep_in a \<noteq> 0 \<longrightarrow> ep_in_mask a = bitm (16 + unat (ep_in a))) \<and>
     (ep_out a \<noteq> 0 \<longrightarrow> ep_out_mask a = bitm (unat (ep_out a))) \<and>
     (tx_maxpacket a \<noteq> 0 \<longrightarrow> legal_mps (tx_maxpacket a))"

lemma and_0F_less: "(w :: u8) AND 0x0F < 16"
  by (rule order.strict_trans1 [OF word_and_le1]) simp

lemma eps_ok_scan_in: "eps_ok a \<Longrightarrow> eps_ok (scan_in e a)"
  by (auto simp: scan_in_def eps_ok_def Let_def and_0F_less)

lemma eps_ok_scan_out: "eps_ok a \<Longrightarrow> eps_ok (scan_out e a)"
  by (auto simp: scan_out_def eps_ok_def Let_def and_0F_less)

lemma eps_ok_scan: "eps_ok a \<Longrightarrow> eps_ok (scan_endpoints es a)"
  by (induction es a rule: scan_endpoints.induct) (simp_all add: eps_ok_scan_in eps_ok_scan_out)

text \<open>The fields discovery does not touch.\<close>

definition quiet :: "ax88179 \<Rightarrow> bool" where
  "quiet a \<longleftrightarrow> medium a = 0 \<and> enabled_eps a = 0 \<and> rx_frames a = 0 \<and> rx_next a = 0 \<and> rx_pos a = 0
     \<and> rx_consume a = 0 \<and> \<not> rx_async_started a"

lemma quiet_scan: "quiet (scan_endpoints es a) = quiet a"
  by (induction es a rule: scan_endpoints.induct)
     (simp_all add: scan_in_def scan_out_def quiet_def Let_def)

lemma wp_find_endpoints:
  assumes "axp s = Some a" and "quiet a" and "tx_maxpacket a = 0"
  shows "wp (find_endpoints p) (\<lambda>r t. \<exists>b. axp t = Some b \<and> quiet b \<and> eps_ok b \<and> rest t = rest s \<and>
           (r = 0 \<longrightarrow> ep_in b \<noteq> 0 \<and> ep_out b \<noteq> 0 \<and> tx_maxpacket b \<noteq> 0)) s"
proof -
  have "eps_ok (a\<lparr>ep_in := 0, ep_out := 0, ep_irq := 0\<rparr>)"
    using assms(3) by (simp add: eps_ok_def)
  moreover have "quiet (a\<lparr>ep_in := 0, ep_out := 0, ep_irq := 0\<rparr>)"
    using assms(2) by (simp add: quiet_def)
  ultimately show ?thesis
    using assms(1) by (simp add: find_endpoints_def wp eps_ok_scan quiet_scan rest_def tally_def)
qed

section \<open>Bring-up\<close>

text \<open>\<open>kept\<close> is what the whole bring-up leaves alone; MAC address and enabled endpoints are
  filled in on the way.\<close>

definition cfg :: "ax88179 \<Rightarrow> ax88179" where
  "cfg a = (core a)\<lparr>mac := [], enabled_eps := 0\<rparr>"

lemma cfg_sel:
  assumes "cfg b = cfg a"
  shows "ep_in b = ep_in a" "ep_out b = ep_out a" "ep_in_mask b = ep_in_mask a"
    "ep_out_mask b = ep_out_mask a" "tx_maxpacket b = tx_maxpacket a" "medium b = medium a"
    "rx_frames b = rx_frames a" "rx_next b = rx_next a" "rx_pos b = rx_pos a"
    "rx_consume b = rx_consume a" "rx_async_started b = rx_async_started a"
    "if_handle b = if_handle a"
  using assms by (cases a, cases b, simp add: cfg_def core_def)+

definition kept where
  "kept s = (map_option cfg (axp s), g_open s, g_rx s, g_rx_async s, g_rx_slots s, g_tx s, drv.more s, tally s, env s)"

definition extra where
  "extra s = (map_option mac (axp s), map_option enabled_eps (axp s))"

lemma frame_kept: "ctl_frame s = ctl_frame t \<Longrightarrow> kept s = kept t"
  by (cases "axp s"; cases "axp t") (simp_all add: ctl_frame_def rest_def kept_def cfg_def)

lemma frame_extra: "ctl_frame s = ctl_frame t \<Longrightarrow> extra s = extra t"
  by (cases "axp s"; cases "axp t") (simp_all add: ctl_frame_def extra_def, metis core_sel)

lemma kept_of_frame: "preserves ctl_frame m \<Longrightarrow> preserves kept m"
  by (erule preserves_coarser) (rule frame_kept)

lemma extra_of_frame: "preserves ctl_frame m \<Longrightarrow> preserves extra m"
  by (erule preserves_coarser) (rule frame_extra)

lemma kept_upd [preserves]:
  "preserves kept (upd_ax (\<lambda>a. a\<lparr>mac := m\<rparr>))"
  "preserves kept (upd_ax (\<lambda>a. a\<lparr>enabled_eps := enabled_eps a OR x\<rparr>))"
  "preserves kept (modify (\<lambda>s. s\<lparr>debug_last_link := l, phy_init_generation := phy_init_generation s + 1\<rparr>))"
  "preserves kept (get_ax f)"
  by (rule preservesI;
      simp add: wp kept_def tally_def option.map_comp comp_def cfg_def [abs_def] core_def)+

lemma kept_enable [preserves]: "preserves kept (enable_endpoint st sel n sz)"
proof (rule preservesI)
  fix s :: "'a drv_scheme"
  show "wp (enable_endpoint st sel n sz) (\<lambda>_ t. kept t = kept s) s"
    by (cases "axp s") (auto simp: enable_endpoint_def wp kept_def tally_def cfg_def core_def)
qed

lemmas kept_prims = kept_of_frame [OF frame_only_bringup(1)] kept_of_frame [OF frame_only_bringup(2)]
  kept_of_frame [OF frame_only_bringup(3)] kept_of_frame [OF frame_only_regs(1)]
  kept_of_frame [OF frame_only_regs(2)] kept_of_frame [OF frame_only_regs(3)]
  kept_of_frame [OF frame_only_regs(4)] kept_of_frame [OF frame_only_mac(1)]
  kept_of_frame [OF frame_only_mac(2)] kept_of_frame [OF frame_only_sleep]

lemma kept_bringup_mac [preserves]: "preserves kept bringup_mac"
  unfolding bringup_mac_def by (intro preserves kept_prims)

lemma kept_bringup_autoneg [preserves]: "preserves kept (bringup_autoneg w)"
  unfolding bringup_autoneg_def Let_def by (intro preserves kept_prims)

lemma kept_bringup [preserves]: "preserves kept open_bringup"
  unfolding open_bringup_def by (intro preserves kept_prims)

lemmas extra_prims = extra_of_frame [OF frame_only_bringup(1)] extra_of_frame [OF frame_only_bringup(2)]
  extra_of_frame [OF frame_only_bringup(3)] extra_of_frame [OF frame_only_regs(3)]
  extra_of_frame [OF frame_only_regs(4)] extra_of_frame [OF frame_only_mac(2)]

lemma extra_autoneg [preserves]: "preserves extra (bringup_autoneg w)"
proof -
  have "preserves extra (modify (\<lambda>s. s\<lparr>debug_last_link := - 1,
      phy_init_generation := phy_init_generation s + 1\<rparr>))"
    by (rule preservesI) (simp add: wp extra_def)
  then show ?thesis
    unfolding bringup_autoneg_def Let_def by (intro preserves extra_prims)
qed

text \<open>A successful read returns exactly the bytes asked for.\<close>

lemma wp_reg_read_len:
  "wp (reg_read cmd reg sz out) (\<lambda>(r, d) t. r = 0 \<longrightarrow> length d = unat sz) s"
  by (auto simp: reg_read_def control_def wp memcpy_at_def word_less_nat_alt not_less
      min_def word_le_nat_alt)

lemma wp_checkR: "wp m (\<lambda>(r, x) t. r = 0 \<longrightarrow> P x t) s \<Longrightarrow>
    wp (checkR st m) (\<lambda>r t. case r of Inl _ \<Rightarrow> True | Inr x \<Rightarrow> P x t) s"
  by (auto simp: checkR_def wp elim!: wp_mono)

lemmas extra_regs = extra_of_frame [OF frame_only_regs(2)] extra_of_frame [OF frame_only_mac(1)]
  extra_of_frame [OF frame_only_sleep]

lemma wp_bringup_mac:
  assumes "extra s = (Some m0, Some 0)"
  shows "wp bringup_mac (\<lambda>r t. r = Inr () \<longrightarrow>
           (\<exists>m. extra t = (Some m, Some 0) \<and> mac_valid m \<and> length m = 6)) s"
proof -
  have read6: "wp (checkR st (reg_read cmd reg 6 out)) (\<lambda>r t. extra t = (Some m0, Some 0) \<and>
      (case r of Inl _ \<Rightarrow> True | Inr x \<Rightarrow> length x = 6)) u"
    if "extra u = (Some m0, Some 0)" for st cmd reg out and u :: "'a drv_scheme"
  proof -
    have "wp (checkR st (reg_read cmd reg 6 out)) (\<lambda>_ t. extra t = extra u) u"
      by (intro wp_keep preserves extra_regs)
    moreover have "wp (checkR st (reg_read cmd reg 6 out))
        (\<lambda>r t. case r of Inl _ \<Rightarrow> True | Inr x \<Rightarrow> length x = unat (6 :: u16)) u"
      by (rule wp_checkR [OF wp_reg_read_len])
    ultimately show ?thesis
      using that by (simp add: wp_run_state split: sum.splits)
  qed
  show ?thesis
    unfolding bringup_mac_def
    apply (rule wp_bindE_keep [where f = extra, OF _ assms], (intro preserves extra_regs)[1], simp)
    apply (rule wp_bindE_keep [where f = extra], (intro preserves extra_regs)[1], assumption, simp)
    apply (rule wp_bindE_keep [where f = extra], (intro preserves extra_regs)[1], assumption, simp)
    apply (rule wp_bindE_keep [where f = extra], (intro preserves extra_regs)[1], assumption, simp)
    apply (rule wp_bindE_I [OF read6], assumption)
    by (auto simp: wp liftE_def require_def extra_def)
qed

lemma wp_enable_endpoint:
  assumes "extra s = (Some m, Some e)" and "map_option sel (axp s) = Some x"
  shows "wp (enable_endpoint st sel n sz) (\<lambda>r t. r = Inr () \<longrightarrow> extra t = (Some m, Some (e OR x))) s"
  using assms by (auto simp: enable_endpoint_def wp extra_def)

lemma kept_masks:
  "kept t = kept s \<Longrightarrow> map_option ep_in_mask (axp t) = map_option ep_in_mask (axp s)"
  "kept t = kept s \<Longrightarrow> map_option ep_out_mask (axp t) = map_option ep_out_mask (axp s)"
  by (cases "axp s"; cases "axp t"; auto simp: kept_def dest: cfg_sel)+

text \<open>The two facts a piece of the bring-up after the MAC stage carries along.\<close>

definition both where "both s = (kept s, extra s)"

lemma preserves_both: "preserves kept m \<Longrightarrow> preserves extra m \<Longrightarrow> preserves both m"
  by (simp add: preserves_def both_def)

lemma wp_open_bringup:
  assumes "axp s = Some a" and "enabled_eps a = 0"
  shows "wp open_bringup (\<lambda>r t. r = Inr () \<longrightarrow> (\<exists>m. mac_valid m \<and> length m = 6 \<and>
           extra t = (Some m, Some (ep_in_mask a OR ep_out_mask a)))) s"
proof -
  have b: "both s = (kept s, Some (mac a), Some 0)"
    using assms by (simp add: both_def extra_def)
  have mac: "wp bringup_mac (\<lambda>r t. kept t = kept s \<and> (r = Inr () \<longrightarrow>
      (\<exists>m. extra t = (Some m, Some 0) \<and> mac_valid m \<and> length m = 6))) u"
    if "both u = (kept s, Some (mac a), Some 0)" for u
    using that wp_conj [OF wp_keep [OF kept_bringup_mac] wp_bringup_mac]
    by (fastforce simp: both_def)
  have en: "wp (enable_endpoint st sel n sz) (\<lambda>r t. kept t = kept s \<and> (r = Inr () \<longrightarrow>
      extra t = (Some m, Some (e OR x)))) u"
    if "kept u = kept s" "extra u = (Some m, Some e)" "map_option sel (axp u) = Some x"
    for u st sel n sz m e x
    using that wp_conj [OF wp_keep [OF kept_enable] wp_enable_endpoint]
    by fastforce
  have fin: "wp (check st (mac_write16 reg v)) (\<lambda>_ t. extra t = extra u) u" for st reg v and u :: "'a drv_scheme"
    by (intro wp_keep preserves extra_prims)
  have tail: "wp (bindE bringup_rxtx (\<lambda>_. bindE (bringup_autoneg w) (\<lambda>_.
       bindE (enable_endpoint st1 ep_in_mask n1 z1) (\<lambda>_.
       bindE (enable_endpoint st2 ep_out_mask n2 z2) (\<lambda>_. check st3 (mac_write16 reg v))))))
     (\<lambda>r t. r = Inr () \<longrightarrow> extra t = (Some m, Some (ep_in_mask a OR ep_out_mask a))) u"
    if "both u = (kept s, Some m, Some 0)" for w st1 n1 z1 st2 n2 z2 st3 reg v m u
    apply (rule wp_bindE_keep [where f = both, OF _ that], (intro preserves_both kept_prims extra_prims)[1], simp)
    apply (rule wp_bindE_keep [where f = both], (intro preserves_both preserves)[1], assumption, simp)
    apply (rule wp_bindE_I [OF en [where e = 0 and x = "ep_in_mask a" and m = m]])
        apply (auto simp: both_def kept_masks assms)
    apply (rule wp_bindE_I [OF en [where e = "ep_in_mask a" and x = "ep_out_mask a" and m = m]])
        apply (auto simp: both_def kept_masks assms intro!: wp_mono [OF fin])
    done
  show ?thesis
    unfolding open_bringup_def
    apply (rule wp_bind_keep [where f = both, OF _ b])
     apply (intro preserves_both kept_prims extra_prims)
    apply (rule wp_bindE_keep [where f = both], (intro preserves_both kept_prims extra_prims)[1], assumption, simp)
    apply (rule wp_bindE_I [OF mac], assumption)
    by (auto simp: both_def intro!: wp_mono [OF tail])
qed

text \<open>Closing: the device object is freed, the client closed and the interface released
  exactly once, whatever the register write does.\<close>

lemma wp_close:
  assumes "axp s = Some a" and "tally s = (o1, c1, a1, r1)"
  shows "wp ax88179_close (\<lambda>_ t. axp t = None \<and> \<not> g_open t \<and> drv.more t = drv.more s \<and>
           tally t = (o1, Suc c1, a1, Suc r1)) s"
proof -
  have fr: "wp (mac_write16 AX_RX_CTL 0) (\<lambda>_ t. ctl_frame t = ctl_frame s) s"
    by (intro wp_keep preserves)
  show ?thesis
    unfolding ax88179_close_def
    using assms fr
    apply (simp add: wp)
    apply (erule wp_mono)
    apply (auto simp: wp ctl_frame_def rest_def tally_def)
    done
qed

section \<open>Opening: every path\<close>

text \<open>The single instance is open exactly when its object exists.\<close>

definition drv_inv :: "'z drv_scheme \<Rightarrow> bool" where
  "drv_inv s \<longleftrightarrow> (g_open s \<longleftrightarrow> axp s \<noteq> None)"

text \<open>How far each failure of \<open>ax88179_open\<close> got, as the numbers of client opens, client
  closes, interface acquisitions and releases it added.\<close>

fun fail_tally :: "open_error \<Rightarrow> nat \<times> nat \<times> nat \<times> nat" where
  "fail_tally AlreadyOpen = (0, 0, 0, 0)"
| "fail_tally OutOfMemory = (0, 0, 0, 0)"
| "fail_tally CannotOpenUhs = (1, 0, 0, 0)"
| "fail_tally NoAdapter = (1, 1, 0, 0)"
| "fail_tally NoBulkPair = (1, 1, 0, 0)"
| "fail_tally InterfaceRefused = (1, 1, 1, 0)"
| "fail_tally (EndpointFail _) = (1, 1, 1, 1)"
| "fail_tally (StageFail _) = (1, 1, 1, 1)"

fun tally_add :: "nat \<times> nat \<times> nat \<times> nat \<Rightarrow> nat \<times> nat \<times> nat \<times> nat \<Rightarrow> nat \<times> nat \<times> nat \<times> nat" where
  "tally_add (a, b, c, d) (a', b', c', d') = (a + a', b + b', c + c', d + d')"

definition opened_ok :: "ax88179 \<Rightarrow> bool" where
  "opened_ok a \<longleftrightarrow> mac_valid (mac a) \<and> length (mac a) = 6 \<and> eps_ok a \<and> ep_in a \<noteq> 0 \<and> ep_out a \<noteq> 0 \<and>
     tx_maxpacket a \<noteq> 0 \<and> enabled_eps a = (ep_in_mask a OR ep_out_mask a) \<and> medium a = 0 \<and>
     rx_frames a = 0 \<and> \<not> rx_async_started a"

definition bring_errors :: "open_error \<Rightarrow> bool" where
  "bring_errors e \<longleftrightarrow> (\<exists>st. e = StageFail st \<or> e = EndpointFail st)"

lemma errors_checks [errors]:
  "errors bring_errors (check st m)" "errors bring_errors (checkR st m')"
  "errors bring_errors (require st b)" "errors bring_errors (liftE n)"
  "errors bring_errors (enable_endpoint st sel k z)"
  unfolding check_def checkR_def require_def liftE_def enable_endpoint_def case_prod_beta
  by (intro errors; auto simp: bring_errors_def split: if_splits)+

lemma errors_bringup: "errors bring_errors open_bringup"
  unfolding open_bringup_def bringup_phy_reset_def bringup_mac_def bringup_rxtx_def
    bringup_autoneg_def Let_def
  by (intro errors) auto

lemma kept_parts:
  assumes "kept t = kept s" and "axp s = Some a"
  shows "\<exists>b. axp t = Some b \<and> cfg b = cfg a" and "g_open t = g_open s" and "tally t = tally s"
    and "drv.more t = drv.more s"
  using assms by (auto simp: kept_def)

text \<open>The tail of \<open>ax88179_open\<close>, from the acquired interface on.\<close>

lemma wp_open_tail:
  assumes a: "axp s = Some a" "quiet a" "eps_ok a" "ep_in a \<noteq> 0" "ep_out a \<noteq> 0" "tx_maxpacket a \<noteq> 0"
    and g: "g_open s" and t0: "tally s = (o1, c1, a1, r1)"
  shows "wp (do { b \<leftarrow> open_bringup;
                  case b of Inr _ \<Rightarrow> return (Inr ()) | Inl e \<Rightarrow> do { ax88179_close; return (Inl e) } })
     (\<lambda>r t. drv.more t = drv.more s \<and> (case r of
        Inr _ \<Rightarrow> (\<exists>b. axp t = Some b \<and> opened_ok b) \<and> g_open t \<and> tally t = (o1, c1, a1, r1)
      | Inl e \<Rightarrow> axp t = None \<and> \<not> g_open t \<and> bring_errors e \<and> tally t = (o1, Suc c1, a1, Suc r1))) s"
proof -
  obtain r t where run: "run_state open_bringup s = (r, t)"
    by (cases "run_state open_bringup s")
  have k: "kept t = kept s"
    using preserves_run [OF kept_bringup, of s] run by simp
  then obtain b where b: "axp t = Some b" "cfg b = cfg a"
    using kept_parts(1) a(1) by blast
  note kp = kept_parts [OF k a(1)]
  show ?thesis
  proof (cases r)
    case (Inl e)
    then have "bring_errors e"
      using errors_bringup run unfolding errors_def by (metis fst_conv)
    moreover have "wp ax88179_close (\<lambda>_ u. axp u = None \<and> \<not> g_open u \<and> drv.more u = drv.more t \<and>
        tally u = (o1, Suc c1, a1, Suc r1)) t"
      by (rule wp_close [OF b(1)]) (simp add: kp t0)
    ultimately show ?thesis
      using run Inl kp by (simp add: wp) (simp add: wp_run_state case_prod_beta)
  next
    case (Inr x)
    have "wp open_bringup (\<lambda>r t. r = Inr () \<longrightarrow> (\<exists>m. mac_valid m \<and> length m = 6 \<and>
           extra t = (Some m, Some (ep_in_mask a OR ep_out_mask a)))) s"
      using a by (intro wp_open_bringup) (auto simp: quiet_def)
    then have "mac_valid (mac b) \<and> length (mac b) = 6 \<and> enabled_eps b = (ep_in_mask a OR ep_out_mask a)"
      using run Inr b by (auto simp: wp_run_state extra_def)
    then have "opened_ok b"
      using a cfg_sel [OF b(2)] by (auto simp: opened_ok_def eps_ok_def quiet_def)
    then show ?thesis
      using run Inr b kp g t0 by (simp add: wp) (simp add: wp_run_state)
  qed
qed

definition open_post :: "'z drv_scheme \<Rightarrow> open_error + unit \<Rightarrow> 'z drv_scheme \<Rightarrow> bool" where
  "open_post s r t \<longleftrightarrow> drv_inv t \<and> drv.more t = drv.more s \<and> (case r of
     Inr _ \<Rightarrow> (\<exists>a. axp t = Some a \<and> opened_ok a) \<and> tally t = tally_add (tally s) (1, 0, 1, 0)
   | Inl e \<Rightarrow> (e = AlreadyOpen \<longleftrightarrow> g_open s) \<and> (e \<noteq> AlreadyOpen \<longrightarrow> axp t = None) \<and>
       tally t = tally_add (tally s) (fail_tally e))"

lemma rest_parts:
  "rest t = rest s \<Longrightarrow> g_open t = g_open s \<and> tally t = tally s \<and> drv.more t = drv.more s"
  by (simp add: rest_def)

lemma tally_simps [simp]:
  "tally (s\<lparr>axp := x\<rparr>) = tally s" "tally (s\<lparr>g_open := o'\<rparr>) = tally s"
  "tally (s\<lparr>trace := trace s @ cs\<rparr>) = tally_add (tally s)
     (length (filter ((=) (Uhs UhsClientOpen)) cs), length (filter ((=) (Uhs UhsClientClose)) cs),
      length (filter is_acquire cs), length (filter is_release cs))"
  "tally (s\<lparr>axp := x, trace := trace s @ cs\<rparr>) = tally (s\<lparr>trace := trace s @ cs\<rparr>)"
  by (simp_all add: tally_def) (simp add: calls_def)

lemma bring_errors_post:
  "bring_errors e \<Longrightarrow> fail_tally e = (1, 1, 1, 1) \<and> e \<noteq> AlreadyOpen"
  by (auto simp: bring_errors_def)

lemma wp_open_found:
  assumes "axp s = Some a" "quiet a" "tx_maxpacket a = 0" "\<not> g_open s" "tally s = (o1, c1, a1, r1)"
  shows "wp (open_interface p)
   (\<lambda>r t. drv_inv t \<and> drv.more t = drv.more s \<and> (case r of
     Inr _ \<Rightarrow> (\<exists>a. axp t = Some a \<and> opened_ok a) \<and> tally t = (o1, c1, Suc a1, r1)
   | Inl e \<Rightarrow> e \<noteq> AlreadyOpen \<and> axp t = None \<and>
       tally_add (1, 0, 0, 0) (tally t) = tally_add (o1, c1, a1, r1) (fail_tally e))) s"
  (is "wp _ ?post s")
unfolding open_interface_def
proof (rule wp_bind_I [OF wp_find_endpoints [OF assms(1-3)]], elim exE conjE)
  fix e t b
  assume t: "axp t = Some b" "quiet b" "eps_ok b" "rest t = rest s"
    and found: "e = 0 \<longrightarrow> ep_in b \<noteq> 0 \<and> ep_out b \<noteq> 0 \<and> tx_maxpacket b \<noteq> 0"
  note t' = rest_parts [OF t(4)]
  define u where "u = t\<lparr>trace := trace t @ [Uhs (UhsAcquireInterface (if_handle b))], g_open := True\<rparr>"
  have u: "axp u = Some b" "g_open u" "tally u = (o1, c1, Suc a1, r1)" "drv.more u = drv.more s"
    using t t' assms(5) by (simp_all add: u_def)
  show "wp (if e \<noteq> 0 then client_close_fail NoBulkPair else do {
     h \<leftarrow> get_ax if_handle;
     k \<leftarrow> ext (Uhs (UhsAcquireInterface h));
     if r_ret k < 0 then client_close_fail InterfaceRefused else do {
     modify (\<lambda>s. s\<lparr>g_open := True\<rparr>);
     b \<leftarrow> open_bringup;
     case b of Inr _ \<Rightarrow> return (Inr ())
     | Inl e \<Rightarrow> do { ax88179_close; return (Inl e) } }}) ?post t"
  proof (cases "e = 0")
    case False
    then show ?thesis
      using t t' assms by (simp add: wp client_close_fail_def free_ax_def drv_inv_def)
  next
    case True
    then have tail: "wp (do { b \<leftarrow> open_bringup;
        case b of Inr _ \<Rightarrow> return (Inr ()) | Inl e \<Rightarrow> do { ax88179_close; return (Inl e) } }) ?post u"
      using found t u(4)
      by (intro wp_mono [OF wp_open_tail [OF u(1) t(2,3) _ _ _ u(2,3)]])
         (auto simp: drv_inv_def dest: bring_errors_post split: sum.splits)
    show ?thesis
      using True tail t t' assms
      by (simp add: wp client_close_fail_def free_ax_def drv_inv_def u_def)
  qed
qed

lemma tally_add_cancel:
  "tally_add (1, 0, 0, 0) x = tally_add (Suc a, b, c, d) y \<Longrightarrow> x = tally_add (a, b, c, d) y"
  by (cases x; cases y) simp

lemma wp_open:
  assumes inv: "drv_inv s"
  shows "wp ax88179_open (open_post s) s"
proof -
  obtain o1 c1 a1 r1 where ta: "tally s = (o1, c1, a1, r1)"
    by (cases "tally s") auto
  have quiet0: "quiet (ax_zero\<lparr>if_handle := h\<rparr>)" "tx_maxpacket (ax_zero\<lparr>if_handle := h\<rparr>) = 0" for h
    by (simp_all add: quiet_def ax_zero_def)
  have found: "wp (open_interface p) (open_post s) u"
    if "u = s\<lparr>trace := trace s @ [Os Os_calloc, Uhs UhsClientOpen,
          Uhs (UhsQueryInterfaces ASIX_VID AX88179_PID MAX_IFACES)],
          axp := Some (ax_zero\<lparr>if_handle := h\<rparr>)\<rparr>" "\<not> g_open s" for u p h
    using that ta
    by (intro wp_mono [OF wp_open_found [OF _ quiet0, of _ h "Suc o1" c1 a1 r1]])
       (auto simp: open_post_def dest!: tally_add_cancel [unfolded One_nat_def] split: sum.splits)
  show ?thesis
    unfolding ax88179_open_def
    using inv ta
    by (auto simp: wp open_post_def drv_inv_def client_close_fail_def free_ax_def found)
qed

section \<open>Link state\<close>

text \<open>The value last written to the adapter's medium register, read off the call history.\<close>

fun medium_value :: "call \<Rightarrow> u16 option" where
  "medium_value (Uhs (UhsSubmitControlRequest h buf cmd ty val idx sz tmo)) =
     (if cmd = AX_ACCESS_MAC \<and> ty = REQ_OUT \<and> val = AX_MEDIUM_STATUS_MODE
      then Some (ucast (buf ! 0) OR push_bit 8 (ucast (buf ! 1))) else None)"
| "medium_value _ = None"

definition last_medium :: "call list \<Rightarrow> u16" where
  "last_medium cs = fold (\<lambda>c m. case medium_value c of None \<Rightarrow> m | Some v \<Rightarrow> v) cs 0"

lemma last_medium_snoc [simp]:
  "last_medium (cs @ [c]) = (case medium_value c of None \<Rightarrow> last_medium cs | Some v \<Rightarrow> v)"
  by (simp add: last_medium_def split: option.split)

text \<open>The driver's idea of the medium, and the register's.\<close>

definition shadow where
  "shadow s = (map_option medium (axp s), last_medium (trace s))"

definition med_sync :: "'z drv_scheme \<Rightarrow> bool" where
  "med_sync s \<longleftrightarrow> map_option medium (axp s) = Some (last_medium (trace s))"

lemma shadow_control:
  assumes "rd \<or> cmd \<noteq> AX_ACCESS_MAC \<or> val \<noteq> AX_MEDIUM_STATUS_MODE"
  shows "preserves shadow (control rd cmd val idx sz data)"
  using assms
  by (intro preservesI) (auto simp: control_def wp shadow_def option.map_comp comp_def)

lemma shadow_sleep [preserves]: "preserves shadow (sleep_ms n)"
  by (rule preservesI) (simp add: sleep_ms_def wp shadow_def)

lemma shadow_read [preserves]:
  "preserves shadow (reg_read cmd reg sz out)" "preserves shadow (ax88179_read_phy reg v)"
  unfolding reg_read_def ax88179_read_phy_def by (intro preserves shadow_control; simp)+

lemma shadow_write:
  "reg \<noteq> AX_MEDIUM_STATUS_MODE \<Longrightarrow> preserves shadow (mac_write16 reg v)"
  "reg \<noteq> AX_MEDIUM_STATUS_MODE \<Longrightarrow> preserves shadow (reg_write cmd reg sz bs)"
  unfolding mac_write16_def reg_write_def by (intro preserves shadow_control; simp)+

lemma shadow_fifo [preserves]: "preserves shadow (wait_fifo k)"
  by (induction k) (auto intro!: preserves shadow_control)

lemma split16: "ucast (ucast ((v :: u16) AND 0xFF) :: u8) OR push_bit 8 (ucast (ucast (drop_bit 8 v) :: u8)) = v"
proof -
  have m: "v AND 0xFF = take_bit 8 v"
    by (simp add: take_bit_eq_mask mask_eq_exp_minus_1)
  show ?thesis
    unfolding m by (rule bit_word_eqI) (auto simp: bit_simps not_less)
qed

lemma wp_write_medium:
  assumes "axp s = Some a"
  shows "wp (mac_write16 AX_MEDIUM_STATUS_MODE v)
           (\<lambda>r t. shadow t = (Some (medium a), v)) s"
  using assms split16 [of v]
  by (auto simp: mac_write16_def reg_write_def control_def wp shadow_def memcpy_at_def)

lemma shadow_med:
  "shadow t = (Some m, m) \<longleftrightarrow> med_sync t \<and> map_option medium (axp t) = Some m"
  by (auto simp: shadow_def med_sync_def)

lemma wp_reconfigure:
  assumes "axp s = Some a"
  shows "wp (link_reconfigure status)
    (\<lambda>ok t. ok \<longrightarrow> shadow t = (Some (link_medium status), link_medium status)) s"
proof -
  let ?m = "medium a"
  have s0: "map_option medium (axp s) = Some ?m" using assms by simp
  have w: "wp (mac_write16 AX_MEDIUM_STATUS_MODE v) (\<lambda>r t. shadow t = (Some ?m, v)) u"
    if "map_option medium (axp u) = Some ?m" for u v
    using that wp_write_medium by force
  have sh: "fst (shadow u) = map_option medium (axp u)" for u :: "'a drv_scheme"
    by (simp add: shadow_def)
  show ?thesis
    unfolding link_reconfigure_def case_prod_beta
    apply (rule wp_bind_keep [where f = shadow, OF _ refl], (intro preserves)[1])
    apply (simp add: wp_if wp_return, intro impI)
    apply (rule wp_bind_I [OF w], simp add: sh [symmetric], simp add: shadow_def s0)
    apply (simp add: wp_if wp_return, intro impI)
    apply (rule wp_bind_keep [where f = shadow], (intro shadow_write)[1], simp, assumption)
    apply (simp add: wp_if wp_return, intro impI)
    apply (rule wp_bind_keep [where f = shadow], (intro shadow_write)[1], simp, assumption)
    apply (simp add: wp_if wp_return, intro impI)
    apply (rule wp_bind_keep [where f = shadow], (intro shadow_write)[1], simp, assumption)
    apply (simp add: wp_if wp_return, intro impI)
    apply (rule wp_bind_keep [where f = shadow], (intro preserves)[1], assumption)
    apply (simp add: wp_if wp_return, intro impI)
    apply (rule wp_bind_I [OF w], simp add: shadow_def)
    apply (auto simp: wp shadow_def)
    done
qed

lemma link_medium_nonzero: "link_medium status \<noteq> 0"
  by (simp add: link_medium_def Let_def)

text \<open>A link poll that does not fail leaves the register as the driver believes, and reports
  a link exactly when a medium is set.\<close>

lemma wp_link:
  assumes "med_sync s"
  shows "wp ax88179_link (\<lambda>(r, speed) t. r \<in> {-1, 0, 1} \<and> (r \<noteq> -1 \<longrightarrow> med_sync t \<and>
           (r = 1 \<longleftrightarrow> map_option medium (axp t) \<noteq> Some 0) \<and> (r = 1 \<longleftrightarrow> speed \<in> {10, 100, 1000}))) s"
  (is "wp _ ?Q s")
proof -
  obtain a where a: "axp s = Some a" "medium a = last_medium (trace s)"
    using assms by (auto simp: med_sync_def)
  have alive: "\<exists>b. axp u = Some b \<and> medium b = medium a \<and> last_medium (trace u) = medium a"
    if "shadow u = shadow s" for u
    using that a by (auto simp: shadow_def)
  have down: "wp (do { w \<leftarrow> (if medium a \<noteq> 0 then mac_write16 AX_MEDIUM_STATUS_MODE 0 else return 0);
      if w \<noteq> 0 then return (- 1, 0)
      else do { upd_ax (\<lambda>a. a\<lparr>medium := 0, rx_frames := 0\<rparr>); return (0, 0) } }) ?Q u"
    if u: "shadow u = shadow s" for u
  proof -
    obtain b where b: "axp u = Some b" "medium b = medium a" "last_medium (trace u) = medium a"
      using alive [OF u] by blast
    show ?thesis
      using wp_write_medium [OF b(1), of 0] b
      by (auto simp: wp med_sync_def shadow_def elim!: wp_mono)
  qed
  have up: "wp (do { ok \<leftarrow> link_reconfigure status;
      return (if ok then (1, link_speed status) else (- 1, 0)) }) ?Q u"
    if u: "shadow u = shadow s" for u status
  proof -
    obtain b where b: "axp u = Some b" using alive [OF u] by blast
    show ?thesis
      using wp_reconfigure [OF b, of status] link_medium_nonzero [of status]
      by (auto simp: wp shadow_med link_speed_def elim!: wp_mono split: if_splits)
  qed
  have tail: "wp (link_apply bmsr status) ?Q u"
    if u: "shadow u = shadow s" for u bmsr status
  proof -
    define v where "v = u\<lparr>debug_last_link := (if link_up_bits bmsr status then 1 else 0)\<rparr>"
    have v: "shadow v = shadow s" using u by (simp add: v_def shadow_def)
    obtain b where b: "axp v = Some b" "medium b = medium a" "last_medium (trace v) = medium a"
      using alive [OF v] by blast
    have "med_sync v" using b by (simp add: med_sync_def)
    then show ?thesis
      using down [OF v] up [OF v, of status] b link_medium_nonzero [of status]
      by (simp add: link_apply_def wp_bind [of "modify _"] wp_bind [of "get_ax _"] wp_modify wp_get_ax wp_if wp_return
          v_def [symmetric] link_speed_def)
  qed
  show ?thesis
    unfolding ax88179_link_def case_prod_beta
    using a(1)
    apply (simp add: wp_bind [of "gets _"] wp_gets)
    apply (rule wp_bind_keep [where f = shadow, OF _ refl], (intro preserves)[1])
    apply (simp add: wp_if wp_return, intro impI)
    apply (rule wp_bind_keep [where f = shadow], (intro preserves)[1], assumption)
    apply (simp add: wp_if wp_return, intro impI)
    apply (rule wp_bind_keep [where f = shadow], (intro preserves)[1], assumption)
    using tail [unfolded case_prod_beta]
    apply (simp add: wp_if wp_return)
    done
qed

section \<open>A concrete adapter\<close>

text \<open>An environment in which the adapter answers, used to show that hypotheses can hold:
  bulk endpoints 2 (IN) and 3 (OUT, 512 bytes), a 1000 Mb/s full-duplex link.\<close>

definition demo_profile :: uhs_profile where
  "demo_profile = \<lparr>p_if_handle = 7,
     in_endpoints = \<lparr>bLength = 7, bEndpointAddress = 0x82, bmAttributes = 2, wMaxPacketSize = 512\<rparr> # replicate 15 ep0,
     out_endpoints = \<lparr>bLength = 7, bEndpointAddress = 3, bmAttributes = 2, wMaxPacketSize = 0x0002\<rparr> # replicate 15 ep0\<rparr>"

fun demo_reg :: "u8 \<Rightarrow> u16 \<Rightarrow> u16 \<Rightarrow> bytes" where
  "demo_reg cmd val idx =
     (if cmd = AX_ACCESS_PHY then
        (if idx = 0 then [0x40, 0x11] else if idx = 1 then [0x2d, 0x79] else [0x00, 0xac])
      else if cmd = AX_ACCESS_MAC \<and> val = AX_CLK_SELECT then [3]
      else if cmd = AX_ACCESS_MAC \<and> val = AX_NODE_ID then [0x00, 0x0e, 0xc6, 1, 2, 3]
      else if cmd = AX_ACCESS_MAC \<and> val = AX_PHYSICAL_LINK_STATUS then [4]
      else [0, 0, 0, 0])"

fun demo_env :: "call list \<Rightarrow> call \<Rightarrow> resp" where
  "demo_env h (Uhs (UhsSubmitControlRequest f buf cmd ty val idx sz tmo)) =
     resp0\<lparr>r_ret := uint sz, r_data := (if ty = REQ_IN then demo_reg cmd val idx else [])\<rparr>"
| "demo_env h (Uhs (UhsQueryInterfaces v p n)) = resp0\<lparr>r_ret := 1, r_profile := demo_profile\<rparr>"
| "demo_env h (Uhs (UhsSubmitBulkRequest f ep dir buf tmo)) = resp0\<lparr>r_ret := int (length buf)\<rparr>"
| "demo_env h (Os Os_calloc) = resp0\<lparr>r_ret := 1\<rparr>"
| "demo_env h c = resp0"

text \<open>The same adapter with the query answer and the stage \<open>n\<close>-th call made to fail.\<close>

definition fail_at :: "nat \<Rightarrow> call list \<Rightarrow> call \<Rightarrow> resp" where
  "fail_at n h c = (if length h = n then resp0\<lparr>r_ret := - 1\<rparr> else demo_env h c)"

definition slot0 :: AxRxAsyncSlot where
  "slot0 = \<lparr>sl_state = AX_RX_SLOT_IDLE, sl_ret = 0, sl_actual = 0, sl_ptr = None\<rparr>"

definition drv_init :: "(call list \<Rightarrow> call \<Rightarrow> resp) \<Rightarrow> drv" where
  "drv_init e = \<lparr>env = e, trace = [], axp = None, g_open = False, phy_init_generation = 0,
     debug_last_link = - 1, g_rx = [], g_rx_async = [[], [], []], g_rx_slots = replicate 3 slot0, g_tx = []\<rparr>"

definition drv_linked :: "u16 \<Rightarrow> (call list \<Rightarrow> call \<Rightarrow> resp) \<Rightarrow> drv" where
  "drv_linked m e = (drv_init e)\<lparr>axp := Some (ax_zero\<lparr>medium := m\<rparr>), g_open := True\<rparr>"

lemma scan_idle [simp]:
  "bLength e = 0 \<Longrightarrow> bLength f = 0 \<Longrightarrow> scan_endpoints (replicate n (e, f)) a = a"
  by (induction n) (simp_all add: scan_in_def scan_out_def)

lemmas run_wait_fifo [runs] = wait_fifo.simps(2) [of "pred_numeral k" for k, THEN run_cong,
  folded numeral_eq_Suc]

lemmas demo = resp0_def demo_profile_def ax_zero_def ep0_def scan_in_def scan_out_def legal_mps_def
  swap16_def memcpy_at_def bitm_def mac_valid_def link_up_bits_def link_medium_def link_queue_def
  link_speed_def le32_def

section \<open>Properties\<close>

text \<open>C2. A failed open leaves nothing behind: the device object is freed, the instance flag
  is clear, and the USB client and interface acquired on the way have been given back exactly
  once each, however far the open got.\<close>

theorem open_failure_releases:
  assumes "drv_inv s" and "run_state ax88179_open s = (Inl e, t)" and "e \<noteq> AlreadyOpen"
  shows "axp t = None \<and> \<not> g_open t \<and> tally t = tally_add (tally s) (fail_tally e)"
  using wpD [OF assms(2) wp_open [OF assms(1)]] assms(3)
  by (simp add: open_post_def drv_inv_def)

theorem open_failure_releases_witness:
  "\<exists>t. run_state ax88179_open (drv_init (fail_at 9)) = (Inl (StageFail ''clock readback''), t) \<and>
     axp t = None \<and> \<not> g_open t \<and> tally t = (1, 1, 1, 1)"
proof -
  have i: "drv_inv (drv_init (fail_at 9))" by (simp add: drv_inv_def drv_init_def)
  have "fst (run_state ax88179_open (drv_init (fail_at 9))) = Inl (StageFail ''clock readback'')"
    by (simp add: runs drv_init_def drv_linked_def fail_at_def demo)
  then obtain t where t: "run_state ax88179_open (drv_init (fail_at 9)) = (Inl (StageFail ''clock readback''), t)"
    by (metis prod.collapse)
  have "tally (drv_init (fail_at 9)) = (0, 0, 0, 0)"
    by (simp add: tally_def calls_def drv_init_def)
  with open_failure_releases [OF i t] t show ?thesis by simp
qed

text \<open>C3. A device that opens is configured completely: a valid unicast MAC address, a bulk
  endpoint pair whose masks are the ones enabled, a legal bulk packet size, no medium and an
  empty receive aggregate; one client and one interface are held.\<close>

theorem open_success_configured:
  assumes "drv_inv s" and "run_state ax88179_open s = (Inr u, t)"
  shows "drv_inv t \<and> (\<exists>a. axp t = Some a \<and> opened_ok a) \<and>
    tally t = tally_add (tally s) (1, 0, 1, 0)"
  using wpD [OF assms(2) wp_open [OF assms(1)]] by (simp add: open_post_def)

theorem open_success_configured_witness:
  "\<exists>t a. run_state ax88179_open (drv_init demo_env) = (Inr (), t) \<and> axp t = Some a \<and> opened_ok a"
proof -
  have i: "drv_inv (drv_init demo_env)" by (simp add: drv_inv_def drv_init_def)
  have "fst (run_state ax88179_open (drv_init demo_env)) = Inr ()"
    by (simp add: runs drv_init_def drv_linked_def fail_at_def demo)
  then obtain t where t: "run_state ax88179_open (drv_init demo_env) = (Inr (), t)"
    by (metis prod.collapse)
  with open_success_configured [OF i t] show ?thesis by blast
qed



definition flap_env :: "call list \<Rightarrow> call \<Rightarrow> resp" where
  "flap_env h c =
     (if length h = 12 then resp0\<lparr>r_ret := 2, r_data := [0x00, 0x6c]\<rparr>
      else if length h = 18 then resp0\<lparr>r_ret := - 1\<rparr>
      else demo_env h c)"

text \<open>A link poll that fails half-way through a change of speed leaves the driver's
  \<open>medium\<close> at its old value although the register now holds 0. If the next poll sees the old
  speed again, it finds nothing to change and reports the link up at 1000 Mb/s, while the
  adapter's medium register stays 0.\<close>

theorem link_stale_medium:
  "\<exists>s t u :: drv. med_sync s \<and> run_state ax88179_link s = ((- 1, 0), t) \<and>
     run_state ax88179_link t = ((1, 1000), u) \<and>
     map_option medium (axp u) = Some 0x10b \<and> last_medium (trace u) = 0"
proof -
  let ?s = "snd (run_state ax88179_link (drv_linked 0 flap_env))"
  let ?t = "snd (run_state ax88179_link ?s)"
  let ?u = "snd (run_state ax88179_link ?t)"
  have "med_sync ?s"
    by (simp add: runs drv_init_def drv_linked_def flap_env_def demo med_sync_def last_medium_def)
  moreover have "fst (run_state ax88179_link ?s) = (- 1, 0)"
    by (simp add: runs drv_init_def drv_linked_def flap_env_def demo)
  moreover have "fst (run_state ax88179_link ?t) = (1, 1000)"
    by (simp add: runs drv_init_def drv_linked_def flap_env_def demo)
  moreover have "map_option medium (axp ?u) = Some 0x10b" and "last_medium (trace ?u) = 0"
    by (simp_all add: runs drv_init_def drv_linked_def flap_env_def demo last_medium_def)
  ultimately show ?thesis
    by (metis prod.collapse)
qed

end
