(* ===== verification/Driver_Rx.thy ===== *)
theory Driver_Rx
  imports Driver_Control
begin

text \<open>
  The receive path of \<^verbatim>\<open>driver/ax88179.c\<close>: the ring of three asynchronous bulk-IN
  transfers and the parser that unwraps Ethernet frames from a completed aggregate.

  Reads of the snapshot buffer \<open>g_rx\<close> go through \<open>read32\<close> and \<open>read_bytes\<close>, which answer
  \<open>None\<close> outside the buffer; a run that returns \<open>Some\<close> has made no such access. The host
  stack's completion callback runs on another thread: it is the operation
  \<open>ax_rx_async_callback\<close>, and \<open>rx_deliver\<close> is the host stack filling a DMA buffer and then
  calling it, between two operations of the driver or during its wait.
\<close>

section \<open>Buffers\<close>

definition read32 :: "bytes \<Rightarrow> nat \<Rightarrow> u32 option" where
  "read32 buf off = (if off + 4 \<le> length buf then Some (le32 (drop off buf)) else None)"

definition read_bytes :: "bytes \<Rightarrow> nat \<Rightarrow> nat \<Rightarrow> bytes option" where
  "read_bytes buf off n = (if off + n \<le> length buf then Some (slice off n buf) else None)"

section \<open>The ring\<close>

definition rx_slot :: "nat \<Rightarrow> 'z drv_scheme \<Rightarrow> AxRxAsyncSlot" where
  "rx_slot i s = g_rx_slots s ! i"

definition upd_slot :: "nat \<Rightarrow> (AxRxAsyncSlot \<Rightarrow> AxRxAsyncSlot) \<Rightarrow> ('z drv_scheme, unit) state" where
  "upd_slot i f = modify (\<lambda>s. s\<lparr>g_rx_slots := (g_rx_slots s)[i := f (g_rx_slots s ! i)]\<rparr>)"

definition ax_rx_async_callback ::
  "nat option \<Rightarrow> int \<Rightarrow> nat \<Rightarrow> u32 \<Rightarrow> ('z drv_scheme, unit) state" where
  "ax_rx_async_callback user ret buffer actual = (case user of None \<Rightarrow> return () | Some i \<Rightarrow> do {
     sl \<leftarrow> gets (rx_slot i);
     if sl_ptr sl \<noteq> Some buffer then return ()
     else upd_slot i (\<lambda>sl. sl\<lparr>sl_ret := ret, sl_actual := actual, sl_state := AX_RX_SLOT_DONE\<rparr>) })"

text \<open>The host stack writes at most the size the transfer was submitted with.\<close>

definition rx_deliver :: "rx_event \<Rightarrow> ('z drv_scheme, unit) state" where
  "rx_deliver e = do {
     modify (\<lambda>s. s\<lparr>g_rx_async := (g_rx_async s)[ev_buf e :=
       memcpy_at 0 (take RX_BUFFER_SIZE (ev_bytes e)) (g_rx_async s ! ev_buf e)]\<rparr>);
     ax_rx_async_callback (ev_user e) (ev_ret e) (ev_buf e) (ev_actual e) }"

definition ax_rx_submit_slot :: "nat \<Rightarrow> ('z drv_scheme, int) state" where
  "ax_rx_submit_slot index = do {
     upd_slot index (\<lambda>sl. sl\<lparr>sl_ret := 0, sl_actual := 0, sl_state := AX_RX_SLOT_PENDING\<rparr>);
     a \<leftarrow> get_ax id;
     sl \<leftarrow> gets (rx_slot index);
     r \<leftarrow> ext (Uhs (UhsSubmitBulkRequestAsync (if_handle a) (ep_in a) UHS_DIR_IN (sl_ptr sl)
                 RX_BUFFER_SIZE index));
     if r_ret r \<noteq> 0 then do {
       upd_slot index (\<lambda>sl. sl\<lparr>sl_state := AX_RX_SLOT_IDLE\<rparr>);
       upd_ax (\<lambda>a. a\<lparr>last_bulk := r_ret r\<rparr>);
       return (- 1) }
     else return 0 }"

fun submit_all :: "nat list \<Rightarrow> ('z drv_scheme, int) state" where
  "submit_all [] = return 0"
| "submit_all (i # is) = do {
     r \<leftarrow> ax_rx_submit_slot i;
     if r \<noteq> 0 then do {
       upd_ax (\<lambda>a. a\<lparr>rx_async_started := False\<rparr>);
       return (- 1) }
     else submit_all is }"

definition rx_ring_reset :: "('z drv_scheme, unit) state" where
  "rx_ring_reset = do {
     upd_ax (\<lambda>a. a\<lparr>rx_consume := 0\<rparr>);
     upd_ax (\<lambda>a. a\<lparr>rx_async_started := True\<rparr>);
     for_each [0..<RX_ASYNC_SLOTS] (\<lambda>i. upd_slot i (\<lambda>_.
       \<lparr>sl_state = AX_RX_SLOT_IDLE, sl_ret = 0, sl_actual = 0, sl_ptr = Some i\<rparr>)) }"

definition ax_rx_start_async :: "('z drv_scheme, int) state" where
  "ax_rx_start_async = do {
     rx_ring_reset;
     submit_all [0..<RX_ASYNC_SLOTS] }"

text \<open>Both exits of \<open>ax_rx_take_completed\<close> mark the slot idle and submit it again, and go on
  whatever the submission answers.\<close>

definition rx_rearm :: "nat \<Rightarrow> ('z drv_scheme, unit) state" where
  "rx_rearm index = do {
     upd_slot index (\<lambda>sl. sl\<lparr>sl_state := AX_RX_SLOT_IDLE\<rparr>);
     ax_rx_submit_slot index;
     return () }"

text \<open>The aggregate's trailer, from \<open>ax->rx_len = actual\<close> to the end of
  \<open>ax_rx_take_completed\<close>.\<close>

definition rx_header :: "bytes \<Rightarrow> u32 \<Rightarrow> ax88179 \<Rightarrow> (int \<times> ax88179) option" where
  "rx_header g actual a =
     (case read32 g (unat actual - 4) of None \<Rightarrow> None | Some rx_hdr \<Rightarrow>
        let b = a\<lparr>rx_len := uint actual,
                  rx_frames := uint (rx_hdr AND 0xFFFF),
                  rx_hdr_offset := drop_bit 16 rx_hdr AND 0xFFFF,
                  rx_next := 0, rx_pos := 0\<rparr> in
        if rx_frames b = 0 then Some (0, b)
        else if rx_hdr_offset b + 4 * word_of_int (rx_frames b) > word_of_int (rx_len b) - 4
        then Some (- 1, b\<lparr>rx_frames := 0\<rparr>)
        else Some (1, b))"

text \<open>\<open>None\<close> stands for an access outside \<open>g_rx\<close>.\<close>

definition ax_rx_take_completed :: "('z drv_scheme, int option) state" where
  "ax_rx_take_completed = do {
     index \<leftarrow> get_ax rx_consume;
     sl \<leftarrow> gets (rx_slot index);
     if sl_state sl \<noteq> AX_RX_SLOT_DONE then return (Some 0)
     else do {
       let ret = sl_ret sl;
       let actual = sl_actual sl;
       upd_ax (\<lambda>a. a\<lparr>rx_consume := (index + 1) mod RX_ASYNC_SLOTS, last_bulk := ret, last_bulk_us := 0\<rparr>);
       if ret < 0 \<or> actual < 4 \<or> actual > of_nat RX_BUFFER_SIZE then do {
         rx_rearm index;
         return (Some (if ret < 0 \<or> actual \<noteq> 0 then - 1 else 0)) }
       else do {
         modify (\<lambda>s. s\<lparr>g_rx := memcpy_at 0
           (take (unat actual) (g_rx_async s ! the (sl_ptr sl))) (g_rx s)\<rparr>);
         rx_rearm index;
         g \<leftarrow> gets g_rx;
         a \<leftarrow> get_ax id;
         case rx_header g actual a of None \<Rightarrow> return None
         | Some (r, b) \<Rightarrow> do { upd_ax (\<lambda>_. b); return (Some r) } } } }"

section \<open>The parser\<close>

abbreviation (input) "AX_RXHDR_CRC_ERR \<equiv> (0x20000000 :: u32)"
abbreviation (input) "AX_RXHDR_DROP_ERR \<equiv> (0x80000000 :: u32)"

text \<open>One round of the loop of \<open>ax88179_receive_buffered_impl\<close>: \<open>Continue\<close>, or \<open>Return\<close>
  with the return value and the frame (\<open>None\<close> for an access outside \<open>g_rx\<close>), each with the
  parser state after it.\<close>

datatype rx_round = Continue ax88179 | Return "(int \<times> bytes) option" ax88179

definition rx_body :: "bytes \<Rightarrow> int \<Rightarrow> ax88179 \<Rightarrow> rx_round" where
  "rx_body g max_length a =
     (case read32 g (unat (rx_hdr_offset a) + 4 * nat (rx_next a)) of
        None \<Rightarrow> Return None a
      | Some d \<Rightarrow>
          let a1 = a\<lparr>rx_next := rx_next a + 1\<rparr>;
              len = uint (drop_bit 16 d AND 0x1FFF);
              padded = (len + 7) AND NOT 7;
              packet = rx_pos a1 + 2;
              packet_len = len - 2 - 4;
              a2 = a1\<lparr>rx_pos := rx_pos a1 + padded\<rparr> in
          if len = 0 then Continue a1
          else if rx_pos a1 + padded > uint (rx_hdr_offset a1)
          then Return (Some (- 1, [])) (a1\<lparr>rx_frames := 0\<rparr>)
          else if d AND (AX_RXHDR_CRC_ERR OR AX_RXHDR_DROP_ERR) \<noteq> 0 \<or> packet_len < 14
          then Continue a2
          else if packet_len > max_length then Continue a2
          else (case read_bytes g (nat packet) (nat packet_len) of
                  None \<Rightarrow> Return None a2
                | Some bs \<Rightarrow> Return (Some (packet_len, bs)) a2))"

lemma rx_body_next:
  assumes "rx_body g m a = Continue b"
  shows "rx_next b = rx_next a + 1" and "rx_frames b = rx_frames a"
  using assms by (auto simp: rx_body_def Let_def split: option.splits if_splits)

function rx_loop :: "bytes \<Rightarrow> int \<Rightarrow> ax88179 \<Rightarrow> (int \<times> bytes) option \<times> ax88179" where
  "rx_loop g max_length a =
     (if rx_next a < rx_frames a then
        (case rx_body g max_length a of
           Continue b \<Rightarrow> rx_loop g max_length b
         | Return r b \<Rightarrow> (r, b))
      else (Some (0, []), a))"
  by pat_completeness auto
termination
  by (relation "measure (\<lambda>(g, m, a). nat (rx_frames a - rx_next a))") (auto simp: rx_body_next)

declare rx_loop.simps [simp del]

text \<open>\<open>frame\<close> tells whether the destination pointer is non-NULL.\<close>

definition ax88179_receive_buffered_impl ::
  "bool \<Rightarrow> int \<Rightarrow> ('z drv_scheme, (int \<times> bytes) option) state" where
  "ax88179_receive_buffered_impl frame max_length = do {
     p \<leftarrow> gets axp;
     if p = None \<or> \<not> frame \<or> max_length < 14 then return (Some (- 1, []))
     else do {
       g \<leftarrow> gets g_rx;
       a \<leftarrow> get_ax id;
       let (r, b) = rx_loop g max_length a;
       upd_ax (\<lambda>_. b);
       return r } }"

definition ax88179_receive_buffered ::
  "bool \<Rightarrow> int \<Rightarrow> ('z drv_scheme, (int \<times> bytes) option) state" where
  "ax88179_receive_buffered frame max_length = ax88179_receive_buffered_impl frame max_length"

text \<open>The wait for the event; completions the host stack delivers meanwhile come with its
  answer.\<close>

definition rx_wait :: "int \<Rightarrow> ('z drv_scheme, unit) state" where
  "rx_wait timeout_us = do {
     r \<leftarrow> ext (Os (OSWaitEventWithTimeout timeout_us));
     for_each (r_rx r) rx_deliver }"

definition take_or_wait :: "int \<Rightarrow> ('z drv_scheme, int option) state" where
  "take_or_wait timeout_us = do {
     loaded \<leftarrow> ax_rx_take_completed;
     if loaded = Some 0 \<and> timeout_us > 0 then do {
       rx_wait timeout_us;
       ax_rx_take_completed }
     else return loaded }"

text \<open>\<open>ax88179_receive\<close> after its parser has nothing left: the ring is started, an aggregate
  taken, and the parser run on it.\<close>

definition receive_loaded :: "bool \<Rightarrow> int \<Rightarrow> int \<Rightarrow> ('z drv_scheme, (int \<times> bytes) option) state" where
  "receive_loaded frame max_length timeout_us = do {
     loaded \<leftarrow> take_or_wait timeout_us;
     case loaded of None \<Rightarrow> return None
     | Some l \<Rightarrow> if l \<le> 0 then return (Some (l, []))
       else ax88179_receive_buffered_impl frame max_length }"

definition receive_ring :: "bool \<Rightarrow> int \<Rightarrow> int \<Rightarrow> ('z drv_scheme, (int \<times> bytes) option) state" where
  "receive_ring frame max_length timeout_us = do {
     started \<leftarrow> get_ax rx_async_started;
     st \<leftarrow> (if \<not> started then ax_rx_start_async else return 0);
     if st \<noteq> 0 then return (Some (- 1, []))
     else receive_loaded frame max_length timeout_us }"

definition ax88179_receive ::
  "bool \<Rightarrow> int \<Rightarrow> int \<Rightarrow> ('z drv_scheme, (int \<times> bytes) option) state" where
  "ax88179_receive frame max_length timeout_us = do {
     p \<leftarrow> gets axp;
     if p = None \<or> \<not> frame \<or> max_length < 14 then return (Some (- 1, []))
     else do {
     m \<leftarrow> get_ax medium;
     if m = 0 then return (Some (0, []))
     else do {
     n \<leftarrow> ax88179_receive_buffered_impl frame max_length;
     case n of None \<Rightarrow> return None
     | Some (k, bs) \<Rightarrow> if k \<noteq> 0 then return (Some (k, bs))
       else receive_ring frame max_length timeout_us }}}"

lemmas rx_runs [runs] =
  upd_slot_def [THEN run_cong] ax_rx_async_callback_def [THEN run_cong] rx_deliver_def [THEN run_cong]
  ax_rx_submit_slot_def [THEN run_cong] rx_ring_reset_def [THEN run_cong] ax_rx_start_async_def [THEN run_cong]
  rx_rearm_def [THEN run_cong] ax_rx_take_completed_def [THEN run_cong] ax88179_receive_buffered_impl_def [THEN run_cong]
  ax88179_receive_buffered_def [THEN run_cong] rx_wait_def [THEN run_cong]
  take_or_wait_def [THEN run_cong] receive_loaded_def [THEN run_cong] receive_ring_def [THEN run_cong]
  ax88179_receive_def [THEN run_cong]

section \<open>No access outside the buffer\<close>

text \<open>Between calls the descriptors still to be read lie inside the snapshot.\<close>

definition par_ok :: "bytes \<Rightarrow> ax88179 \<Rightarrow> bool" where
  "par_ok g a \<longleftrightarrow> 0 \<le> rx_next a \<and> 0 \<le> rx_pos a \<and>
     (rx_next a < rx_frames a \<longrightarrow> uint (rx_hdr_offset a) + 4 * rx_frames a \<le> int (length g))"

text \<open>What the parser may change.\<close>

definition parsed :: "ax88179 \<Rightarrow> ax88179" where
  "parsed a = a\<lparr>rx_next := 0, rx_pos := 0, rx_frames := 0\<rparr>"

lemma parsed_upd [simp]:
  "parsed (a\<lparr>rx_next := n\<rparr>) = parsed a" "parsed (a\<lparr>rx_pos := p\<rparr>) = parsed a"
  "parsed (a\<lparr>rx_frames := f\<rparr>) = parsed a"
  by (simp_all add: parsed_def)

lemma pad8: "(n + 7) AND NOT 7 = 8 * ((n + 7) div 8)" for n :: int
proof -
  have "(n + 7) AND NOT 7 = (n + 7) AND NOT (mask 3)"
    by (simp add: mask_eq_exp_minus_1)
  also have "\<dots> = push_bit 3 (drop_bit 3 (n + 7))"
    by (rule bit_eqI) (auto simp: bit_simps)
  finally show ?thesis
    by (simp add: push_bit_eq_mult drop_bit_eq_div)
qed

lemma pad8_bounds: "n \<le> (n + 7) AND NOT 7" "(n + 7) AND NOT 7 < n + 8" for n :: int
  unfolding pad8 by presburger+

lemma read32_in: "off + 4 \<le> length g \<Longrightarrow> read32 g off = Some (le32 (drop off g))"
  by (simp add: read32_def)

definition rx_answer_ok :: "int \<Rightarrow> (int \<times> bytes) option \<Rightarrow> bool" where
  "rx_answer_ok max_length r \<longleftrightarrow> (case r of None \<Rightarrow> False
     | Some (n, bs) \<Rightarrow> n = - 1 \<or> n = 0 \<or> (14 \<le> n \<and> n \<le> max_length \<and> int (length bs) = n))"

lemma rx_body_safe:
  assumes ok: "par_ok g a" and more: "rx_next a < rx_frames a"
  shows "case rx_body g m a of
      Continue b \<Rightarrow> par_ok g b \<and> parsed b = parsed a
    | Return r b \<Rightarrow> rx_answer_ok m r \<and> par_ok g b \<and> parsed b = parsed a"
proof -
  let ?off = "unat (rx_hdr_offset a) + 4 * nat (rx_next a)"
  have b: "0 \<le> rx_next a" "0 \<le> rx_pos a" "uint (rx_hdr_offset a) + 4 * rx_frames a \<le> int (length g)"
    using assms by (auto simp: par_ok_def)
  have hdr: "int (unat (rx_hdr_offset a)) = uint (rx_hdr_offset a)"
    by simp
  have "?off + 4 \<le> length g"
    using b more hdr by linarith
  then obtain d where d: "read32 g ?off = Some d"
    by (simp add: read32_def)
  define len where "len = uint (drop_bit 16 d AND 0x1FFF)"
  define padded where "padded = (len + 7) AND NOT 7"
  have pad: "len \<le> padded" "0 \<le> len"
    using pad8_bounds(1) [of len] by (simp_all add: padded_def len_def)
  have read: "read_bytes g (nat (rx_pos a + 2)) (nat (len - 6)) =
      Some (slice (nat (rx_pos a + 2)) (nat (len - 6)) g)"
    if "rx_pos a + padded \<le> uint (rx_hdr_offset a)" "14 \<le> len - 6"
  proof -
    have "rx_pos a + 2 + (len - 6) \<le> int (length g)"
      using that pad b more by linarith
    then have "nat (rx_pos a + 2) + nat (len - 6) \<le> length g"
      using b that by linarith
    then show ?thesis
      by (simp add: read_bytes_def)
  qed
  have bound: "nat (rx_pos a + 2) + nat (len - 6) \<le> length g"
    if "rx_pos a + padded \<le> uint (rx_hdr_offset a)" "14 \<le> len - 6"
    using that pad b more by linarith
  show ?thesis
    using b more pad read bound
    unfolding rx_body_def d option.case Let_def len_def [symmetric] padded_def [symmetric]
    by (auto simp: par_ok_def rx_answer_ok_def)
qed

lemma rx_loop_safe:
  "par_ok g a \<Longrightarrow> rx_answer_ok m (fst (rx_loop g m a)) \<and> par_ok g (snd (rx_loop g m a)) \<and>
     parsed (snd (rx_loop g m a)) = parsed a"
proof (induction g m a rule: rx_loop.induct)
  case (1 g m a)
  show ?case
  proof (cases "rx_next a < rx_frames a")
    case True
    then show ?thesis
      using 1(1) rx_body_safe [OF 1(2) True, of m]
      by (subst (1 2 3) rx_loop.simps) (auto split: rx_round.splits)
  next
    case False
    with 1(2) show ?thesis
      by (simp add: rx_loop.simps rx_answer_ok_def)
  qed
qed

text \<open>The receive side of the driver: the buffers have their size, an open device's parser is
  inside the snapshot, and once the ring has started slot \<open>i\<close> points to buffer \<open>i\<close>.\<close>

definition bufs_ok :: "'z drv_scheme \<Rightarrow> bool" where
  "bufs_ok s \<longleftrightarrow> length (g_rx s) = RX_BUFFER_SIZE \<and> length (g_rx_slots s) = RX_ASYNC_SLOTS \<and>
     map length (g_rx_async s) = replicate RX_ASYNC_SLOTS RX_BUFFER_SIZE"

definition rx_ax_ok :: "'z drv_scheme \<Rightarrow> ax88179 \<Rightarrow> bool" where
  "rx_ax_ok s a \<longleftrightarrow> par_ok (g_rx s) a \<and> rx_consume a < RX_ASYNC_SLOTS \<and>
     (rx_async_started a \<longrightarrow> map sl_ptr (g_rx_slots s) = map Some [0..<RX_ASYNC_SLOTS])"

definition rx_inv :: "'z drv_scheme \<Rightarrow> bool" where
  "rx_inv s \<longleftrightarrow> bufs_ok s \<and> (\<exists>a. axp s = Some a \<and> rx_ax_ok s a)"

lemma list_update_self: "(i < length xs \<Longrightarrow> x = xs ! i) \<Longrightarrow> xs[i := x] = xs"
  by (cases "i < length xs") (simp_all add: not_less list_update_beyond)

lemma map_update_same:
  "(\<And>x. h (f x) = h x) \<Longrightarrow> map h (xs[i := f (xs ! i)]) = map h xs"
  unfolding map_update by (rule list_update_self) simp

lemma rx_inv_upd_slot [keeps]:
  "(\<And>x. sl_ptr (f x) = sl_ptr x) \<Longrightarrow> keeps rx_inv (upd_slot i f)"
  by (auto simp: keeps_def upd_slot_def wp rx_inv_def bufs_ok_def rx_ax_ok_def map_update_same)

lemma rx_inv_upd_ax [keeps]:
  "(\<And>g a. par_ok g a \<and> rx_consume a < 3 \<Longrightarrow> par_ok g (f a) \<and> rx_consume (f a) < 3) \<Longrightarrow>
   (\<And>a. rx_async_started (f a) \<Longrightarrow> rx_async_started a) \<Longrightarrow> keeps rx_inv (upd_ax f)"
  by (auto simp: keeps_def wp rx_inv_def bufs_ok_def rx_ax_ok_def)

lemma rx_inv_ext [keeps]: "keeps rx_inv (ext c)"
  by (simp add: keeps_def wp rx_inv_def bufs_ok_def rx_ax_ok_def)

lemma rx_inv_g_rx:
  assumes "length src \<le> RX_BUFFER_SIZE" and "rx_inv s"
  shows "rx_inv (s\<lparr>g_rx := memcpy_at 0 src (g_rx s)\<rparr>)"
  using assms by (auto simp: rx_inv_def bufs_ok_def rx_ax_ok_def par_ok_def)

lemma rx_inv_callback [keeps]: "keeps rx_inv (ax_rx_async_callback u r b n)"
  unfolding ax_rx_async_callback_def by (intro keeps) simp

lemma map_length_dma:
  assumes "map length xs = replicate n m" and "length src \<le> m"
  shows "map length (xs[i := memcpy_at 0 src (xs ! i)]) = replicate n m"
proof (cases "i < length xs")
  case True
  then have "length (xs ! i) = m"
    using assms(1) by (metis length_map length_replicate nth_map nth_replicate)
  then show ?thesis
    using assms True by (simp add: map_update) (rule list_update_self, simp)
qed (use assms in \<open>simp add: not_less list_update_beyond\<close>)

lemma rx_inv_deliver [keeps]: "keeps rx_inv (rx_deliver e)"
proof -
  have "keeps rx_inv (modify (\<lambda>s. s\<lparr>g_rx_async := (g_rx_async s)[ev_buf e :=
       memcpy_at 0 (take RX_BUFFER_SIZE (ev_bytes e)) (g_rx_async s ! ev_buf e)]\<rparr>))"
    by (rule keeps_modify) (auto simp: rx_inv_def bufs_ok_def rx_ax_ok_def map_length_dma)
  then show ?thesis
    unfolding rx_deliver_def by (intro keeps)
qed

lemma rx_inv_submit [keeps]: "keeps rx_inv (ax_rx_submit_slot i)"
  unfolding ax_rx_submit_slot_def
  by (intro keeps) (auto simp: par_ok_def)

lemma rx_inv_submit_all [keeps]: "keeps rx_inv (submit_all is)"
  by (induction "is") (auto intro!: keeps simp: par_ok_def)

lemma length3: "length xs = 3 \<longleftrightarrow> (\<exists>a b c. xs = [a, b, c])"
  by (auto simp: numeral_3_eq_3 length_Suc_conv)

lemma rx_inv_reset [keeps]: "keeps rx_inv rx_ring_reset"
  by (rule keepsI)
     (auto simp: rx_ring_reset_def wp upd_slot_def upt_rec rx_inv_def bufs_ok_def rx_ax_ok_def par_ok_def length3)

lemma rx_inv_start [keeps]: "keeps rx_inv ax_rx_start_async"
  unfolding ax_rx_start_async_def by (intro keeps)

lemma rx_inv_wait [keeps]: "keeps rx_inv (rx_wait t)"
  unfolding rx_wait_def by (intro keeps)

text \<open>The trailer check covers every descriptor, with no wrap-around in its 32-bit sum.\<close>

lemma trailer_bound:
  fixes w actual :: u32
  assumes "4 \<le> unat actual"
    and "\<not> (drop_bit 16 w AND 0xFFFF) + 4 * word_of_int (uint (w AND 0xFFFF)) > word_of_int (uint actual) - 4"
  shows "uint (drop_bit 16 w AND 0xFFFF) + 4 * uint (w AND 0xFFFF) \<le> uint actual - 4"
proof -
  have m: "unat (v AND 0xFFFF) < 65536" for v :: u32
    by (rule le_less_trans [OF word_and_le1 [THEN word_le_nat_alt [THEN iffD1]]]) simp
  have "unat (4 * (w AND 0xFFFF)) = 4 * unat (w AND 0xFFFF)"
    using m [of w] by (simp add: unat_word_ariths)
  moreover have "unat ((drop_bit 16 w AND 0xFFFF) + 4 * (w AND 0xFFFF)) =
      unat (drop_bit 16 w AND 0xFFFF) + 4 * unat (w AND 0xFFFF)"
    using m [of w] m [of "drop_bit 16 w"] by (simp add: unat_word_ariths)
  moreover have "unat (actual - 4) = unat actual - 4"
    using assms(1) by (subst unat_sub) (simp_all add: word_le_nat_alt)
  ultimately have "unat (drop_bit 16 w AND 0xFFFF) + 4 * unat (w AND 0xFFFF) + 4 \<le> unat actual"
    using assms by (simp add: not_less word_le_nat_alt)
  then have "int (unat (drop_bit 16 w AND 0xFFFF)) + 4 * int (unat (w AND 0xFFFF)) \<le> int (unat actual) - 4"
    by linarith
  then show ?thesis
    by simp
qed

lemma rx_header_ok:
  assumes "4 \<le> actual" "actual \<le> 26624" "length g = RX_BUFFER_SIZE"
  shows "\<exists>r b. rx_header g actual a = Some (r, b) \<and> par_ok g b \<and> r \<in> {- 1, 0, 1} \<and>
    rx_consume b = rx_consume a \<and> rx_async_started b = rx_async_started a"
proof -
  have n: "4 \<le> unat actual" "unat actual \<le> 26624"
    using assms by (simp_all add: word_le_nat_alt)
  then obtain w where w: "read32 g (unat actual - 4) = Some w"
    using assms(3) by (simp add: read32_def)
  have "uint actual \<le> int (length g)"
    unfolding uint_nat assms(3) of_nat_le_iff by (rule n(2))
  then show ?thesis
    using trailer_bound [OF n(1), of w]
    by (auto simp: rx_header_def w Let_def par_ok_def)
qed

lemma rx_inv_parser:
  assumes "rx_inv s" and "axp s = Some a" and "par_ok (g_rx s) b"
    and "rx_consume b = rx_consume a" and "rx_async_started b = rx_async_started a"
  shows "rx_inv (s\<lparr>axp := Some b\<rparr>)"
  using assms by (auto simp: rx_inv_def bufs_ok_def rx_ax_ok_def)

lemma rx_inv_rearm [keeps]: "keeps rx_inv (rx_rearm i)"
  unfolding rx_rearm_def by (intro keeps) simp

lemma rx_inv_consume:
  assumes "rx_inv s" and "axp s = Some a"
  shows "rx_inv (s\<lparr>axp := Some (a\<lparr>rx_consume := Suc i mod 3, last_bulk := l, last_bulk_us := u\<rparr>)\<rparr>)"
  using assms by (auto simp: rx_inv_def bufs_ok_def rx_ax_ok_def par_ok_def)

lemma rx_inv_copy:
  assumes "rx_inv s" and "axp s = Some a" and "n \<le> 26624"
  shows "rx_inv (s\<lparr>axp := Some (a\<lparr>rx_consume := Suc i mod 3, last_bulk := l, last_bulk_us := u\<rparr>),
      g_rx := memcpy_at 0 (take (unat (n :: u32)) src) (g_rx s)\<rparr>)"
proof -
  have "min (length src) (unat n) \<le> 26624"
    using assms(3) by (simp add: word_le_nat_alt min_def)
  then show ?thesis
    using assms by (auto simp: rx_inv_def bufs_ok_def rx_ax_ok_def par_ok_def)
qed

lemma wp_rx_header:
  assumes "rx_inv t" and "4 \<le> actual" "actual \<le> 26624"
  shows "case rx_header (g_rx t) actual (the (axp t)) of None \<Rightarrow> False
    | Some (r, b) \<Rightarrow> rx_inv (t\<lparr>axp := map_option (\<lambda>_. b) (axp t)\<rparr>) \<and> (r = - 1 \<or> r = 0 \<or> r = 1)"
proof -
  obtain a where a: "axp t = Some a" "length (g_rx t) = RX_BUFFER_SIZE"
    using assms(1) by (auto simp: rx_inv_def bufs_ok_def)
  show ?thesis
    using rx_header_ok [OF assms(2,3) a(2), of a] rx_inv_parser [OF assms(1) a(1)] a by auto
qed

lemma wp_take:
  assumes "rx_inv s"
  shows "wp ax_rx_take_completed (\<lambda>r t. rx_inv t \<and> r \<in> {Some (- 1), Some 0, Some 1}) s"
proof -
  obtain a where a: "axp s = Some a"
    using assms by (auto simp: rx_inv_def)
  have re: "wp (rx_rearm i) (\<lambda>_. rx_inv) u" if "rx_inv u" for i u
    by (rule keepsD [OF rx_inv_rearm that])
  show ?thesis
    unfolding ax_rx_take_completed_def Let_def
    using assms a
    by (auto simp: wp not_less intro!: wp_mono [OF re] rx_inv_consume rx_inv_copy
        dest: wp_rx_header split: option.splits)
qed

lemma parsed_parts:
  "parsed b = parsed a \<Longrightarrow> rx_consume b = rx_consume a \<and> rx_async_started b = rx_async_started a"
  by (cases a; cases b) (simp add: parsed_def)

lemma wp_impl:
  assumes "rx_inv s"
  shows "wp (ax88179_receive_buffered_impl f m) (\<lambda>r t. rx_inv t \<and> rx_answer_ok m r) s"
proof -
  obtain a where a: "axp s = Some a" "par_ok (g_rx s) a"
    using assms by (auto simp: rx_inv_def rx_ax_ok_def)
  obtain r b where l: "rx_loop (g_rx s) m a = (r, b)"
    by fastforce
  note safe = rx_loop_safe [OF a(2), of m, unfolded l fst_conv snd_conv]
  have "rx_inv (s\<lparr>axp := Some b\<rparr>)"
    using safe parsed_parts [of b a] by (intro rx_inv_parser [OF assms a(1)]) simp_all
  then show ?thesis
    unfolding ax88179_receive_buffered_impl_def
    using assms a safe l by (simp add: wp rx_answer_ok_def)
qed

lemma wp_take_or_wait:
  assumes "rx_inv s"
  shows "wp (take_or_wait us) (\<lambda>r t. rx_inv t \<and> r \<in> {Some (- 1), Some 0, Some 1}) s"
  unfolding take_or_wait_def
proof (rule wp_bind_I [OF wp_take [OF assms]])
  fix r t assume t: "rx_inv t \<and> r \<in> {Some (- 1), Some 0, Some (1 :: int)}"
  then have "wp (do { rx_wait us; ax_rx_take_completed })
      (\<lambda>r t. rx_inv t \<and> r \<in> {Some (- 1), Some 0, Some 1}) t"
    by (intro wp_bind_I [OF keepsD [OF rx_inv_wait]] wp_take) auto
  with t show "wp (if r = Some 0 \<and> us > 0 then do { rx_wait us; ax_rx_take_completed } else return r)
      (\<lambda>r t. rx_inv t \<and> r \<in> {Some (- 1), Some 0, Some 1}) t"
    by (simp add: wp_if wp_return)
qed

lemma wp_receive_loaded:
  assumes "rx_inv s"
  shows "wp (receive_loaded f m us) (\<lambda>r t. rx_inv t \<and> rx_answer_ok m r) s"
  unfolding receive_loaded_def
  using wp_impl
  by (intro wp_bind_I [OF wp_take_or_wait [OF assms]]) (auto simp: wp rx_answer_ok_def)

lemma wp_receive_ring:
  assumes "rx_inv s"
  shows "wp (receive_ring f m us) (\<lambda>r t. rx_inv t \<and> rx_answer_ok m r) s"
proof -
  have start: "wp (if \<not> started then ax_rx_start_async else return 0) (\<lambda>_. rx_inv) s" for started
    by (rule keepsD [where I = rx_inv, OF _ assms], intro keeps)
  have fin: "wp (if st \<noteq> 0 then return (Some (- 1, [])) else receive_loaded f m us)
      (\<lambda>r t. rx_inv t \<and> rx_answer_ok m r) u" if "rx_inv u" for st :: int and u
    using wp_receive_loaded [OF that, of f m us] that by (simp add: wp_return rx_answer_ok_def)
  show ?thesis
    unfolding receive_ring_def wp_bind [of "get_ax _"] wp_get_ax
    by (rule wp_bind_I [OF start fin])
qed

lemma wp_receive:
  assumes "rx_inv s"
  shows "wp (ax88179_receive f m us) (\<lambda>r t. rx_inv t \<and> rx_answer_ok m r) s"
proof -
  let ?k = "\<lambda>n. case n of None \<Rightarrow> return None
     | Some (k, bs) \<Rightarrow> if k \<noteq> 0 then return (Some (k, bs)) else receive_ring f m us"
  have fin: "wp (?k n) (\<lambda>r t. rx_inv t \<and> rx_answer_ok m r) u" if "rx_inv u \<and> rx_answer_ok m n" for n u
    using wp_receive_ring [of u f m us] that
    by (auto simp: rx_answer_ok_def wp_return split: option.splits)
  have "wp (State_Monad.bind (ax88179_receive_buffered_impl f m) ?k) (\<lambda>r t. rx_inv t \<and> rx_answer_ok m r) s"
    by (rule wp_bind_I [OF wp_impl [OF assms] fin])
  moreover have "rx_answer_ok m (Some (- 1, []))" "rx_answer_ok m (Some (0, []))"
    by (simp_all add: rx_answer_ok_def)
  ultimately show ?thesis
    unfolding ax88179_receive_def wp_bind [of "gets _"] wp_bind [of "get_ax _"] wp_gets wp_get_ax wp_if wp_return
    using assms by (simp only: if_split simp_thms)
qed

end
