(* ===== verification/Rx_Aggregate.thy ===== *)
theory Rx_Aggregate
  imports Driver_Rx
begin

text \<open>
  What the adapter puts into one bulk-IN transfer, as an encoder, and that the parser of
  \<open>Driver_Rx\<close> recovers from it exactly the frames to be delivered, in order.

  An aggregate is the frames (two alignment bytes, the frame, its check sequence, padding
  to eight bytes), one 32-bit descriptor per frame, and a trailer with the number of
  descriptors and where they start.
\<close>

section \<open>The encoder\<close>

text \<open>A dummy descriptor, or a packet with its CRC-error and dropped flags, the alignment
  bytes, the frame and the check sequence.\<close>

datatype rx_item = Dummy | Pkt bool bool bytes bytes bytes

fun item_ok :: "rx_item \<Rightarrow> bool" where
  "item_ok Dummy = True"
| "item_ok (Pkt _ _ pre fr fcs) \<longleftrightarrow> length pre = 2 \<and> length fcs = 4 \<and> length fr + 6 < 8192"

fun item_len :: "rx_item \<Rightarrow> nat" where
  "item_len Dummy = 0"
| "item_len (Pkt _ _ pre fr fcs) = length fr + 6"

definition pad_len :: "nat \<Rightarrow> nat" where
  "pad_len n = 8 * ((n + 7) div 8)"

fun item_data :: "rx_item \<Rightarrow> bytes" where
  "item_data Dummy = []"
| "item_data (Pkt c d pre fr fcs) =
     pre @ fr @ fcs @ replicate (pad_len (length fr + 6) - (length fr + 6)) 0"

definition item_flags :: "bool \<Rightarrow> bool \<Rightarrow> u32" where
  "item_flags crc drp =
     (if crc then AX_RXHDR_CRC_ERR else 0) OR (if drp then AX_RXHDR_DROP_ERR else 0)"

fun item_desc :: "rx_item \<Rightarrow> u32" where
  "item_desc Dummy = 0"
| "item_desc (Pkt crc drp pre fr fcs) =
     push_bit 16 (of_nat (length fr + 6)) OR item_flags crc drp"

definition rx_data :: "rx_item list \<Rightarrow> bytes" where
  "rx_data its = concat (map item_data its)"

definition rx_descs :: "rx_item list \<Rightarrow> bytes" where
  "rx_descs its = concat (map (\<lambda>it. le32_bytes (item_desc it)) its)"

definition aggregate :: "rx_item list \<Rightarrow> bytes" where
  "aggregate its = rx_data its @ rx_descs its @
     le32_bytes (push_bit 16 (of_nat (length (rx_data its))) OR of_nat (length its))"

text \<open>The frames a reader with room for \<open>m\<close> bytes is to get.\<close>

fun deliverable :: "int \<Rightarrow> rx_item \<Rightarrow> bytes list" where
  "deliverable m (Pkt False False pre fr fcs) =
     (if 14 \<le> length fr \<and> int (length fr) \<le> m then [fr] else [])"
| "deliverable m _ = []"

section \<open>Descriptors\<close>

lemma bit_nat_less: "bit n k \<Longrightarrow> n < 2 ^ m \<Longrightarrow> k < m" for n :: nat
  by (metis bit_take_bit_iff take_bit_nat_eq_self)

lemma desc_len:
  assumes "n < 8192"
  shows "drop_bit 16 (push_bit 16 (of_nat n) OR item_flags c d) AND 0x1FFF = (of_nat n :: u32)"
proof -
  have hi: "13 \<le> k \<Longrightarrow> \<not> bit n k" for k
    using bit_nat_less [of n k 13] assms by auto
  have lo: "bit n k \<Longrightarrow> k < 13" "bit n k \<Longrightarrow> k < 16" for k
    using hi [of k] by linarith+
  have m: "(0x1FFF :: u32) = mask 13"
    by (simp add: mask_eq_exp_minus_1)
  have f: "item_flags c d = (if c then push_bit 29 1 else 0) OR (if d then push_bit 31 1 else 0)"
    by (simp add: item_flags_def push_bit_eq_mult)
  show ?thesis
    unfolding m f
    by (rule bit_word_eqI) (auto simp: bit_simps hi not_less intro: lo simp del: push_bit_of_1)
qed

lemma desc_flags:
  assumes "n < 8192"
  shows "((push_bit 16 (of_nat n) OR item_flags c d) AND (AX_RXHDR_CRC_ERR OR AX_RXHDR_DROP_ERR) = 0)
    \<longleftrightarrow> \<not> c \<and> \<not> d"
proof -
  have hi: "13 \<le> k \<Longrightarrow> \<not> bit n k" for k
    using bit_nat_less [of n k 13] assms by auto
  have lo: "bit n k \<Longrightarrow> k < 13" "bit n k \<Longrightarrow> k < 16" for k
    using hi [of k] by linarith+
  have f: "item_flags c d = (if c then push_bit 29 1 else 0) OR (if d then push_bit 31 1 else 0)"
    by (simp add: item_flags_def push_bit_eq_mult)
  have k: "(AX_RXHDR_CRC_ERR OR AX_RXHDR_DROP_ERR) = push_bit 29 1 OR push_bit 31 1"
    by (simp add: push_bit_eq_mult)
  have "(push_bit 16 (of_nat n) OR item_flags c d) AND (push_bit 29 1 OR push_bit 31 1) = item_flags c d"
    unfolding f
    by (rule bit_word_eqI) (auto simp: bit_simps hi not_less intro: lo simp del: push_bit_of_1)
  moreover have "item_flags c d = 0 \<longleftrightarrow> \<not> c \<and> \<not> d"
    by (simp add: item_flags_def)
  ultimately show ?thesis
    unfolding k by simp
qed

lemma of_nat_small:
  assumes "n < 2 ^ 32"
  shows "uint (of_nat n :: u32) = int n" and "unat (of_nat n :: u32) = n"
  using assms by (simp_all add: unsigned_of_nat take_bit_nat_eq_self)

text \<open>The trailer splits into its two halves.\<close>

lemma trailer_halves:
  assumes "n < 65536" "off < 65536"
  shows "(push_bit 16 (of_nat off) OR of_nat n :: u32) AND 0xFFFF = of_nat n"
    and "drop_bit 16 (push_bit 16 (of_nat off) OR of_nat n :: u32) AND 0xFFFF = of_nat off"
proof -
  have hi: "16 \<le> k \<Longrightarrow> \<not> bit n k" "16 \<le> k \<Longrightarrow> \<not> bit off k" for k
    using bit_nat_less [of n k 16] bit_nat_less [of off k 16] assms by auto
  have lo: "bit n k \<Longrightarrow> k < 16" "bit off k \<Longrightarrow> k < 16" for k
    using hi [of k] by linarith+
  have m: "(0xFFFF :: u32) = mask 16"
    by (simp add: mask_eq_exp_minus_1)
  show "(push_bit 16 (of_nat off) OR of_nat n :: u32) AND 0xFFFF = of_nat n"
    unfolding m by (rule bit_word_eqI) (auto simp: bit_simps hi not_less intro: lo)
  show "drop_bit 16 (push_bit 16 (of_nat off) OR of_nat n :: u32) AND 0xFFFF = of_nat off"
    unfolding m by (rule bit_word_eqI) (auto simp: bit_simps hi not_less intro: lo)
qed

section \<open>Where things are\<close>

lemma length_item_data: "item_ok it \<Longrightarrow> length (item_data it) = pad_len (item_len it)"
  by (cases it) (auto simp: pad_len_def)

lemma length_rx_descs [simp]: "length (rx_descs its) = 4 * length its"
  by (induction its) (simp_all add: rx_descs_def)

lemma rx_data_append [simp]: "rx_data (xs @ ys) = rx_data xs @ rx_data ys"
  by (simp add: rx_data_def)

lemma rx_data_Nil [simp]: "rx_data [] = []"
  by (simp add: rx_data_def)

lemma rx_descs_append [simp]: "rx_descs (xs @ ys) = rx_descs xs @ rx_descs ys"
  by (simp add: rx_descs_def)

lemma rx_data_Cons: "rx_data (x # xs) = item_data x @ rx_data xs"
  by (simp add: rx_data_def)

lemma rx_descs_Cons: "rx_descs (x # xs) = le32_bytes (item_desc x) @ rx_descs xs"
  by (simp add: rx_descs_def)

lemma length_aggregate: "length (aggregate its) = length (rx_data its) + 4 * length its + 4"
  by (simp add: aggregate_def)

text \<open>The descriptor and the frame of the item after \<open>pre\<close>.\<close>

lemma read_desc:
  "read32 (aggregate (pre @ it # post) @ zs) (length (rx_data (pre @ it # post)) + 4 * length pre) =
     Some (item_desc it)"
  by (simp add: read32_def aggregate_def rx_descs_Cons)

lemma read_frame:
  assumes "item_ok (Pkt c d p fr fcs)"
  shows "read_bytes (aggregate (pre @ Pkt c d p fr fcs # post) @ zs)
     (length (rx_data pre) + 2) (length fr) = Some fr"
  using assms by (simp add: read_bytes_def aggregate_def rx_data_Cons slice_def)

section \<open>The parser on an aggregate\<close>

text \<open>The parser has gone through \<open>pre\<close> and has \<open>post\<close> ahead of it.\<close>

definition at_pos :: "rx_item list \<Rightarrow> rx_item list \<Rightarrow> ax88179 \<Rightarrow> bool" where
  "at_pos pre post a \<longleftrightarrow> rx_next a = int (length pre) \<and> rx_frames a = int (length (pre @ post)) \<and>
     rx_pos a = int (length (rx_data pre)) \<and>
     rx_hdr_offset a = of_nat (length (rx_data (pre @ post)))"

lemma pad_len_int: "((int n + 7) AND NOT 7) = int (pad_len n)"
  unfolding pad8 pad_len_def by (simp add: zdiv_int)

lemma pad_len_ge: "n \<le> pad_len n"
  unfolding pad_len_def by presburger

lemma rx_body_item:
  assumes pos: "at_pos pre (it # post) a" and ok: "item_ok it" "14 \<le> m"
    and small: "length (rx_data (pre @ it # post)) < 65536"
    and g: "g = aggregate (pre @ it # post) @ zs"
  shows "\<exists>b. at_pos (pre @ [it]) post b \<and>
     rx_body g m a = (case deliverable m it of [] \<Rightarrow> Continue b
       | fr # _ \<Rightarrow> Return (Some (int (length fr), fr)) b)"
proof -
  let ?off = "length (rx_data (pre @ it # post))"
  have off: "unat (rx_hdr_offset a) = ?off" "uint (rx_hdr_offset a) = int ?off"
    using pos small of_nat_small [of ?off] unfolding at_pos_def by auto
  have d: "read32 g (unat (rx_hdr_offset a) + 4 * nat (rx_next a)) = Some (item_desc it)"
    using pos off(1) read_desc [of pre it post zs] by (simp add: at_pos_def g)
  show ?thesis
  proof (cases it)
    case Dummy
    have "rx_body g m a = Continue (a\<lparr>rx_next := rx_next a + 1\<rparr>)"
      unfolding rx_body_def d by (simp add: Dummy)
    then show ?thesis
      using pos by (intro exI [of _ "a\<lparr>rx_next := rx_next a + 1\<rparr>"])
        (simp add: at_pos_def Dummy rx_data_Cons)
  next
    case (Pkt c dr p fr fcs)
    let ?n = "length fr + 6"
    have n: "?n < 8192" using ok Pkt by simp
    have len: "uint (drop_bit 16 (item_desc it) AND 0x1FFF) = int ?n"
      using n unfolding Pkt item_desc.simps desc_len [OF n] by (intro of_nat_small) simp
    have flags: "(item_desc it AND (AX_RXHDR_CRC_ERR OR AX_RXHDR_DROP_ERR) \<noteq> 0) = (c \<or> dr)"
      using desc_flags [OF n, of c dr] unfolding Pkt item_desc.simps by simp
    have data: "length (item_data it) = pad_len ?n"
      using length_item_data [OF ok(1)] Pkt by simp
    have fits: "\<not> rx_pos a + int (pad_len ?n) > int ?off"
      using pos data by (simp add: at_pos_def rx_data_Cons)
    have rd: "read_bytes g (nat (rx_pos a + 2)) (nat (int ?n - 2 - 4)) = Some fr"
      using pos read_frame [of c dr p fr fcs pre post zs] ok(1)
      by (simp add: at_pos_def g Pkt nat_add_distrib)
    let ?b = "a\<lparr>rx_next := rx_next a + 1, rx_pos := rx_pos a + int (pad_len ?n)\<rparr>"
    have b: "at_pos (pre @ [it]) post ?b"
      using pos data by (simp add: at_pos_def rx_data_Cons)
    have "rx_body g m a = (case deliverable m it of [] \<Rightarrow> Continue ?b
       | fr # _ \<Rightarrow> Return (Some (int (length fr), fr)) ?b)"
      unfolding rx_body_def d option.case Let_def len pad_len_int
      using fits rd flags off(2) Pkt by (cases c; cases dr) auto
    with b show ?thesis by blast
  qed
qed

lemma rx_loop_progress:
  "rx_loop g m a = (Some (n, bs), b) \<Longrightarrow> 0 < n \<Longrightarrow>
     nat (rx_frames b - rx_next b) < nat (rx_frames a - rx_next a)"
proof (induction g m a rule: rx_loop.induct)
  case (1 g m a)
  have more: "rx_next a < rx_frames a"
    using 1(2,3) by (auto simp: rx_loop.simps [of g m a] split: if_splits)
  show ?case
  proof (cases "rx_body g m a")
    case (Continue c)
    then have "nat (rx_frames b - rx_next b) < nat (rx_frames c - rx_next c)"
      using 1 more by (simp add: rx_loop.simps [of g m a])
    with rx_body_next [OF Continue] show ?thesis by linarith
  next
    case (Return r c)
    then have "c = b" "r = Some (n, bs)"
      using 1(2) more by (simp_all add: rx_loop.simps [of g m a])
    with Return have "rx_next b = rx_next a + 1 \<and> rx_frames b = rx_frames a"
      using 1(3) by (auto simp: rx_body_def Let_def split: option.splits if_splits)
    with more show ?thesis by linarith
  qed
qed

text \<open>Calling the parser until it has nothing more, as the network layer does.\<close>

function rx_drain :: "bytes \<Rightarrow> int \<Rightarrow> ax88179 \<Rightarrow> bytes list" where
  "rx_drain g m a =
     (case rx_loop g m a of
        (Some (n, bs), b) \<Rightarrow> if 0 < n then bs # rx_drain g m b else []
      | (None, b) \<Rightarrow> [])"
  by pat_completeness auto
termination
  by (relation "measure (\<lambda>(g, m, a). nat (rx_frames a - rx_next a))") (auto dest!: rx_loop_progress [OF sym])

declare rx_drain.simps [simp del]

lemma rx_drain_Continue:
  "rx_next a < rx_frames a \<Longrightarrow> rx_body g m a = Continue b \<Longrightarrow> rx_drain g m a = rx_drain g m b"
  by (simp add: rx_drain.simps [of g m a] rx_drain.simps [of g m b] rx_loop.simps [of g m a])

lemma rx_drain_Return:
  "rx_next a < rx_frames a \<Longrightarrow> rx_body g m a = Return (Some (n, bs)) b \<Longrightarrow> 0 < n \<Longrightarrow>
     rx_drain g m a = bs # rx_drain g m b"
  by (simp add: rx_drain.simps [of g m a] rx_loop.simps [of g m a])

lemma rx_drain_end: "rx_frames a \<le> rx_next a \<Longrightarrow> rx_drain g m a = []"
  by (simp add: rx_drain.simps rx_loop.simps)

lemma deliverable_cases:
  "deliverable m it = [] \<or> (\<exists>fr. deliverable m it = [fr] \<and> fr \<noteq> [])"
  by (cases "(m, it)" rule: deliverable.cases) auto

lemma rx_drain_items:
  assumes "at_pos pre post a" and "list_all item_ok post" and "14 \<le> m"
    and "length (rx_data (pre @ post)) < 65536" and "g = aggregate (pre @ post) @ zs"
  shows "rx_drain g m a = concat (map (deliverable m) post)"
  using assms
proof (induction post arbitrary: pre a)
  case Nil
  then show ?case by (simp add: rx_drain_end at_pos_def)
next
  case (Cons it post)
  then obtain b where b: "at_pos (pre @ [it]) post b"
    and body: "rx_body g m a = (case deliverable m it of [] \<Rightarrow> Continue b
       | fr # _ \<Rightarrow> Return (Some (int (length fr), fr)) b)"
    using rx_body_item [of pre it post a m g zs] by auto
  have more: "rx_next a < rx_frames a"
    using Cons.prems(1) by (simp add: at_pos_def)
  have IH: "rx_drain g m b = concat (map (deliverable m) post)"
    using Cons.IH [OF b] Cons.prems by simp
  show ?case
    using deliverable_cases [of m it] body more IH by (auto simp: rx_drain_Continue rx_drain_Return)
qed

section \<open>From the completed transfer to the frames\<close>

definition aggregate_ok :: "rx_item list \<Rightarrow> bool" where
  "aggregate_ok its \<longleftrightarrow> list_all item_ok its \<and> its \<noteq> [] \<and> length (aggregate its) \<le> RX_BUFFER_SIZE"

lemma aggregate_ok_small:
  assumes "aggregate_ok its"
  shows "length its < 65536" and "length (rx_data its) < 65536"
  using assms by (simp_all add: aggregate_ok_def length_aggregate)

lemma read_trailer:
  "read32 (aggregate its @ zs) (length (aggregate its) - 4) =
     Some (push_bit 16 (of_nat (length (rx_data its))) OR of_nat (length its))"
  by (simp add: read32_def length_aggregate) (simp add: aggregate_def)

lemma rx_header_aggregate:
  assumes "aggregate_ok its"
  shows "\<exists>b. rx_header (aggregate its @ zs) (of_nat (length (aggregate its))) a = Some (1, b) \<and> at_pos [] its b"
proof -
  let ?n = "length its" and ?off = "length (rx_data its)" and ?l = "length (aggregate its)"
  note small = aggregate_ok_small [OF assms]
  have l: "?l < 2 ^ 32" "4 \<le> ?l" "?n \<noteq> 0"
    using assms by (simp_all add: aggregate_ok_def length_aggregate)
  have un: "unat (of_nat ?l :: u32) = ?l" "uint (of_nat ?l :: u32) = int ?l"
    using l by (simp_all add: of_nat_small)
  have halves: "(push_bit 16 (of_nat ?off) OR of_nat ?n :: u32) AND 0xFFFF = of_nat ?n"
    "drop_bit 16 (push_bit 16 (of_nat ?off) OR of_nat ?n :: u32) AND 0xFFFF = of_nat ?off"
    using trailer_halves [OF small] by simp_all
  have un2: "uint (of_nat ?n :: u32) = int ?n"
    using small by (simp add: of_nat_small)
  have "(of_nat ?off + 4 * word_of_int (int ?n) :: u32) = of_nat (?off + 4 * ?n)"
    by simp
  moreover have "(word_of_int (int ?l) - 4 :: u32) = of_nat (?off + 4 * ?n)"
    by (simp add: length_aggregate)
  ultimately have le: "\<not> (of_nat ?off + 4 * word_of_int (int ?n) > (word_of_int (int ?l) - 4 :: u32))"
    by simp
  show ?thesis
    unfolding rx_header_def un read_trailer option.case halves un2 Let_def
    using le l(3) by (simp add: at_pos_def)
qed

lemma g_rx_rearm [preserves]: "preserves g_rx (rx_rearm i)"
  by (rule preservesI) (simp add: rx_rearm_def upd_slot_def ax_rx_submit_slot_def wp)

lemma axp_rearm: "wp (rx_rearm i) (\<lambda>_ t. axp s \<noteq> None \<longrightarrow> axp t \<noteq> None) s"
  by (auto simp: rx_rearm_def upd_slot_def ax_rx_submit_slot_def wp)

text \<open>The slot to be consumed holds a completed transfer with the bytes \<open>bs\<close>.\<close>

definition completed :: "bytes \<Rightarrow> 'z drv_scheme \<Rightarrow> bool" where
  "completed bs s \<longleftrightarrow> (case axp s of None \<Rightarrow> False | Some a \<Rightarrow>
     let sl = rx_slot (rx_consume a) s in
     sl_state sl = AX_RX_SLOT_DONE \<and> 0 \<le> sl_ret sl \<and> sl_actual sl = of_nat (length bs) \<and>
     take (length bs) (g_rx_async s ! the (sl_ptr sl)) = bs)"

text \<open>Loading a completed aggregate: its bytes are at the start of the snapshot, and the parser
  stands before its first frame.\<close>

lemma take_aggregate:
  assumes "rx_inv s" and "aggregate_ok its" and "completed (aggregate its) s"
  shows "wp ax_rx_take_completed (\<lambda>r t. r = Some 1 \<and> (\<exists>b zs. axp t = Some b \<and> at_pos [] its b \<and>
    g_rx t = aggregate its @ zs)) s"
proof -
  let ?l = "length (aggregate its)"
  obtain a where a: "axp s = Some a" "length (g_rx s) = RX_BUFFER_SIZE"
    using assms(1) by (auto simp: rx_inv_def bufs_ok_def)
  define sl where "sl = rx_slot (rx_consume a) s"
  have sl: "sl_state sl = AX_RX_SLOT_DONE" "0 \<le> sl_ret sl" "sl_actual sl = of_nat ?l"
    "take ?l (g_rx_async s ! the (sl_ptr sl)) = aggregate its"
    using assms(3) a(1) by (simp_all add: completed_def sl_def Let_def)
  have l: "4 \<le> ?l" "?l \<le> 26624"
    using assms(2) by (simp_all add: aggregate_ok_def length_aggregate)
  have u: "unat (of_nat ?l :: u32) = ?l"
    using l(2) by (intro of_nat_small) simp
  have bounds: "\<not> (of_nat ?l :: u32) < 4" "\<not> (26624 :: u32) < of_nat ?l"
    unfolding word_less_nat_alt u using l by simp_all
  define g where "g = aggregate its @ drop ?l (g_rx s)"
  have fin: "wp (rx_rearm i) (\<lambda>_ t. \<exists>b. (case rx_header (g_rx t) (of_nat ?l) (the (axp t)) of
        None \<Rightarrow> False | Some (r, b') \<Rightarrow> r = 1 \<and> b = b' \<and> axp t \<noteq> None) \<and> g_rx t = g \<and> at_pos [] its b) u"
    if u: "g_rx u = g" "axp u \<noteq> None" for i u
  proof (rule wp_mono [OF wp_conj [OF wp_keep [OF g_rx_rearm] axp_rearm]])
    fix x t assume t: "g_rx t = g_rx u \<and> (axp u \<noteq> None \<longrightarrow> axp t \<noteq> None)"
    obtain b where "rx_header g (of_nat ?l) (the (axp t)) = Some (1, b)" "at_pos [] its b"
      using rx_header_aggregate [OF assms(2)] unfolding g_def by blast
    then show "\<exists>b. (case rx_header (g_rx t) (of_nat ?l) (the (axp t)) of
        None \<Rightarrow> False | Some (r, b') \<Rightarrow> r = 1 \<and> b = b' \<and> axp t \<noteq> None) \<and> g_rx t = g \<and> at_pos [] its b"
      using t u by auto
  qed
  show ?thesis
    unfolding ax_rx_take_completed_def Let_def
    using a sl l u bounds
    by (simp add: wp sl_def [symmetric], intro wp_mono [OF fin])
       (auto simp: wp g_def memcpy_at_def split: option.splits)
qed

text \<open>C5. A completed transfer holding an aggregate is unwrapped without loss: loading it
  succeeds, and calling the parser until it answers 0 delivers exactly the frames without CRC
  or drop error, of at least 14 bytes, that fit the caller's buffer, in order. Dummy
  descriptors and what an earlier aggregate left in the buffer make no difference.\<close>

theorem rx_aggregate_roundtrip:
  assumes "rx_inv s" and "aggregate_ok its" and "completed (aggregate its) s" and "14 \<le> m"
  shows "\<exists>t b. run_state ax_rx_take_completed s = (Some 1, t) \<and> axp t = Some b \<and>
           rx_drain (g_rx t) m b = concat (map (deliverable m) its)"
proof -
  obtain t b zs where t: "run_state ax_rx_take_completed s = (Some 1, t)" "axp t = Some b" "at_pos [] its b"
      "g_rx t = aggregate its @ zs"
    using take_aggregate [OF assms(1-3)] by (auto simp: wp_run_state) (metis prod.collapse)
  have "rx_drain (g_rx t) m b = concat (map (deliverable m) its)"
    using rx_drain_items [OF t(3) _ assms(4)] assms(2) aggregate_ok_small [OF assms(2)] t(4)
    by (simp add: aggregate_ok_def)
  with t show ?thesis by blast
qed

definition demo_items :: "rx_item list" where
  "demo_items = [Pkt False False [0, 0] (replicate 60 7) [1, 2, 3, 4], Dummy,
     Pkt True False [0, 0] (replicate 60 8) [1, 2, 3, 4],
     Pkt False False [0, 0] (replicate 64 9) [1, 2, 3, 4]]"

definition demo_ring :: "slot_state \<Rightarrow> (call list \<Rightarrow> call \<Rightarrow> resp) \<Rightarrow> bytes \<Rightarrow> drv" where
  "demo_ring st e bs =
     \<lparr>env = e, trace = [], axp = Some (ax_zero\<lparr>medium := 0x10b, rx_async_started := True\<rparr>),
      g_open = True, phy_init_generation = 1, debug_last_link = 1, g_rx = replicate 26624 0,
      g_rx_async = [bs @ replicate (26624 - length bs) 0, replicate 26624 0, replicate 26624 0],
      g_rx_slots = [\<lparr>sl_state = st, sl_ret = 0, sl_actual = of_nat (length bs), sl_ptr = Some 0\<rparr>,
        \<lparr>sl_state = AX_RX_SLOT_PENDING, sl_ret = 0, sl_actual = 0, sl_ptr = Some 1\<rparr>,
        \<lparr>sl_state = AX_RX_SLOT_PENDING, sl_ret = 0, sl_actual = 0, sl_ptr = Some 2\<rparr>],
      g_tx = replicate 2048 0\<rparr>"

lemma demo_ring_inv: "length bs \<le> 26624 \<Longrightarrow> rx_inv (demo_ring st e bs)"
  by (simp add: rx_inv_def demo_ring_def bufs_ok_def rx_ax_ok_def par_ok_def ax_zero_def
      upt_rec numeral_3_eq_3)

theorem rx_aggregate_roundtrip_witness:
  "\<exists>t b. run_state ax_rx_take_completed (demo_ring AX_RX_SLOT_DONE (\<lambda>_ _. resp0) (aggregate demo_items)) = (Some 1, t) \<and>
     axp t = Some b \<and> rx_drain (g_rx t) 1536 b = [replicate 60 7, replicate 64 9]"
proof -
  let ?s = "demo_ring AX_RX_SLOT_DONE (\<lambda>_ _. resp0) (aggregate demo_items)"
  have ok: "aggregate_ok demo_items"
    by (simp add: aggregate_ok_def demo_items_def length_aggregate rx_data_Cons pad_len_def)
  then have inv: "rx_inv ?s"
    by (intro demo_ring_inv) (simp add: aggregate_ok_def)
  have "completed (aggregate demo_items) ?s"
    by (simp add: completed_def demo_ring_def rx_slot_def ax_zero_def)
  then show ?thesis
    using rx_aggregate_roundtrip [OF inv ok, of 1536] by (simp add: demo_items_def)
qed

text \<open>C4. However the host stack and the adapter behave, receiving never reads outside the
  snapshot buffer: a call always returns, with - 1, 0, or the length of a frame of at least 14
  bytes that fits the caller's buffer, and the receive state stays well-formed.\<close>

theorem rx_receive_memory_safe:
  assumes "rx_inv s" and "run_state (ax88179_receive f m us) s = (r, t)"
  shows "rx_inv t \<and> (\<exists>n bs. r = Some (n, bs) \<and>
           (n = - 1 \<or> n = 0 \<or> 14 \<le> n \<and> n \<le> m \<and> int (length bs) = n))"
  using wpD [OF assms(2) wp_receive [OF assms(1)]]
  by (auto simp: rx_answer_ok_def split: option.splits)

theorem rx_receive_memory_safe_witness:
  "\<exists>r t. run_state (ax88179_receive True 1536 0) (demo_ring AX_RX_SLOT_DONE (\<lambda>_ _. resp0) (replicate 40 0xff)) = (r, t) \<and>
     rx_inv t \<and> r \<noteq> None"
proof -
  let ?s = "demo_ring AX_RX_SLOT_DONE (\<lambda>_ _. resp0) (replicate 40 0xff)"
  obtain r t where run: "run_state (ax88179_receive True 1536 0) ?s = (r, t)"
    by fastforce
  have "rx_inv ?s" by (rule demo_ring_inv) simp
  from rx_receive_memory_safe [OF this run] run show ?thesis by auto
qed

end
