(* ===== verification/Driver_Tx.thy ===== *)
theory Driver_Tx
  imports Driver_Control
begin

text \<open>
  The transmit path of \<^verbatim>\<open>driver/ax88179.c\<close>: \<open>ax88179_send\<close> builds one bulk-OUT transfer from
  a frame. Bytes written outside \<open>g_tx\<close> would be a fault; \<open>poke\<close> answers \<open>None\<close> there.
\<close>

section \<open>Building a transfer\<close>

definition poke :: "nat \<Rightarrow> bytes \<Rightarrow> bytes \<Rightarrow> bytes option" where
  "poke off src dst = (if off + length src \<le> length dst then Some (memcpy_at off src dst) else None)"

definition tx_wire_length :: "nat \<Rightarrow> nat" where
  "tx_wire_length len = (if len < 60 then 60 else len)"

text \<open>\<open>tx_maxpacket\<close> is never 0 on a device \<open>ax88179_open\<close> returned, so the division is defined.\<close>

definition tx_hdr1 :: "u16 \<Rightarrow> nat \<Rightarrow> u32" where
  "tx_hdr1 mps wire = (if (wire + 8) mod unat mps = 0 then 0x80008000 else 0)"

text \<open>The whole of \<open>g_tx\<close> after the stores, and the transfer length; the stores are in the
  order of the code.\<close>

definition tx_fill :: "u16 \<Rightarrow> bytes \<Rightarrow> bytes \<Rightarrow> (bytes \<times> nat) option" where
  "tx_fill mps frame g =
     (let wire = tx_wire_length (length frame); hdr1 = tx_hdr1 mps wire in
      case poke 0 (le32_bytes (of_nat wire)) g of None \<Rightarrow> None | Some g1 \<Rightarrow>
      case poke 4 (le32_bytes hdr1) g1 of None \<Rightarrow> None | Some g2 \<Rightarrow>
      case poke 8 (replicate wire 0) g2 of None \<Rightarrow> None | Some g3 \<Rightarrow>
      case poke 8 frame g3 of None \<Rightarrow> None | Some g4 \<Rightarrow>
      if hdr1 \<noteq> 0 then (case poke (wire + 8) [0] g4 of None \<Rightarrow> None | Some g5 \<Rightarrow> Some (g5, wire + 9))
      else Some (g4, wire + 8))"

text \<open>\<open>frame = None\<close> is a NULL pointer. The outer \<open>None\<close> is a store outside \<open>g_tx\<close>.\<close>

definition ax88179_send :: "bytes option \<Rightarrow> ('z drv_scheme, int option) state" where
  "ax88179_send frame = do {
     p \<leftarrow> gets axp;
     case (p, frame) of
       (Some a, Some fr) \<Rightarrow>
         if medium a = 0 \<or> length fr < 14 \<or> length fr > 1518 then return (Some (- 1))
         else do {
           g \<leftarrow> gets g_tx;
           case tx_fill (tx_maxpacket a) fr g of
             None \<Rightarrow> return None
           | Some (g', n) \<Rightarrow> do {
               modify (\<lambda>s. s\<lparr>g_tx := g'\<rparr>);
               r \<leftarrow> ext (Uhs (UhsSubmitBulkRequest (if_handle a) (ep_out a) UHS_DIR_OUT (take n g') 1000));
               upd_ax (\<lambda>a. a\<lparr>last_bulk := r_ret r\<rparr>);
               return (Some (if r_ret r = int n then 0 else - 1)) } }
     | _ \<Rightarrow> return (Some (- 1)) }"

lemmas tx_runs [runs] = ax88179_send_def [THEN run_cong]

section \<open>What goes on the wire\<close>

text \<open>The transfer as a function of the frame: length word, control word, the frame padded
  to 60 bytes, and one more byte where the transfer would otherwise end on a packet
  boundary.\<close>

definition tx_padded :: "bytes \<Rightarrow> bytes" where
  "tx_padded fr = fr @ replicate (60 - length fr) 0"

definition tx_transfer :: "u16 \<Rightarrow> bytes \<Rightarrow> bytes" where
  "tx_transfer mps fr =
     (let p = tx_padded fr; h = tx_hdr1 mps (length p) in
      le32_bytes (of_nat (length p)) @ le32_bytes h @ p @ (if h \<noteq> 0 then [0] else []))"

text \<open>What the adapter reads back from a transfer.\<close>

definition tx_decode :: "bytes \<Rightarrow> bytes" where
  "tx_decode bs = take (unat (le32 bs)) (drop 8 bs)"

lemma length_tx_padded: "length (tx_padded fr) = tx_wire_length (length fr)"
  by (simp add: tx_padded_def tx_wire_length_def)

lemma poke_0: "length src \<le> length dst \<Longrightarrow> poke 0 src dst = Some (src @ drop (length src) dst)"
  by (simp add: poke_def memcpy_at_def)

lemma poke_append:
  "length src \<le> length dst \<Longrightarrow> n = length pre \<Longrightarrow> poke n src (pre @ dst) = Some (pre @ src @ drop (length src) dst)"
  by (simp add: poke_def memcpy_at_def)

lemma tx_fill_ok:
  assumes "length g = 2048" and "length fr \<le> 1518"
  shows "\<exists>rest n. tx_fill mps fr g = Some (tx_transfer mps fr @ rest, n) \<and> n = length (tx_transfer mps fr)
    \<and> length (tx_transfer mps fr @ rest) = 2048"
proof -
  let ?w = "tx_wire_length (length fr)"
  let ?h = "tx_hdr1 mps ?w"
  have w: "?w \<le> 1518" "length fr \<le> ?w"
    using assms(2) by (simp_all add: tx_wire_length_def)
  have p: "fr @ replicate (?w - length fr) 0 = tx_padded fr"
    by (simp add: tx_padded_def tx_wire_length_def)
  have 1: "poke 0 (le32_bytes (of_nat ?w)) g = Some (le32_bytes (of_nat ?w) @ drop 4 g)"
    using assms(1) by (simp add: poke_0)
  have 2: "poke 4 (le32_bytes ?h) (le32_bytes (of_nat ?w) @ drop 4 g) =
      Some (le32_bytes (of_nat ?w) @ le32_bytes ?h @ drop 8 g)"
    using assms(1) by (simp add: poke_append)
  have 3: "poke 8 (replicate ?w 0) ((le32_bytes (of_nat ?w) @ le32_bytes ?h) @ drop 8 g) =
      Some ((le32_bytes (of_nat ?w) @ le32_bytes ?h) @ replicate ?w 0 @ drop (8 + ?w) g)"
    using assms(1) w by (subst poke_append) (simp_all add: add.commute)
  have 4: "poke 8 fr ((le32_bytes (of_nat ?w) @ le32_bytes ?h) @ replicate ?w 0 @ drop (8 + ?w) g) =
      Some ((le32_bytes (of_nat ?w) @ le32_bytes ?h) @ tx_padded fr @ drop (8 + ?w) g)"
    using assms(1) w by (subst poke_append) (simp_all add: p [symmetric])
  have 5: "poke (?w + 8) [0] ((le32_bytes (of_nat ?w) @ le32_bytes ?h @ tx_padded fr) @ drop (8 + ?w) g) =
      Some ((le32_bytes (of_nat ?w) @ le32_bytes ?h @ tx_padded fr) @ [0] @ drop (9 + ?w) g)"
    using assms(1) w by (subst poke_append) (simp_all add: length_tx_padded)
  show ?thesis
    using 1 2 3 4 5 assms(1) w
    by (cases "?h = 0") (simp_all add: tx_fill_def tx_transfer_def length_tx_padded Let_def)
qed

lemma tx_decode_transfer:
  assumes "length fr \<le> 1518"
  shows "tx_decode (tx_transfer mps fr) = tx_padded fr"
proof -
  have "unat (of_nat (tx_wire_length (length fr)) :: u32) = tx_wire_length (length fr)"
    using assms by (simp add: unsigned_of_nat take_bit_nat_eq_self tx_wire_length_def)
  then show ?thesis
    by (simp add: tx_decode_def tx_transfer_def Let_def length_tx_padded)
qed

text \<open>A legal packet size never divides the length of a transfer, so every transfer ends with
  a short packet.\<close>

lemma tx_transfer_short:
  assumes "legal_mps mps" and "length fr \<le> 1518"
  shows "length (tx_transfer mps fr) mod unat mps \<noteq> 0" "length (tx_transfer mps fr) \<le> 2048"
proof -
  have m: "unat mps = 64 \<or> unat mps = 512 \<or> unat mps = 1024"
    using assms(1) by (auto simp: legal_mps_def)
  let ?w = "tx_wire_length (length fr)"
  have l: "length (tx_transfer mps fr) = (if (?w + 8) mod unat mps = 0 then ?w + 9 else ?w + 8)"
    by (simp add: tx_transfer_def Let_def length_tx_padded tx_hdr1_def)
  have "(k + 9) mod unat mps \<noteq> 0" if "(k + 8) mod unat mps = 0" for k
    using that m mod_Suc [of "k + 8" "unat mps"] by (auto simp: add.commute split: if_splits)
  then show "length (tx_transfer mps fr) mod unat mps \<noteq> 0"
    by (simp add: l)
  show "length (tx_transfer mps fr) \<le> 2048"
    using assms(2) by (simp add: l tx_wire_length_def)
qed

section \<open>Properties\<close>

text \<open>C8. Sending a frame of legal size on a device with a link stores inside the 2048-byte
  DMA buffer, makes exactly one bulk request, and succeeds exactly when that request transfers
  everything. The transfer decodes to the frame padded to 60 bytes and always ends in a short
  USB packet.\<close>

theorem send_transfer:
  assumes "axp s = Some a" and "medium a \<noteq> 0" and "legal_mps (tx_maxpacket a)"
    and "length (g_tx s) = 2048" and "14 \<le> length fr" and "length fr \<le> 1518"
    and "run_state (ax88179_send (Some fr)) s = (r, t)"
  shows "\<exists>bs. let c = Uhs (UhsSubmitBulkRequest (if_handle a) (ep_out a) UHS_DIR_OUT bs 1000) in
     trace t = trace s @ [c] \<and>
     r = Some (if r_ret (env s (trace s) c) = int (length bs) then 0 else - 1) \<and>
     tx_decode bs = tx_padded fr \<and> length bs \<le> 2048 \<and> length bs mod unat (tx_maxpacket a) \<noteq> 0 \<and>
     length (g_tx t) = 2048"
proof -
  obtain rest n where f: "tx_fill (tx_maxpacket a) fr (g_tx s) = Some (tx_transfer (tx_maxpacket a) fr @ rest, n)"
    "n = length (tx_transfer (tx_maxpacket a) fr)" "length (tx_transfer (tx_maxpacket a) fr @ rest) = 2048"
    using tx_fill_ok [OF assms(4,6)] by blast
  show ?thesis
    using assms f tx_decode_transfer [OF assms(6)] tx_transfer_short [OF assms(3,6)]
    by (intro exI [of _ "tx_transfer (tx_maxpacket a) fr"]) (auto simp: runs Let_def)
qed

text \<open>A 504-byte frame is the case where the extra byte is needed: 504 + 8 is 512.\<close>

theorem send_transfer_witness:
  "\<exists>s :: drv. \<exists>r t. run_state (ax88179_send (Some (replicate 504 1))) s = (r, t) \<and>
     length (trace t) = 1 \<and> length (tx_transfer 512 (replicate 504 1)) = 513"
proof -
  let ?s = "\<lparr>env = (\<lambda>_ _. resp0), trace = [], axp = Some (ax_zero\<lparr>medium := 0x10b, tx_maxpacket := 512\<rparr>),
     g_open = True, phy_init_generation = 1, debug_last_link = 1, g_rx = [], g_rx_async = [],
     g_rx_slots = [], g_tx = replicate 2048 0\<rparr> :: drv"
  obtain r t where run: "run_state (ax88179_send (Some (replicate 504 1))) ?s = (r, t)"
    by fastforce
  have "length (trace t) = 1"
    using send_transfer [OF _ _ _ _ _ _ run] by (auto simp: ax_zero_def legal_mps_def Let_def)
  moreover have "length (tx_transfer 512 (replicate 504 1)) = 513"
    by (simp add: tx_transfer_def tx_padded_def tx_hdr1_def Let_def)
  ultimately show ?thesis using run by blast
qed

text \<open>A frame the adapter must not be given is refused without touching the hardware: no
  device, no link, no frame, or a length outside 14 to 1518.\<close>

theorem send_refused:
  assumes "axp s = None \<or> (\<exists>a. axp s = Some a \<and> medium a = 0) \<or> fr = None \<or>
    (\<exists>f. fr = Some f \<and> (length f < 14 \<or> length f > 1518))"
  shows "run_state (ax88179_send fr) s = (Some (- 1), s)"
  using assms by (cases "axp s"; cases fr) (auto simp: runs)

theorem send_refused_witness:
  "\<exists>s :: drv. run_state (ax88179_send (Some (replicate 1519 0))) s = (Some (- 1), s)"
  using send_refused [of "undefined :: drv" "Some (replicate 1519 0)"] by auto

end
