(* ===== verification/Fifo.thy ===== *)
theory Fifo
  imports Main
begin

text \<open>
  The contract of a bounded first-in first-out queue, as the locale \<open>fifo\<close>: what it holds is
  a list, putting appends to it unless the queue refuses, getting removes its head. The
  receive ring of the driver and the transmit slots of the network layer are both instances;
  the consequences over whole histories of operations are proved here once.
\<close>

datatype 'a fifo_op = Put 'a | Get

locale fifo =
  fixes inv :: "'s \<Rightarrow> bool"
    and items :: "'s \<Rightarrow> 'a list"
    and put :: "'a \<Rightarrow> 's \<Rightarrow> 's option"
    and get :: "'s \<Rightarrow> ('a \<times> 's) option"
    and capacity :: nat
  assumes put_Some: "inv s \<Longrightarrow> put x s = Some t \<Longrightarrow> inv t \<and> items t = items s @ [x]"
    and get_Some: "inv s \<Longrightarrow> get s = Some (x, t) \<Longrightarrow> inv t \<and> items s = x # items t"
    and get_None: "inv s \<Longrightarrow> get s = None \<Longrightarrow> items s = []"
    and bounded: "inv s \<Longrightarrow> length (items s) \<le> capacity"
begin

text \<open>A history: the accepted inputs, the outputs, and the final state.\<close>

fun history :: "'a fifo_op list \<Rightarrow> 's \<Rightarrow> 'a list \<times> 'a list \<times> 's" where
  "history [] s = ([], [], s)"
| "history (Put x # ops) s = (case put x s of
     None \<Rightarrow> history ops s
   | Some t \<Rightarrow> (case history ops t of (ins, outs, u) \<Rightarrow> (x # ins, outs, u)))"
| "history (Get # ops) s = (case get s of
     None \<Rightarrow> history ops s
   | Some (x, t) \<Rightarrow> (case history ops t of (ins, outs, u) \<Rightarrow> (ins, x # outs, u)))"

lemma history_order:
  "inv s \<Longrightarrow> history ops s = (ins, outs, t) \<Longrightarrow> inv t \<and> items s @ ins = outs @ items t"
proof (induction ops arbitrary: s ins outs)
  case (Cons op ops)
  show ?case
  proof (cases op)
    case (Put x)
    show ?thesis
    proof (cases "put x s")
      case (Some u)
      with Put Cons.prems(2) obtain ins' where "history ops u = (ins', outs, t)" "ins = x # ins'"
        by (auto split: prod.splits)
      with Cons.IH [of u ins' outs] put_Some [OF Cons.prems(1) Some] show ?thesis by simp
    qed (use Put Cons in simp)
  next
    case Get
    show ?thesis
    proof (cases "get s")
      case (Some p)
      obtain x u where p: "p = (x, u)" by (cases p)
      with Get Some Cons.prems(2) obtain outs' where "history ops u = (ins, outs', t)" "outs = x # outs'"
        by (auto split: prod.splits)
      with Cons.IH [of u ins outs'] get_Some [OF Cons.prems(1) Some [unfolded p]] show ?thesis by simp
    qed (use Get Cons in simp)
  qed
qed simp

lemma history_bounded:
  assumes "inv s" and "history ops s = (ins, outs, t)"
  shows "length ins \<le> length outs + capacity"
proof -
  from history_order [OF assms] have t: "inv t" and e: "items s @ ins = outs @ items t"
    by auto
  have "length ins \<le> length (outs @ items t)"
    unfolding e [symmetric] by simp
  with bounded [OF t] show ?thesis by simp
qed

lemma get_in_order:
  assumes "inv s" and "items s = x # xs"
  shows "\<exists>t. get s = Some (x, t) \<and> inv t \<and> items t = xs"
  using assms get_Some get_None by (cases "get s") fastforce+

end

end
