(* ===== verification/Rx_Ring.thy ===== *)
theory Rx_Ring
  imports Rx_Aggregate Driver_Tx Fifo
begin

text \<open>
  The ring of asynchronous transfers as a queue of completed aggregates.

  \<^item> While every submission is accepted, the ring is a first-in first-out queue of three
    places: completions enter it in submission order, \<open>ax_rx_take_completed\<close> takes them out
    in the same order.
  \<^item> A submission that the host stack refuses leaves its slot idle, and no later operation
    submits it again: once it is that slot's turn, reception has stopped for good.
\<close>

section \<open>The ring as a queue\<close>

type_synonym transfer = "int \<times> u32 \<times> bytes"

definition is_done :: "'z drv_scheme \<Rightarrow> nat \<Rightarrow> bool" where
  "is_done s i \<longleftrightarrow> sl_state (rx_slot i s) = AX_RX_SLOT_DONE"

definition is_pending :: "'z drv_scheme \<Rightarrow> nat \<Rightarrow> bool" where
  "is_pending s i \<longleftrightarrow> sl_state (rx_slot i s) = AX_RX_SLOT_PENDING"

text \<open>The slots in submission order, oldest first.\<close>

definition ring_order :: "'z drv_scheme \<Rightarrow> nat list" where
  "ring_order s = (let c = rx_consume (the (axp s)) in [c, (c + 1) mod 3, (c + 2) mod 3])"

definition ring_item :: "'z drv_scheme \<Rightarrow> nat \<Rightarrow> transfer" where
  "ring_item s i = (sl_ret (rx_slot i s), sl_actual (rx_slot i s),
     take (unat (sl_actual (rx_slot i s))) (g_rx_async s ! i))"

definition ring_items :: "'z drv_scheme \<Rightarrow> transfer list" where
  "ring_items s = map (ring_item s) (takeWhile (is_done s) (ring_order s))"

text \<open>The host stack accepts every submission.\<close>

definition submits_ok :: "(call list \<Rightarrow> call \<Rightarrow> resp) \<Rightarrow> bool" where
  "submits_ok e \<longleftrightarrow> (\<forall>h ha ep d b n u. r_ret (e h (Uhs (UhsSubmitBulkRequestAsync ha ep d b n u))) = 0)"

definition ring_inv :: "'z drv_scheme \<Rightarrow> bool" where
  "ring_inv s \<longleftrightarrow> rx_inv s \<and> rx_async_started (the (axp s)) \<and> submits_ok (env s) \<and>
     list_all (is_pending s) (dropWhile (is_done s) (ring_order s))"

text \<open>The host stack completes the oldest transfer in flight; it refuses when none is.\<close>

definition ring_put :: "transfer \<Rightarrow> 'z drv_scheme \<Rightarrow> 'z drv_scheme option" where
  "ring_put x s = (case (x, dropWhile (is_done s) (ring_order s)) of
     ((ret, actual, bs), i # _) \<Rightarrow>
       if unat actual = length bs \<and> length bs \<le> RX_BUFFER_SIZE
       then Some (snd (run_state (rx_deliver \<lparr>ev_user = Some i, ev_buf = i, ev_ret = ret,
              ev_actual = actual, ev_bytes = bs\<rparr>) s))
       else None
   | (_, []) \<Rightarrow> None)"

text \<open>The driver takes the next completed transfer, if its slot is done.\<close>

definition ring_get :: "'z drv_scheme \<Rightarrow> (transfer \<times> 'z drv_scheme) option" where
  "ring_get s = (case takeWhile (is_done s) (ring_order s) of
     [] \<Rightarrow> None
   | i # _ \<Rightarrow> Some (ring_item s i, snd (run_state ax_rx_take_completed s)))"

lemma ring_basics:
  assumes "ring_inv s"
  obtains a where "axp s = Some a" "rx_consume a < 3" "rx_async_started a" "length (g_rx_slots s) = 3"
    "length (g_rx_async s) = 3" "\<And>i. i < 3 \<Longrightarrow> length (g_rx_async s ! i) = RX_BUFFER_SIZE"
    "\<And>i. i < 3 \<Longrightarrow> sl_ptr (rx_slot i s) = Some i"
proof -
  from assms obtain a where a: "axp s = Some a" "rx_consume a < 3" "rx_async_started a"
    and len: "length (g_rx_slots s) = 3" "map length (g_rx_async s) = replicate 3 26624"
    and ptr: "map sl_ptr (g_rx_slots s) = map Some [0..<3]"
    by (auto simp: ring_inv_def rx_inv_def bufs_ok_def rx_ax_ok_def)
  have l: "length (g_rx_async s) = 3"
    using len(2) by (metis length_map length_replicate)
  have "length (g_rx_async s ! i) = 26624" if "i < 3" for i
    using arg_cong [OF len(2), of "\<lambda>xs. xs ! i"] l that by simp
  moreover have "sl_ptr (rx_slot i s) = Some i" if "i < 3" for i
    using arg_cong [OF ptr, of "\<lambda>xs. xs ! i"] len(1) that by (simp add: rx_slot_def)
  ultimately show ?thesis
    using that a len(1) l by simp
qed

lemma ring_order_mod:
  assumes "rx_consume (the (axp s)) < 3"
  shows "distinct (ring_order s)" "set (ring_order s) = {0, 1, 2}"
proof -
  have "rx_consume (the (axp s)) \<in> {0, 1, 2}" using assms by auto
  then show "distinct (ring_order s)" "set (ring_order s) = {0, 1, 2}"
    by (auto simp: ring_order_def Let_def)
qed

lemma deliver_effect:
  assumes "i < 3" "length (g_rx_slots s) = 3" "length (g_rx_async s) = 3" "length bs \<le> RX_BUFFER_SIZE"
    and ptr: "sl_ptr (rx_slot i s) = Some i"
    and t: "t = snd (run_state (rx_deliver \<lparr>ev_user = Some i, ev_buf = i, ev_ret = ret,
              ev_actual = actual, ev_bytes = bs\<rparr>) s)"
  shows "axp t = axp s" "env t = env s"
    and "rx_slot j t = (if j = i then (rx_slot i s)\<lparr>sl_ret := ret, sl_actual := actual,
           sl_state := AX_RX_SLOT_DONE\<rparr> else rx_slot j s)"
    and "g_rx_async t ! j = (if j = i then memcpy_at 0 bs (g_rx_async s ! i) else g_rx_async s ! j)"
  using assms by (auto simp: runs rx_slot_def)

lemma takeWhile_extend:
  assumes "distinct xs" "dropWhile P xs = i # ys" "\<And>y. y \<in> set ys \<Longrightarrow> \<not> P y"
    and Q: "\<And>x. x \<in> set xs \<Longrightarrow> Q x \<longleftrightarrow> x = i \<or> P x"
  shows "takeWhile Q xs = takeWhile P xs @ [i]" "dropWhile Q xs = ys"
proof -
  let ?zs = "takeWhile P xs"
  have xs: "xs = ?zs @ i # ys"
    using assms(2) takeWhile_dropWhile_id [of P xs] by simp
  have in_xs: "set ?zs \<subseteq> set xs" "i \<in> set xs" "set ys \<subseteq> set xs"
    using set_takeWhileD by (fastforce, (subst xs, simp)+, auto)
  have zQ: "\<forall>z \<in> set ?zs. Q z"
    using Q in_xs(1) set_takeWhileD by fastforce
  have iQ: "Q i"
    using Q [of i] in_xs by simp
  have "i \<notin> set ys"
    using assms(1) by (subst (asm) xs) simp
  then have yQ: "\<forall>y \<in> set ys. \<not> Q y"
    using Q in_xs(3) assms(3) by auto
  have "takeWhile Q (?zs @ i # ys) = ?zs @ [i]" "dropWhile Q (?zs @ i # ys) = ys"
    using zQ iQ yQ by (simp_all add: takeWhile_append2 dropWhile_append2)
       (cases ys; simp)+
  then show "takeWhile Q xs = takeWhile P xs @ [i]" "dropWhile Q xs = ys"
    using xs by metis+
qed

lemma pending_not_done: "is_pending s i \<Longrightarrow> \<not> is_done s i"
  by (simp add: is_pending_def is_done_def)

lemma ring_put_Some:
  assumes inv: "ring_inv s" and put: "ring_put x s = Some t"
  shows "ring_inv t \<and> ring_items t = ring_items s @ [x]"
proof -
  obtain ret actual bs where x: "x = (ret, actual, bs)" by (cases x)
  obtain i ys where dw: "dropWhile (is_done s) (ring_order s) = i # ys"
    and len: "unat actual = length bs" "length bs \<le> RX_BUFFER_SIZE"
    and t: "t = snd (run_state (rx_deliver \<lparr>ev_user = Some i, ev_buf = i, ev_ret = ret,
              ev_actual = actual, ev_bytes = bs\<rparr>) s)"
    using put by (auto simp: ring_put_def x split: list.splits if_splits)
  obtain a where a: "axp s = Some a" "rx_consume a < 3" "length (g_rx_slots s) = 3"
    "length (g_rx_async s) = 3" "\<And>i. i < 3 \<Longrightarrow> length (g_rx_async s ! i) = RX_BUFFER_SIZE"
    "\<And>i. i < 3 \<Longrightarrow> sl_ptr (rx_slot i s) = Some i"
    using ring_basics [OF inv] by metis
  have ord: "distinct (ring_order s)" "set (ring_order s) = {0, 1, 2}"
    using ring_order_mod [of s] a by simp_all
  have "i \<in> set (ring_order s)"
    using dw by (metis list.set_intros(1) set_dropWhileD)
  then have i: "i < 3" using ord(2) by auto
  note eff = deliver_effect [OF i a(3,4) len(2) a(6) [OF i] t]
  have order: "ring_order t = ring_order s"
    by (simp add: ring_order_def eff)
  have dn: "is_done t j \<longleftrightarrow> j = i \<or> is_done s j" for j
    by (simp add: is_done_def eff)
  have pend: "list_all (is_pending s) (i # ys)"
    using inv dw by (simp add: ring_inv_def)
  then have nd: "\<not> is_done s y" if "y \<in> set (i # ys)" for y
    using that pending_not_done by (auto simp: list_all_iff)
  have i_notin: "i \<notin> set ys"
    using ord(1) dw by (metis distinct.simps(2) distinct_dropWhile)
  note tw = takeWhile_extend [OF ord(1) dw, of "is_done t"]
  have tw1: "takeWhile (is_done t) (ring_order s) = takeWhile (is_done s) (ring_order s) @ [i]"
    and dw1: "dropWhile (is_done t) (ring_order s) = ys"
    using tw nd dn by auto
  have item_i: "ring_item t i = x"
    using a(5) [OF i] len by (simp add: ring_item_def eff x memcpy_at_def)
  have "ring_item t j = ring_item s j" if "j \<in> set (takeWhile (is_done s) (ring_order s))" for j
    using that nd [of i] set_takeWhileD [of j] by (auto simp: ring_item_def eff)
  then have items: "ring_items t = ring_items s @ [x]"
    by (simp add: ring_items_def order tw1 item_i)
  have "rx_inv t"
    using inv keeps_run [OF rx_inv_deliver] by (auto simp: t ring_inv_def)
  moreover have "list_all (is_pending t) ys"
    using pend i_notin by (auto simp: list_all_iff is_pending_def eff)
  ultimately show ?thesis
    using inv items by (simp add: ring_inv_def order dw1 eff)
qed

lemma rx_header_frame:
  "rx_header g n c = Some (r, b) \<Longrightarrow> rx_consume b = rx_consume c \<and> rx_async_started b = rx_async_started c
     \<and> medium b = medium c"
  by (auto simp: rx_header_def Let_def split: option.splits if_splits)

lemma rearm_effect:
  assumes "submits_ok (env u)" "i < length (g_rx_slots u)"
  shows "wp (rx_rearm i) (\<lambda>_ t. axp t = axp u \<and> env t = env u \<and> g_rx t = g_rx u \<and>
     g_rx_async t = g_rx_async u \<and> g_rx_slots t = (g_rx_slots u)[i := (rx_slot i u)\<lparr>sl_ret := 0,
       sl_actual := 0, sl_state := AX_RX_SLOT_PENDING\<rparr>]) u"
  using assms
  by (simp add: rx_rearm_def ax_rx_submit_slot_def upd_slot_def wp rx_slot_def submits_ok_def)

text \<open>What taking a completed transfer does to the ring when the re-submission is accepted.\<close>

lemma take_effect:
  assumes inv: "ring_inv s" and a: "axp s = Some a" and dn: "is_done s (rx_consume a)"
  shows "wp ax_rx_take_completed (\<lambda>_ t. map_option rx_consume (axp t) = Some ((rx_consume a + 1) mod 3) \<and>
     map_option rx_async_started (axp t) = Some True \<and> env t = env s \<and>
     g_rx_async t = g_rx_async s \<and> g_rx_slots t = (g_rx_slots s)[rx_consume a :=
       (rx_slot (rx_consume a) s)\<lparr>sl_ret := 0, sl_actual := 0, sl_state := AX_RX_SLOT_PENDING\<rparr>]) s"
proof -
  define sl where "sl = rx_slot (rx_consume a) s"
  have st: "rx_async_started a" "rx_consume a < length (g_rx_slots s)" "submits_ok (env s)"
    "length (g_rx s) = RX_BUFFER_SIZE"
    using inv a by (auto simp: ring_inv_def rx_inv_def bufs_ok_def rx_ax_ok_def)
  have d: "sl_state sl = AX_RX_SLOT_DONE"
    using dn by (simp add: is_done_def sl_def)
  show ?thesis
  proof (cases "sl_ret sl < 0 \<or> sl_actual sl < 4 \<or> 26624 < sl_actual sl")
    case True
    then show ?thesis
      unfolding ax_rx_take_completed_def Let_def
      using a d st by (simp add: wp sl_def [symmetric])
        (intro impI conjI wp_mono [OF rearm_effect]; simp add: rx_slot_def sl_def)
  next
    case False
    then show ?thesis
      unfolding ax_rx_take_completed_def Let_def
      using a d st by (simp add: wp sl_def [symmetric])
        (intro wp_mono [OF rearm_effect]; auto simp: rx_slot_def sl_def wp dest!: rx_header_frame split: option.splits)
  qed
qed

lemma takeWhile_rotate:
  assumes "P x" and "list_all R (dropWhile P (x # xs))" and "\<And>y. R y \<Longrightarrow> \<not> P y"
    and "\<not> Q x" and "S x"
    and "\<And>y. y \<in> set xs \<Longrightarrow> Q y = P y" and "\<And>y. y \<in> set xs \<Longrightarrow> R y \<Longrightarrow> S y"
  shows "takeWhile P (x # xs) = x # takeWhile Q (xs @ [x])" "list_all S (dropWhile Q (xs @ [x]))"
proof -
  have "takeWhile Q xs = takeWhile P xs" "dropWhile Q xs = dropWhile P xs"
    using assms(6) by (auto intro: takeWhile_cong dropWhile_cong)
  moreover have "takeWhile Q (xs @ [x]) = takeWhile Q xs"
    using assms(4) by (induction xs) auto
  moreover have "dropWhile Q (xs @ [x]) = dropWhile Q xs @ [x]"
    using assms(4) by (induction xs) auto
  moreover have "list_all S (dropWhile P xs)"
    using assms(1,2,7) by (auto simp: list_all_iff dest: set_dropWhileD)
  ultimately show "takeWhile P (x # xs) = x # takeWhile Q (xs @ [x])" "list_all S (dropWhile Q (xs @ [x]))"
    using assms(1,5) by simp_all
qed

lemma ring_get_Some:
  assumes inv: "ring_inv s" and get: "ring_get s = Some (x, t)"
  shows "ring_inv t \<and> ring_items s = x # ring_items t"
proof -
  obtain a where a: "axp s = Some a" "rx_consume a < 3" "length (g_rx_slots s) = 3"
    using ring_basics [OF inv] by metis
  let ?c = "rx_consume a" and ?xs = "[(rx_consume a + 1) mod 3, (rx_consume a + 2) mod 3]"
  have ord: "ring_order s = ?c # ?xs" "distinct (?c # ?xs)"
    using ring_order_mod [of s] a by (simp_all add: ring_order_def Let_def)
  have dn: "is_done s ?c" and x: "x = ring_item s ?c" and t: "t = snd (run_state ax_rx_take_completed s)"
    using get ord(1) by (auto simp: ring_get_def split: list.splits if_splits)
  have eff: "map_option rx_consume (axp t) = Some ((?c + 1) mod 3)"
    "map_option rx_async_started (axp t) = Some True" "env t = env s" "g_rx_async t = g_rx_async s"
    "g_rx_slots t = (g_rx_slots s)[?c := (rx_slot ?c s)\<lparr>sl_ret := 0, sl_actual := 0,
       sl_state := AX_RX_SLOT_PENDING\<rparr>]"
    using take_effect [OF inv a(1) dn] by (simp_all add: wp_run_state t)
  have inv_t: "rx_inv t"
    using wp_take [of s] inv by (simp add: ring_inv_def wp_run_state t)
  have slot: "rx_slot j t = (if j = ?c then (rx_slot ?c s)\<lparr>sl_ret := 0, sl_actual := 0,
       sl_state := AX_RX_SLOT_PENDING\<rparr> else rx_slot j s)" for j
    using a by (simp add: rx_slot_def eff)
  have ord_t: "ring_order t = ?xs @ [?c]"
  proof -
    have "?c = 0 \<or> ?c = 1 \<or> ?c = 2" using a(2) by auto
    with eff(1) show ?thesis by (auto simp: ring_order_def Let_def)
  qed
  have D: "is_done t ?c = False" "is_pending t ?c" "\<And>y. y \<in> set ?xs \<Longrightarrow> is_done t y = is_done s y"
    "\<And>y. y \<in> set ?xs \<Longrightarrow> is_pending s y \<Longrightarrow> is_pending t y"
    using ord(2) by (auto simp: is_done_def is_pending_def slot)
  have p: "list_all (is_pending s) (dropWhile (is_done s) (?c # ?xs))"
    using inv ord by (simp add: ring_inv_def)
  have tw: "takeWhile (is_done s) (?c # ?xs) = ?c # takeWhile (is_done t) (?xs @ [?c])"
    and dw: "list_all (is_pending t) (dropWhile (is_done t) (?xs @ [?c]))"
    using takeWhile_rotate [where S = "is_pending t", OF dn p pending_not_done, of "is_done t"] D
    by (simp_all only: simp_thms)
  have "ring_item t j = ring_item s j" if "j \<in> set (takeWhile (is_done t) (?xs @ [?c]))" for j
    using that set_takeWhileD [of j "is_done t"] D(1) by (auto simp: ring_item_def slot eff)
  then have "ring_items s = x # ring_items t"
    unfolding ring_items_def ord_t ord tw by (simp add: x)
  with dw inv_t inv eff show ?thesis
    by (auto simp: ring_inv_def ord_t)
qed

lemma ring_get_None: "ring_get s = None \<Longrightarrow> ring_items s = []"
  by (auto simp: ring_get_def ring_items_def split: list.splits)

lemma ring_bounded: "length (ring_items s) \<le> RX_ASYNC_SLOTS"
  by (simp add: ring_items_def) (metis length_takeWhile_le ring_order_def length_Cons list.size(3) numeral_3_eq_3)

interpretation rq: fifo ring_inv ring_items ring_put ring_get RX_ASYNC_SLOTS
  by unfold_locales
     (erule (1) ring_put_Some, erule (1) ring_get_Some, erule ring_get_None, rule ring_bounded)

section \<open>A refused submission\<close>

text \<open>It is slot \<open>i\<close>'s turn, the slot is idle, and so the host stack, which holds no transfer
  for it, never completes it.\<close>

definition stalled :: "nat \<Rightarrow> 'z drv_scheme \<Rightarrow> bool" where
  "stalled i s \<longleftrightarrow> rx_inv s \<and> sl_state (rx_slot i s) = AX_RX_SLOT_IDLE \<and>
     (\<exists>a. axp s = Some a \<and> rx_async_started a \<and> rx_consume a = i) \<and>
     (\<forall>h c. \<forall>e \<in> set (r_rx (env s h c)). ev_user e \<noteq> Some i)"

text \<open>The operations of the driver between open and close, and the completions the host stack
  delivers between them: those of transfers it holds.\<close>

datatype rx_action = Receive bool int int | Buffered bool int | Link | Send "bytes option" | Complete rx_event

inductive rx_step :: "'z drv_scheme \<Rightarrow> rx_action \<Rightarrow> 'z drv_scheme \<Rightarrow> bool" where
  receive: "rx_step s (Receive f m us) (snd (run_state (ax88179_receive f m us) s))"
| buffered: "rx_step s (Buffered f m) (snd (run_state (ax88179_receive_buffered f m) s))"
| link: "rx_step s Link (snd (run_state ax88179_link s))"
| send: "rx_step s (Send fr) (snd (run_state (ax88179_send fr) s))"
| complete: "ev_user e = Some j \<Longrightarrow> is_pending s j \<Longrightarrow>
    rx_step s (Complete e) (snd (run_state (rx_deliver e) s))"

inductive rx_steps :: "'z drv_scheme \<Rightarrow> rx_action list \<Rightarrow> 'z drv_scheme \<Rightarrow> bool" where
  nil: "rx_steps s [] s"
| cons: "rx_step s x t \<Longrightarrow> rx_steps t xs u \<Longrightarrow> rx_steps s (x # xs) u"

inductive_cases rx_stepE: "rx_step s x t"
inductive_simps rx_steps_simps: "rx_steps s [] t" "rx_steps s (x # xs) t"

text \<open>Stalled, with \<open>n\<close> transfers submitted since the beginning.\<close>

definition stuck :: "nat \<Rightarrow> nat \<Rightarrow> 'z drv_scheme \<Rightarrow> bool" where
  "stuck i n s \<longleftrightarrow> stalled i s \<and> calls is_rx_submit s = n"

lemma rx_inv_frame: "ctl_frame t = ctl_frame s \<Longrightarrow> rx_inv s \<Longrightarrow> rx_inv t"
proof -
  assume fr: "ctl_frame t = ctl_frame s" and "rx_inv s"
  then obtain a where a: "axp s = Some a" "rx_ax_ok s a" "bufs_ok s"
    by (auto simp: rx_inv_def)
  obtain b where b: "axp t = Some b" "core b = core a"
    using fr a(1) by (auto simp: ctl_frame_def)
  have sel: "f (core b) = f (core a)" for f :: "ax88179 \<Rightarrow> 'x"
    using b(2) by simp
  have "rx_next b = rx_next a" "rx_pos b = rx_pos a" "rx_frames b = rx_frames a"
    "rx_hdr_offset b = rx_hdr_offset a" "rx_consume b = rx_consume a"
    "rx_async_started b = rx_async_started a"
    using sel [of rx_next] sel [of rx_pos] sel [of rx_frames] sel [of rx_hdr_offset]
      sel [of rx_consume] sel [of rx_async_started] by simp_all
  with fr a b show ?thesis
    by (auto simp: ctl_frame_def rest_def rx_inv_def bufs_ok_def rx_ax_ok_def par_ok_def)
qed

lemma stuck_frame:
  assumes fr: "ctl_frame t = ctl_frame s" and st: "stuck i n s"
  shows "stuck i n t"
proof -
  obtain a where a: "axp s = Some a" "rx_async_started a" "rx_consume a = i"
    using st by (auto simp: stuck_def stalled_def)
  obtain b where b: "axp t = Some b" "core b = core a"
    using fr a(1) by (auto simp: ctl_frame_def)
  have "rx_consume (core b) = rx_consume (core a)" "rx_async_started (core b) = rx_async_started (core a)"
    using b(2) by simp_all
  then have "rx_async_started b \<and> rx_consume b = i"
    using a by simp
  with st fr b rx_inv_frame [OF fr] show ?thesis
    by (auto simp: stuck_def stalled_def ctl_frame_def rest_def rx_slot_def)
qed

lemma stuck_of_frame: "preserves ctl_frame m \<Longrightarrow> keeps (stuck i n) m"
  by (rule keepsI) (auto elim!: wp_preserves stuck_frame)

lemma stuck_upd_ax:
  assumes "\<And>g a. par_ok g a \<Longrightarrow> par_ok g (f a)" "\<And>a. rx_consume (f a) = rx_consume a"
    "\<And>a. rx_async_started (f a) = rx_async_started a"
  shows "keeps (stuck i n) (upd_ax f)"
  using assms
  by (auto simp: keeps_def wp stuck_def stalled_def rx_inv_def bufs_ok_def rx_ax_ok_def rx_slot_def)

lemma stuck_modify:
  "keeps (stuck i n) (modify (\<lambda>s. s\<lparr>debug_last_link := l\<rparr>))"
  "keeps (stuck i n) (modify (\<lambda>s. s\<lparr>g_tx := g\<rparr>))"
  by (auto intro!: keeps_modify simp: stuck_def stalled_def rx_inv_def bufs_ok_def rx_ax_ok_def rx_slot_def)

lemma stuck_ext: "\<not> is_rx_submit c \<Longrightarrow> keeps (stuck i n) (ext c)"
  by (auto simp: keeps_def wp stuck_def stalled_def rx_inv_def bufs_ok_def rx_ax_ok_def rx_slot_def)

lemmas stuck_prims = stuck_of_frame [OF frame_only_regs(1)] stuck_of_frame [OF frame_only_regs(2)]
  stuck_of_frame [OF frame_only_regs(3)] stuck_of_frame [OF frame_only_mac(2)]
  stuck_of_frame [OF frame_only_wait_fifo] stuck_modify stuck_ext stuck_upd_ax

lemma stuck_link: "keeps (stuck i n) ax88179_link"
  unfolding ax88179_link_def link_apply_def link_reconfigure_def
  by (intro keeps stuck_prims) (auto simp: par_ok_def)

lemma stuck_send: "keeps (stuck i n) (ax88179_send fr)"
  unfolding ax88179_send_def
  by (intro keeps stuck_prims) (auto simp: par_ok_def)

lemma stuck_impl: "keeps (stuck i n) (ax88179_receive_buffered_impl f m)"
proof (rule keepsI)
  fix s :: "'z drv_scheme" assume st: "stuck i n s"
  then obtain a where a: "axp s = Some a" "par_ok (g_rx s) a" "rx_async_started a" "rx_consume a = i"
    by (auto simp: stuck_def stalled_def rx_inv_def rx_ax_ok_def)
  obtain r b where l: "rx_loop (g_rx s) m a = (r, b)"
    by fastforce
  note safe = rx_loop_safe [OF a(2), of m, unfolded l fst_conv snd_conv]
  then have "rx_inv (s\<lparr>axp := Some b\<rparr>)"
    using st a parsed_parts [of b a] by (intro rx_inv_parser [of s a]) (auto simp: stuck_def stalled_def)
  then have "stuck i n (s\<lparr>axp := Some b\<rparr>)"
    using st a safe parsed_parts [of b a] by (auto simp: stuck_def stalled_def rx_slot_def)
  then show "wp (ax88179_receive_buffered_impl f m) (\<lambda>_. stuck i n) s"
    unfolding ax88179_receive_buffered_impl_def using st a l by (simp add: wp)
qed

lemma stuck_take: "stuck i n s \<Longrightarrow> run_state ax_rx_take_completed s = (Some 0, s)"
  by (auto simp: stuck_def stalled_def runs)

lemma stuck_deliver:
  assumes "ev_user e \<noteq> Some i"
  shows "keeps (stuck i n) (rx_deliver e)"
proof (rule keepsI)
  fix s :: "'z drv_scheme" assume st: "stuck i n s"
  have inv: "wp (rx_deliver e) (\<lambda>_. rx_inv) s"
    using st keepsD [OF rx_inv_deliver] by (auto simp: stuck_def stalled_def)
  have "wp (rx_deliver e) (\<lambda>_ t. axp t = axp s \<and> env t = env s \<and> rx_slot i t = rx_slot i s \<and>
      calls is_rx_submit t = calls is_rx_submit s) s"
    using assms by (auto simp: rx_deliver_def ax_rx_async_callback_def upd_slot_def rx_slot_def wp split: option.split)
  with inv have "wp (rx_deliver e) (\<lambda>_ t. rx_inv t \<and> axp t = axp s \<and> env t = env s \<and>
      rx_slot i t = rx_slot i s \<and> calls is_rx_submit t = calls is_rx_submit s) s"
    by (rule wp_conj)
  then show "wp (rx_deliver e) (\<lambda>_. stuck i n) s"
    by (rule wp_mono) (use st in \<open>auto simp: stuck_def stalled_def\<close>)
qed

lemma stuck_wait: "keeps (stuck i n) (rx_wait us)"
proof (rule keepsI)
  fix s :: "'z drv_scheme" assume st: "stuck i n s"
  let ?c = "Os (OSWaitEventWithTimeout us)"
  have "wp (ext ?c) (\<lambda>r t. stuck i n t \<and> (\<forall>e \<in> set (r_rx r). ev_user e \<noteq> Some i)) s"
    using st keepsD [OF stuck_ext, of ?c i n s] by (simp add: wp stuck_def stalled_def)
  then show "wp (rx_wait us) (\<lambda>_. stuck i n) s"
    unfolding rx_wait_def
    by (rule wp_bind_I) (auto intro!: keepsD [OF keeps_for_each] stuck_deliver)
qed

lemma stuck_take_or_wait:
  assumes "stuck i n s"
  shows "wp (take_or_wait us) (\<lambda>r t. r = Some 0 \<and> stuck i n t) s"
proof -
  have "wp (rx_wait us) (\<lambda>_ t. wp ax_rx_take_completed (\<lambda>r t. r = Some 0 \<and> stuck i n t) t) s"
    by (rule wp_mono [OF keepsD [OF stuck_wait assms]]) (simp add: wp_run_state stuck_take)
  then show ?thesis
    using stuck_take [OF assms] assms
    by (simp add: take_or_wait_def wp) (simp add: wp_run_state)
qed

lemma stuck_ring:
  assumes "stuck i n s"
  shows "wp (receive_ring f m us) (\<lambda>r t. r = Some (0, []) \<and> stuck i n t) s"
proof -
  have "rx_async_started (the (axp s))"
    using assms by (auto simp: stuck_def stalled_def)
  then show ?thesis
    unfolding receive_ring_def receive_loaded_def
    by (simp add: wp) (rule wp_mono [OF stuck_take_or_wait [OF assms]], simp add: wp)
qed

lemma stuck_receive: "keeps (stuck i n) (ax88179_receive f m us)"
proof -
  have "keeps (stuck i n) (receive_ring f m us)"
    by (rule keepsI) (auto elim: wp_mono [OF stuck_ring])
  then show ?thesis
    unfolding ax88179_receive_def by (intro keeps stuck_impl)
qed

lemma stuck_step: "rx_step s x t \<Longrightarrow> stuck i n s \<Longrightarrow> stuck i n t"
proof (erule rx_stepE)
  fix e j assume "t = snd (run_state (rx_deliver e) s)" "ev_user e = Some j" "is_pending s j" "stuck i n s"
  moreover from this have "j \<noteq> i"
    by (auto simp: stuck_def stalled_def is_pending_def)
  ultimately show "stuck i n t"
    using keeps_run [OF stuck_deliver, of e i n s] by auto
qed (auto simp: ax88179_receive_buffered_def
      intro: keeps_run [OF stuck_receive] keeps_run [OF stuck_impl] keeps_run [OF stuck_link] keeps_run [OF stuck_send])

lemma stuck_steps: "rx_steps s xs t \<Longrightarrow> stuck i n s \<Longrightarrow> stuck i n t"
  by (induction rule: rx_steps.induct) (auto dest: stuck_step)

lemma stuck_receive_nothing:
  assumes "stuck i n s" and "axp s = Some a" and "rx_frames a \<le> rx_next a" and "14 \<le> m"
  shows "fst (run_state (ax88179_receive f m us) s) \<in> {Some (0, []), Some (- 1, [])}"
proof -
  have l: "rx_loop (g_rx s) m a = (Some (0, []), a)"
    using assms(3) by (simp add: rx_loop.simps)
  have "wp (ax88179_receive_buffered_impl f m) (\<lambda>r t. r = Some (0, []) \<and> t = s) s" if f
    using that assms l by (simp add: ax88179_receive_buffered_impl_def wp)
  then have "wp (ax88179_receive f m us) (\<lambda>r t. r \<in> {Some (0, []), Some (- 1, [])}) s"
    unfolding ax88179_receive_def
    using assms stuck_ring [OF assms(1), of f m us]
    by (auto simp: wp elim!: wp_mono)
  then show ?thesis by (simp add: wp_run_state)
qed

section \<open>Properties\<close>

text \<open>C6. While submissions are accepted, the ring neither loses, duplicates nor reorders
  transfers: over any interleaving of completions and takes, the transfers completed so far
  (with those already waiting) are those taken, in order, followed by those still waiting; and
  at most three wait.\<close>

theorem rx_ring_fifo:
  assumes "ring_inv s" and "rq.history ops s = (ins, outs, t)"
  shows "ring_inv t \<and> ring_items s @ ins = outs @ ring_items t \<and> length ins \<le> length outs + 3"
  using rq.history_order [OF assms] rq.history_bounded [OF assms] by simp

lemma demo_ring_ring_inv:
  "length bs \<le> 26624 \<Longrightarrow> submits_ok e \<Longrightarrow> ring_inv (demo_ring AX_RX_SLOT_PENDING e bs)"
  by (simp add: ring_inv_def demo_ring_inv)
     (simp add: demo_ring_def ax_zero_def ring_order_def is_done_def is_pending_def rx_slot_def)

lemmas ring_eval = demo_ring_def ax_zero_def ring_order_def ring_item_def rx_slot_def is_done_def
  is_pending_def resp0_def

theorem rx_ring_fifo_witness:
  "\<exists>t. rq.history [Put (0, 1, [7]), Put (0, 2, [8, 9]), Get, Get]
      (demo_ring AX_RX_SLOT_PENDING (\<lambda>_ _. resp0) []) =
     ([(0, 1, [7]), (0, 2, [8, 9])], [(0, 1, [7]), (0, 2, [8, 9])], t) \<and> ring_items t = []"
proof -
  let ?s = "demo_ring AX_RX_SLOT_PENDING (\<lambda>_ _. resp0) []"
  let ?ops = "[Put (0, 1, [7]), Put (0, 2, [8, 9]), Get, Get]"
  obtain ins outs t where h: "rq.history ?ops ?s = (ins, outs, t)"
    by (metis prod.exhaust)
  have inv: "ring_inv ?s"
    by (rule demo_ring_ring_inv) (simp_all add: submits_ok_def resp0_def)
  have "ins = [(0, 1, [7]), (0, 2, [8, 9])]" "outs = [(0, 1, [7]), (0, 2, [8, 9])]" "ring_items ?s = []"
    using h by (auto simp: ring_put_def ring_get_def runs ring_items_def ring_eval memcpy_at_def)
  with rx_ring_fifo [OF inv h] h show ?thesis by simp
qed


text \<open>The host stack reports an error for each transfer and refuses each new one.\<close>

definition refusing :: "call list \<Rightarrow> call \<Rightarrow> resp" where
  "refusing h c = resp0\<lparr>r_ret := - 1\<rparr>"

definition failed :: "nat \<Rightarrow> rx_event" where
  "failed i = \<lparr>ev_user = Some i, ev_buf = i, ev_ret = - 1, ev_actual = 0, ev_bytes = []\<rparr>"

definition stall_run :: "rx_action list" where
  "stall_run = [Complete (failed 0), Receive True 1536 0, Complete (failed 1), Receive True 1536 0,
     Complete (failed 2), Receive True 1536 0]"

lemma rx_inv_receive: "keeps rx_inv (ax88179_receive f m us)"
  by (rule keepsI) (auto elim: wp_mono [OF wp_receive])

lemma stall_reached:
  "\<exists>t a. rx_steps (demo_ring AX_RX_SLOT_PENDING refusing []) stall_run t \<and> stalled 0 t \<and>
     axp t = Some a \<and> rx_frames a \<le> rx_next a"
proof -
  let ?s0 = "demo_ring AX_RX_SLOT_PENDING refusing []"
  let ?c = "\<lambda>i s. snd (run_state (rx_deliver (failed i)) s)"
  let ?r = "\<lambda>s. snd (run_state (ax88179_receive True 1536 0) s)"
  let ?t = "?r (?c 2 (?r (?c 1 (?r (?c 0 ?s0)))))"
  note ev = runs ring_eval refusing_def failed_def rx_loop.simps
  have p: "is_pending ?s0 0" "is_pending (?r (?c 0 ?s0)) 1" "is_pending (?r (?c 1 (?r (?c 0 ?s0)))) 2"
    by (simp_all add: ev)
  have steps: "rx_steps ?s0 stall_run ?t"
    unfolding stall_run_def rx_steps_simps
    using p by (auto intro!: exI rx_step.intros simp: failed_def)
  have "rx_inv ?t"
    by (intro keeps_run [OF rx_inv_deliver] keeps_run [OF rx_inv_receive] demo_ring_inv) simp
  moreover have "sl_state (rx_slot 0 ?t) = AX_RX_SLOT_IDLE \<and> (\<exists>a. axp ?t = Some a \<and> rx_async_started a \<and>
     rx_consume a = 0 \<and> rx_frames a \<le> rx_next a) \<and> env ?t = refusing"
    by (simp add: ev)
  ultimately show ?thesis
    using steps by (auto simp: stalled_def refusing_def resp0_def)
qed


end
