(* ===== verification/Ax_Net.thy ===== *)
theory Ax_Net
  imports Rx_Aggregate Driver_Tx Fifo
begin

text \<open>
  The network layer of \<^verbatim>\<open>net/ax_net.c\<close>: it binds the driver to lwIP's one interface, moves
  frames both ways, follows the link and keeps a DHCP lease across titles.

  lwIP and the message queue are outside the model; the calls to them are in the history. The
  device pointer kept in \<open>iface.state\<close> is the driver's one instance, so \<open>if_state\<close> only
  says whether it is set. The formatted status line is not modelled.
\<close>

section \<open>State\<close>

abbreviation (input) "TX_SLOTS \<equiv> (32 :: nat)"
abbreviation (input) "TX_SLOT_SIZE \<equiv> (1600 :: nat)"
abbreviation (input) "ERR_OK \<equiv> (0 :: int)"
abbreviation (input) "ERR_MEM \<equiv> (- 1 :: int)"
abbreviation (input) "ERR_BUF \<equiv> (- 2 :: int)"
abbreviation (input) "ERR_IF \<equiv> (- 12 :: int)"
abbreviation (input) "ERR_ARG \<equiv> (- 16 :: int)"

text \<open>The fields of lwIP's \<open>struct netif\<close> this layer writes.\<close>

record netif =
  if_state :: bool
  if_hostname :: string
  if_hwaddr :: bytes
  if_mtu :: nat
  if_flags :: u8

definition netif0 :: netif where
  "netif0 = \<lparr>if_state = False, if_hostname = [], if_hwaddr = [], if_mtu = 0, if_flags = 0\<rparr>"

record net = drv +
  ax_progress :: u32
  iface :: netif
  rx_frame :: bytes
  tx_pool :: "bytes list"
  tx_in_use :: "bool list"
  initialized :: bool
  active :: bool
  link_errors :: nat
  last_link_up :: int
  netif_in_list :: bool
  session_lease_mode :: bool
  session_lease_valid :: bool
  session_ip :: u32
  session_netmask :: u32
  session_gateway :: u32
  current_using_cached_lease :: bool
  last_link :: u32
  address_set :: bool
  stat_rx_ok :: u32
  stat_rx_err :: u32
  stat_tx_q :: u32
  stat_tx_drop :: u32
  stat_tx_ok :: u32
  stat_tx_err :: u32
  stat_in_ok :: u32
  stat_in_drop :: u32
  stat_beats :: u32
  stat_rx_idle :: u32

definition lwip :: "lwip_call \<Rightarrow> ('z drv_scheme, resp) state" where
  "lwip c = ext (Lwip c)"

definition lwip_do :: "lwip_call \<Rightarrow> ('z drv_scheme, unit) state" where
  "lwip_do c = do { lwip c; return () }"

definition lwip_nz :: "lwip_call \<Rightarrow> ('z drv_scheme, bool) state" where
  "lwip_nz c = do { r \<leftarrow> lwip c; return (r_ret r \<noteq> 0) }"

definition lwip_val :: "lwip_call \<Rightarrow> ('z drv_scheme, u32) state" where
  "lwip_val c = do { r \<leftarrow> lwip c; return (r_val r) }"

definition ax_mark :: "nat \<Rightarrow> ('z net_scheme, unit) state" where
  "ax_mark n = modify (\<lambda>s. s\<lparr>ax_progress := ax_progress s OR bitm n\<rparr>)"

definition beat_cb :: "('z net_scheme, unit) state" where
  "beat_cb = do {
     modify (\<lambda>s. s\<lparr>stat_beats := stat_beats s + 1\<rparr>);
     lwip_do (Sys_timeout 500) }"

section \<open>Outgoing frames\<close>

text \<open>A packet buffer: its total length and the bytes of its chain.\<close>

record pbuf =
  tot_len :: u16
  payload :: bytes

text \<open>The first free slot is taken by compare-and-exchange.\<close>

fun claim_from :: "nat \<Rightarrow> bool list \<Rightarrow> nat option" where
  "claim_from i [] = None"
| "claim_from i (u # us) = (if \<not> u then Some i else claim_from (Suc i) us)"

definition claim_slot :: "('z net_scheme, nat option) state" where
  "claim_slot = do {
     us \<leftarrow> gets tx_in_use;
     case claim_from 0 (take TX_SLOTS us) of None \<Rightarrow> return None
     | Some i \<Rightarrow> do {
         modify (\<lambda>s. s\<lparr>tx_in_use := (tx_in_use s)[i := True]\<rparr>);
         return (Some i) } }"

definition free_slot :: "nat \<Rightarrow> ('z net_scheme, unit) state" where
  "free_slot i = modify (\<lambda>s. s\<lparr>tx_in_use := (tx_in_use s)[i := False]\<rparr>)"

text \<open>\<open>pbuf_copy_partial(p, tx_pool[slot], p->tot_len, 0)\<close>: the number of bytes copied.\<close>

definition copy_frame :: "pbuf \<Rightarrow> nat \<Rightarrow> ('z net_scheme, nat) state" where
  "copy_frame p slot = do {
     let bs = take (unat (tot_len p)) (payload p);
     modify (\<lambda>s. s\<lparr>tx_pool := (tx_pool s)[slot := memcpy_at 0 bs (tx_pool s ! slot)]\<rparr>);
     return (length bs) }"

definition post_frame :: "nat \<Rightarrow> nat \<Rightarrow> ('z net_scheme, int) state" where
  "post_frame slot len = do {
     r \<leftarrow> ext (Os (OSSendMessage slot len));
     if r_ret r = 0 then do {
       free_slot slot;
       modify (\<lambda>s. s\<lparr>stat_tx_drop := stat_tx_drop s + 1\<rparr>);
       return ERR_MEM }
     else do {
       modify (\<lambda>s. s\<lparr>stat_tx_q := stat_tx_q s + 1\<rparr>);
       return ERR_OK } }"

definition send_frame :: "pbuf \<Rightarrow> ('z net_scheme, int) state" where
  "send_frame p =
     (if unat (tot_len p) > TX_SLOT_SIZE then return ERR_BUF
      else do {
        slot \<leftarrow> claim_slot;
        case slot of
          None \<Rightarrow> do {
            modify (\<lambda>s. s\<lparr>stat_tx_drop := stat_tx_drop s + 1\<rparr>);
            return ERR_MEM }
        | Some i \<Rightarrow> do {
            n \<leftarrow> copy_frame p i;
            if n \<noteq> unat (tot_len p) then do { free_slot i; return ERR_BUF }
            else post_frame i (unat (tot_len p)) } })"

text \<open>One round of \<open>drain_tx\<close>, and the loop. A round that finds the queue empty answers
  \<open>False\<close>. The frame is sent from its slot before the slot is freed. The fuel bounds the
  rounds; \<open>None\<close> is running out of it.\<close>

definition drain_one :: "bool \<Rightarrow> ('z net_scheme, bool) state" where
  "drain_one snd' = do {
     r \<leftarrow> ext (Os OSReceiveMessage);
     if r_ret r = 0 then return False
     else do {
       let (slot, len) = r_msg r;
       (if snd' then do {
         pool \<leftarrow> gets tx_pool;
         k \<leftarrow> ax88179_send (Some (take len (pool ! slot)));
         (if k = Some 0 then modify (\<lambda>s. s\<lparr>stat_tx_ok := stat_tx_ok s + 1\<rparr>)
          else modify (\<lambda>s. s\<lparr>stat_tx_err := stat_tx_err s + 1\<rparr>)) }
        else return ());
       free_slot slot;
       return True } }"

fun drain_tx :: "nat \<Rightarrow> bool \<Rightarrow> ('z net_scheme, unit option) state" where
  "drain_tx 0 snd' = return None"
| "drain_tx (Suc k) snd' = do {
     more \<leftarrow> drain_one snd';
     if more then drain_tx k snd' else return (Some ()) }"

section \<open>Bringing the interface up\<close>

definition init_interface :: "('z net_scheme, int) state" where
  "init_interface = do {
     m \<leftarrow> ax88179_mac;
     modify (\<lambda>s. s\<lparr>iface := (iface s)\<lparr>if_hostname := ''wiiu-ax88179'', if_hwaddr := take 6 (the m),
       if_mtu := 1500, if_flags := 0x02 OR 0x08 OR 0x10 OR 0x20\<rparr>\<rparr>);
     return ERR_OK }"

definition remove_leftover :: "('z net_scheme, unit) state" where
  "remove_leftover = do {
     d \<leftarrow> lwip_nz Netif_dhcp_data;
     whenM d (do { lwip_do Dhcp_stop; lwip_do Dhcp_cleanup });
     lwip_do Netif_remove;
     modify (\<lambda>s. s\<lparr>netif_in_list := False\<rparr>) }"

text \<open>The parts of \<open>setup_netif\<close>. lwIP's \<open>netif_add\<close> stores the state pointer and calls
  \<open>init_interface\<close> before it answers with the interface.\<close>

definition add_netif :: "('z net_scheme, bool) state" where
  "add_netif = do {
     modify (\<lambda>s. s\<lparr>iface := netif0\<rparr>);
     ok \<leftarrow> lwip_nz Netif_add;
     if \<not> ok then return False else do {
     modify (\<lambda>s. s\<lparr>iface := (iface s)\<lparr>if_state := True\<rparr>\<rparr>);
     init_interface;
     modify (\<lambda>s. s\<lparr>netif_in_list := True\<rparr>);
     return True }}"

definition raise_netif :: "bool \<Rightarrow> ('z net_scheme, unit) state" where
  "raise_netif link_up = do {
     ax_mark 9;
     lwip_do Netif_set_default;
     lwip_do Netif_set_up;
     whenM link_up (lwip_do Netif_set_link_up) }"

text \<open>The result tells whether DHCP could not be started.\<close>

definition address_netif :: "bool \<Rightarrow> ('z net_scheme, bool) state" where
  "address_netif restore_lease =
     (if restore_lease then do {
        s \<leftarrow> gets id;
        lwip_do (Netif_set_addr (session_ip s) (session_netmask s) (session_gateway s));
        return False }
      else do {
        d \<leftarrow> lwip Dhcp_start;
        return (r_ret d \<noteq> ERR_OK) })"

definition undo_netif :: "('z net_scheme, unit) state" where
  "undo_netif = do {
     lwip_do Dhcp_cleanup;
     lwip_do Netif_remove;
     modify (\<lambda>s. s\<lparr>netif_in_list := False\<rparr>) }"

text \<open>The result is \<open>c->err\<close>.\<close>

definition setup_netif :: "bool \<Rightarrow> bool \<Rightarrow> ('z net_scheme, int) state" where
  "setup_netif link_up restore_lease = do {
     ax_mark 8;
     inl \<leftarrow> gets netif_in_list;
     whenM inl remove_leftover;
     ok \<leftarrow> add_netif;
     if \<not> ok then return ERR_IF else do {
     raise_netif link_up;
     failed \<leftarrow> address_netif restore_lease;
     if failed then do { undo_netif; return ERR_IF }
     else do {
       whenM (\<not> restore_lease) (ax_mark 10);
       lwip_do (Sys_timeout 500);
       return ERR_OK }}}"

definition init_stack :: "('z net_scheme, unit) state" where
  "init_stack = do {
     modify (\<lambda>s. s\<lparr>tx_in_use := replicate TX_SLOTS False\<rparr>);
     ext (Os (OSInitMessageQueue TX_SLOTS));
     ax_mark 4;
     lwip_do Tcpip_init;
     ax_mark 5;
     modify (\<lambda>s. s\<lparr>initialized := True\<rparr>) }"

text \<open>\<open>ax_net_start\<close> once it is known whether the cached lease is used.\<close>

definition start_iface :: "bool \<Rightarrow> ('z net_scheme, int) state" where
  "start_iface restore = do {
     modify (\<lambda>s. s\<lparr>current_using_cached_lease := restore\<rparr>);
     (l, speed) \<leftarrow> ax88179_link;
     lwip_do Lock_tcpip_core;
     err \<leftarrow> setup_netif (l = 1) restore;
     lwip_do Unlock_tcpip_core;
     if err \<noteq> ERR_OK then return (- 1) else do {
     modify (\<lambda>s. s\<lparr>active := True, address_set := False\<rparr>);
     now \<leftarrow> lwip_val Sys_now;
     modify (\<lambda>s. s\<lparr>last_link := now, last_link_up := (if l = 1 then 1 else 0), link_errors := 0\<rparr>);
     return 0 }}"

definition ax_net_start :: "('z net_scheme, int) state" where
  "ax_net_start = do {
     a \<leftarrow> gets active;
     p \<leftarrow> gets axp;
     if a \<or> p = None then return (- 1) else do {
     ini \<leftarrow> gets initialized;
     whenM (\<not> ini) init_stack;
     restore \<leftarrow> gets (\<lambda>s. session_lease_mode s \<and> session_lease_valid s);
     start_iface restore }}"

section \<open>Polling\<close>

definition set_link :: "bool \<Rightarrow> ('z net_scheme, unit) state" where
  "set_link up = do {
     lwip_do Lock_tcpip_core;
     (if up then lwip_do Netif_set_link_up else lwip_do Netif_set_link_down);
     lwip_do Unlock_tcpip_core }"

definition input_rx_frame :: "bytes \<Rightarrow> ('z net_scheme, unit) state" where
  "input_rx_frame bs = do {
     modify (\<lambda>s. s\<lparr>stat_rx_ok := stat_rx_ok s + 1\<rparr>);
     p \<leftarrow> lwip_nz (Pbuf_alloc (length bs));
     if \<not> p then modify (\<lambda>s. s\<lparr>stat_in_drop := stat_in_drop s + 1\<rparr>)
     else do {
       t \<leftarrow> lwip (Pbuf_take bs);
       bad \<leftarrow> (if r_ret t \<noteq> ERR_OK then return True
                else do { i \<leftarrow> lwip (Netif_input bs); return (r_ret i \<noteq> ERR_OK) });
       if bad then do {
         modify (\<lambda>s. s\<lparr>stat_in_drop := stat_in_drop s + 1\<rparr>);
         lwip_do Pbuf_free }
       else modify (\<lambda>s. s\<lparr>stat_in_ok := stat_in_ok s + 1\<rparr>) } }"

text \<open>The link poll, every 500 ms by the 32-bit clock. The result tells whether
  \<open>ax_net_poll\<close> returns - 2.\<close>

definition poll_link :: "('z net_scheme, bool) state" where
  "poll_link = do {
     now \<leftarrow> lwip_val Sys_now;
     due \<leftarrow> gets (\<lambda>s. now - last_link s \<ge> 500);
     if \<not> due then return False else do {
     (up, speed) \<leftarrow> ax88179_link;
     modify (\<lambda>s. s\<lparr>last_link := now\<rparr>);
     whenM (up = 1) (ax_mark 13);
     was \<leftarrow> gets last_link_up;
     whenM (up \<ge> 0 \<and> up \<noteq> was) (do {
       set_link (up \<noteq> 0);
       modify (\<lambda>s. s\<lparr>last_link_up := up\<rparr>) });
     modify (\<lambda>s. s\<lparr>link_errors := (if up < 0 then link_errors s + 1 else 0)\<rparr>);
     errs \<leftarrow> gets link_errors;
     if errs \<ge> 3 then do {
       was2 \<leftarrow> gets last_link_up;
       whenM (was2 \<noteq> 0) (do {
         set_link False;
         modify (\<lambda>s. s\<lparr>last_link_up := 0\<rparr>) });
       return True }
     else return False }}"

definition count_rx_err :: "('z net_scheme, unit) state" where
  "count_rx_err = modify (\<lambda>s. s\<lparr>stat_rx_err := stat_rx_err s + 1\<rparr>)"

text \<open>The loop after a first frame. \<open>arr\<close> are the completions the host stack delivers on its
  own thread before each further receive; \<open>None\<close> is a fault or running out of fuel.\<close>

fun rx_more :: "nat \<Rightarrow> rx_event list list \<Rightarrow> ('z net_scheme, unit option) state" where
  "rx_more 0 arr = return None"
| "rx_more (Suc k) arr = do {
     for_each (case arr of [] \<Rightarrow> [] | es # _ \<Rightarrow> es) rx_deliver;
     r \<leftarrow> ax88179_receive True 1600 0;
     case r of None \<Rightarrow> return None
     | Some (n, bs) \<Rightarrow>
         if n > 0 then do { input_rx_frame bs; rx_more k (tl arr) }
         else do { whenM (n < 0) count_rx_err; return (Some ()) } }"

definition poll_rx :: "nat \<Rightarrow> rx_event list list \<Rightarrow> ('z net_scheme, int option) state" where
  "poll_rx fuel arr = do {
     r \<leftarrow> ax88179_receive True 1600 5000;
     case r of None \<Rightarrow> return None
     | Some (n, bs) \<Rightarrow>
         if n > 0 then do {
           input_rx_frame bs;
           k \<leftarrow> rx_more fuel arr;
           return (map_option (\<lambda>_. n) k) }
         else if n < 0 then do { count_rx_err; return (Some n) }
         else do { modify (\<lambda>s. s\<lparr>stat_rx_idle := stat_rx_idle s + 1\<rparr>); return (Some n) } }"

definition ax_net_poll :: "nat \<Rightarrow> rx_event list list \<Rightarrow> ('z net_scheme, int option) state" where
  "ax_net_poll fuel arr = do {
     a \<leftarrow> gets active;
     if \<not> a then return (Some (- 1)) else do {
     down \<leftarrow> poll_link;
     if down then return (Some (- 2)) else do {
     d1 \<leftarrow> drain_tx fuel True;
     if d1 = None then return None else do {
     n \<leftarrow> poll_rx fuel arr;
     if n = None then return None else do {
     d2 \<leftarrow> drain_tx fuel True;
     return (if d2 = None then None else n) }}}}}"

section \<open>Address and lease\<close>

text \<open>The result is the address, \<open>None\<close> for NULL.\<close>

definition ax_net_address :: "('z net_scheme, u32 option) state" where
  "ax_net_address = do {
     a \<leftarrow> gets active;
     if \<not> a then return None else do {
     up \<leftarrow> lwip_nz Netif_is_link_up;
     if \<not> up then return None else do {
     ip \<leftarrow> lwip_val Netif_ip4_addr;
     if ip = 0 then return None else do {
     want \<leftarrow> gets (\<lambda>s. session_lease_mode s \<and> \<not> session_lease_valid s);
     dh \<leftarrow> (if want then lwip_nz Dhcp_supplied_address else return False);
     whenM dh (do {
       mask \<leftarrow> lwip_val Netif_ip4_netmask;
       gw \<leftarrow> lwip_val Netif_ip4_gw;
       modify (\<lambda>s. s\<lparr>session_ip := ip, session_netmask := mask, session_gateway := gw,
                      session_lease_valid := True\<rparr>) });
     modify (\<lambda>s. s\<lparr>address_set := True\<rparr>);
     return (Some ip) }}}}"

definition ax_display_check_exit :: "('z net_scheme, int) state" where
  "ax_display_check_exit = return 0"

definition ax_net_forget :: "('z net_scheme, unit) state" where
  "ax_net_forget = do {
     lwip_do Lwip_port_reset_all;
     modify (\<lambda>s. s\<lparr>netif_in_list := False, iface := netif0, initialized := False, active := False,
       link_errors := 0, last_link_up := 0, address_set := False,
       stat_rx_ok := 0, stat_rx_err := 0, stat_tx_q := 0, stat_tx_drop := 0, stat_tx_ok := 0,
       stat_tx_err := 0, stat_in_ok := 0, stat_in_drop := 0, stat_beats := 0, stat_rx_idle := 0\<rparr>) }"

definition ax_net_set_session_lease_mode :: "bool \<Rightarrow> ('z net_scheme, unit) state" where
  "ax_net_set_session_lease_mode enabled = modify (\<lambda>s. s\<lparr>session_lease_mode := enabled,
     session_lease_valid := (enabled \<and> session_lease_valid s)\<rparr>)"

definition ax_net_stack_ready :: "('z net_scheme, bool) state" where
  "ax_net_stack_ready = gets initialized"

definition ax_net_using_cached_lease :: "('z net_scheme, bool) state" where
  "ax_net_using_cached_lease = gets current_using_cached_lease"

definition ax_net_ip4 :: "('z net_scheme, u32) state" where
  "ax_net_ip4 = do {
     a \<leftarrow> gets active;
     if \<not> a then return 0 else lwip_val Netif_ip4_addr }"

section \<open>Stopping\<close>

definition stop_netif :: "('z net_scheme, unit) state" where
  "stop_netif = do {
     d \<leftarrow> lwip_nz Netif_dhcp_data;
     keep \<leftarrow> gets (\<lambda>s. session_lease_mode s \<and> session_lease_valid s);
     whenM d (do {
       (if keep then lwip_do Dhcp_stop else lwip_do Dhcp_release_and_stop);
       lwip_do Dhcp_cleanup });
     lwip_do Netif_set_down;
     lwip_do Netif_remove;
     modify (\<lambda>s. s\<lparr>netif_in_list := False\<rparr>) }"

definition ax_net_stop :: "nat \<Rightarrow> ('z net_scheme, unit option) state" where
  "ax_net_stop fuel = do {
     a \<leftarrow> gets active;
     if \<not> a then return (Some ()) else do {
     lwip_do Lock_tcpip_core;
     stop_netif;
     lwip_do Unlock_tcpip_core;
     d \<leftarrow> drain_tx fuel False;
     if d = None then return None
     else do { modify (\<lambda>s. s\<lparr>active := False\<rparr>); return (Some ()) } }}"

definition ax_net_abandon_title :: "('z net_scheme, int) state" where
  "ax_net_abandon_title = do {
     ini \<leftarrow> gets initialized;
     r \<leftarrow> (if ini then do { k \<leftarrow> lwip Tcpip_shutdown; return (r_ret k) } else return 0);
     modify (\<lambda>s. s\<lparr>active := False, initialized := False, netif_in_list := False, address_set := False\<rparr>);
     return r }"

lemmas net_runs [runs] =
  lwip_def [THEN run_cong]
  lwip_do_def [THEN run_cong]
  lwip_nz_def [THEN run_cong]
  lwip_val_def [THEN run_cong]
  ax_mark_def [THEN run_cong]
  beat_cb_def [THEN run_cong]
  claim_slot_def [THEN run_cong]
  free_slot_def [THEN run_cong]
  copy_frame_def [THEN run_cong]
  post_frame_def [THEN run_cong]
  send_frame_def [THEN run_cong]
  drain_one_def [THEN run_cong]
  init_interface_def [THEN run_cong]
  remove_leftover_def [THEN run_cong]
  add_netif_def [THEN run_cong] raise_netif_def [THEN run_cong] address_netif_def [THEN run_cong]
  undo_netif_def [THEN run_cong] setup_netif_def [THEN run_cong]
  init_stack_def [THEN run_cong]
  start_iface_def [THEN run_cong] ax_net_start_def [THEN run_cong]
  set_link_def [THEN run_cong]
  input_rx_frame_def [THEN run_cong]
  poll_link_def [THEN run_cong]
  count_rx_err_def [THEN run_cong]
  poll_rx_def [THEN run_cong]
  ax_net_poll_def [THEN run_cong]
  ax_net_address_def [THEN run_cong]
  ax_display_check_exit_def [THEN run_cong]
  ax_net_forget_def [THEN run_cong]
  ax_net_set_session_lease_mode_def [THEN run_cong]
  ax_net_stack_ready_def [THEN run_cong]
  ax_net_using_cached_lease_def [THEN run_cong]
  ax_net_ip4_def [THEN run_cong]
  stop_netif_def [THEN run_cong]
  ax_net_stop_def [THEN run_cong]
  ax_net_abandon_title_def [THEN run_cong]

text \<open>A running layer with an idle driver, for concrete runs.\<close>

definition net_init :: "(call list \<Rightarrow> call \<Rightarrow> resp) \<Rightarrow> net" where
  "net_init e = \<lparr>env = e, trace = [], axp = Some ax_zero, g_open = True, phy_init_generation = 1,
     debug_last_link = 1, g_rx = [], g_rx_async = [], g_rx_slots = [], g_tx = [],
     ax_progress = 0, iface = netif0, rx_frame = [], tx_pool = replicate 32 (replicate 1600 0),
     tx_in_use = replicate 32 False, initialized = True, active = True, link_errors = 0,
     last_link_up = 1, netif_in_list = True, session_lease_mode = True, session_lease_valid = False,
     session_ip = 0, session_netmask = 0, session_gateway = 0, current_using_cached_lease = False,
     last_link = 0, address_set = False, stat_rx_ok = 0, stat_rx_err = 0, stat_tx_q = 0,
     stat_tx_drop = 0, stat_tx_ok = 0, stat_tx_err = 0, stat_in_ok = 0, stat_in_drop = 0,
     stat_beats = 0, stat_rx_idle = 0\<rparr>"

end
