(* ===== verification/Slot_Pool.thy ===== *)
theory Slot_Pool
  imports Main
begin

text \<open>
  The contract of a fixed pool of numbered slots, as the locale \<open>slot_pool\<close>: claiming yields a slot
  that is not in use and marks it, and is refused only when all are; releasing gives one back. The
  transmit slots of the network layer and the asynchronous lookups of the shim are instances.
\<close>

locale slot_pool =
  fixes ok :: "'s \<Rightarrow> bool"
    and used :: "'s \<Rightarrow> nat set"
    and claim :: "'s \<Rightarrow> (nat \<times> 's) option"
    and release :: "nat \<Rightarrow> 's \<Rightarrow> 's"
    and slots :: nat
  assumes used_slots: "ok s \<Longrightarrow> used s \<subseteq> {..<slots}"
    and claim_Some: "ok s \<Longrightarrow> claim s = Some (i, t) \<Longrightarrow> ok t \<and> i < slots \<and> i \<notin> used s \<and> used t = insert i (used s)"
    and claim_None: "ok s \<Longrightarrow> claim s = None \<Longrightarrow> used s = {..<slots}"
    and release_ok: "ok s \<Longrightarrow> i < slots \<Longrightarrow> ok (release i s) \<and> used (release i s) = used s - {i}"
begin

text \<open>Up to \<open>n\<close> claims in a row, until one is refused.\<close>

fun claims :: "nat \<Rightarrow> 's \<Rightarrow> nat list \<times> 's" where
  "claims 0 s = ([], s)"
| "claims (Suc n) s = (case claim s of None \<Rightarrow> ([], s)
     | Some (i, t) \<Rightarrow> (case claims n t of (is, u) \<Rightarrow> (i # is, u)))"

lemma used_card: "ok s \<Longrightarrow> finite (used s) \<and> card (used s) \<le> slots"
  using used_slots [of s] card_mono [of "{..<slots}" "used s"] finite_subset by fastforce

lemma claims_distinct:
  "ok s \<Longrightarrow> claims n s = (is, t) \<Longrightarrow> ok t \<and> distinct is \<and> set is \<inter> used s = {} \<and> used t = used s \<union> set is"
proof (induction n arbitrary: s "is")
  case (Suc n)
  show ?case
  proof (cases "claim s")
    case (Some p)
    obtain i u where p: "p = (i, u)" by (cases p)
    with Some Suc.prems(2) obtain is' where c: "claims n u = (is', t)" "is = i # is'"
      by (auto split: prod.splits)
    from claim_Some [OF Suc.prems(1) Some [unfolded p]] Suc.IH [OF _ c(1)] c(2) show ?thesis by auto
  qed (use Suc.prems in simp)
qed simp

lemma claims_count: "ok s \<Longrightarrow> claims n s = (is, t) \<Longrightarrow> length is = min n (slots - card (used s))"
proof (induction n arbitrary: s "is")
  case (Suc n)
  show ?case
  proof (cases "claim s")
    case (Some p)
    obtain i u where p: "p = (i, u)" by (cases p)
    with Some Suc.prems(2) obtain is' where c: "claims n u = (is', t)" "is = i # is'"
      by (auto split: prod.splits)
    note cl = claim_Some [OF Suc.prems(1) Some [unfolded p]]
    have "card (used u) = Suc (card (used s))" "card (used u) \<le> slots"
      using cl used_card [OF Suc.prems(1)] used_card [of u] by auto
    with Suc.IH [OF _ c(1)] cl c(2) show ?thesis by simp
  qed (use Suc.prems claim_None in simp)
qed simp

lemma released_again:
  assumes "ok s" and "i \<in> used s"
  shows "\<exists>j t. claim (release i s) = Some (j, t)"
proof (cases "claim (release i s)")
  case None
  have "i < slots" using assms used_slots by blast
  with release_ok [OF assms(1)] claim_None [OF _ None] show ?thesis by fastforce
qed auto

end

end
