(* ===== verification/Tx_Queue.thy ===== *)
theory Tx_Queue
  imports Ax_Net Slot_Pool
begin

text \<open>
  The transmit slots of \<^verbatim>\<open>net/ax_net.c\<close>. lwIP's thread claims a slot, fills it and posts its
  number; the worker receives the number, sends the frame and frees the slot. The two run
  concurrently, synchronised only by the slot flags and the message queue.

  \<^item> Under every interleaving of the two threads' steps, a posted message always finds room,
    a slot is never filled while it is queued or being sent, and frames reach the driver
    unchanged and in the order they were posted.
  \<^item> Seen as whole operations, \<open>send_frame\<close> and \<open>drain_one\<close> are the two ends of a queue.

  The message queue is coreinit's. Its documented behaviour, first-in first-out with a fixed
  number of places, is the hypothesis \<open>mq_fifo\<close> on the answers to the calls.
\<close>

section \<open>The message queue\<close>

text \<open>What the queue holds after a history of calls.\<close>

fun mq_step :: "call \<Rightarrow> (nat \<times> nat) list \<Rightarrow> (nat \<times> nat) list" where
  "mq_step (Os (OSInitMessageQueue n)) q = []"
| "mq_step (Os (OSSendMessage a b)) q = (if length q < TX_SLOTS then q @ [(a, b)] else q)"
| "mq_step (Os OSReceiveMessage) q = tl q"
| "mq_step _ q = q"

definition mq :: "call list \<Rightarrow> (nat \<times> nat) list" where
  "mq h = fold mq_step h []"

lemma mq_snoc [simp]: "mq (h @ [c]) = mq_step c (mq h)"
  by (simp add: mq_def)

text \<open>A message is accepted while there is room; receiving takes the oldest.\<close>

definition mq_fifo :: "(call list \<Rightarrow> call \<Rightarrow> resp) \<Rightarrow> bool" where
  "mq_fifo e \<longleftrightarrow> (\<forall>h a b.
     (r_ret (e h (Os (OSSendMessage a b))) \<noteq> 0 \<longleftrightarrow> length (mq h) < TX_SLOTS) \<and>
     (r_ret (e h (Os OSReceiveMessage)) \<noteq> 0 \<longleftrightarrow> mq h \<noteq> []) \<and>
     (mq h \<noteq> [] \<longrightarrow> r_msg (e h (Os OSReceiveMessage)) = hd (mq h)))"

definition queue_of :: "'z net_scheme \<Rightarrow> (nat \<times> nat) list" where
  "queue_of s = mq (trace s)"

text \<open>The frame a queued message stands for.\<close>

definition frame_of :: "'z net_scheme \<Rightarrow> nat \<times> nat \<Rightarrow> bytes" where
  "frame_of s m = take (snd m) (tx_pool s ! fst m)"

section \<open>The two threads\<close>

datatype producer = PIdle | PClaimed nat pbuf | PCopied nat pbuf
datatype consumer = CIdle | CGot nat nat | CSent nat

text \<open>\<open>posted\<close> and \<open>handed\<close> record the frames posted and those given to the driver.\<close>

record txconf =
  st :: net
  prod :: producer
  cons :: consumer
  posted :: "bytes list"
  handed :: "bytes list"

inductive tx_step :: "txconf \<Rightarrow> txconf \<Rightarrow> bool" where
  claim: "prod c = PIdle \<Longrightarrow> unat (tot_len p) \<le> TX_SLOT_SIZE \<Longrightarrow>
    run_state claim_slot (st c) = (Some i, t) \<Longrightarrow>
    tx_step c (c\<lparr>st := t, prod := PClaimed i p\<rparr>)"
| full: "prod c = PIdle \<Longrightarrow> run_state claim_slot (st c) = (None, t) \<Longrightarrow> tx_step c (c\<lparr>st := t\<rparr>)"
| copy: "prod c = PClaimed i p \<Longrightarrow> run_state (copy_frame p i) (st c) = (n, t) \<Longrightarrow>
    n = unat (tot_len p) \<Longrightarrow> tx_step c (c\<lparr>st := t, prod := PCopied i p\<rparr>)"
| short: "prod c = PClaimed i p \<Longrightarrow> run_state (copy_frame p i) (st c) = (n, t) \<Longrightarrow>
    n \<noteq> unat (tot_len p) \<Longrightarrow>
    tx_step c (c\<lparr>st := snd (run_state (free_slot i) t), prod := PIdle\<rparr>)"
| post: "prod c = PCopied i p \<Longrightarrow> run_state (post_frame i (unat (tot_len p))) (st c) = (r, t) \<Longrightarrow>
    tx_step c (c\<lparr>st := t, prod := PIdle,
      posted := (if r = ERR_OK then posted c @ [take (unat (tot_len p)) (payload p)] else posted c)\<rparr>)"
| receive: "cons c = CIdle \<Longrightarrow> run_state (ext (Os OSReceiveMessage)) (st c) = (r, t) \<Longrightarrow>
    r_ret r \<noteq> 0 \<Longrightarrow> r_msg r = (i, len) \<Longrightarrow> tx_step c (c\<lparr>st := t, cons := CGot i len\<rparr>)"
| empty: "cons c = CIdle \<Longrightarrow> run_state (ext (Os OSReceiveMessage)) (st c) = (r, t) \<Longrightarrow>
    r_ret r = 0 \<Longrightarrow> tx_step c (c\<lparr>st := t\<rparr>)"
| xmit: "cons c = CGot i len \<Longrightarrow>
    run_state (ax88179_send (Some (take len (tx_pool (st c) ! i)))) (st c) = (r, t) \<Longrightarrow>
    tx_step c (c\<lparr>st := t, cons := CSent i, handed := handed c @ [take len (tx_pool (st c) ! i)]\<rparr>)"
| free: "cons c = CSent i \<Longrightarrow>
    tx_step c (c\<lparr>st := snd (run_state (free_slot i) (st c)), cons := CIdle\<rparr>)"

inductive_cases tx_stepE: "tx_step c d"

text \<open>Reachable from an interface that has just been started: no slot in use, an empty queue.\<close>

definition tx_start :: "txconf \<Rightarrow> bool" where
  "tx_start c \<longleftrightarrow> tx_in_use (st c) = replicate TX_SLOTS False \<and> length (tx_pool (st c)) = TX_SLOTS \<and>
     list_all (\<lambda>b. length b = TX_SLOT_SIZE) (tx_pool (st c)) \<and>
     queue_of (st c) = [] \<and> mq_fifo (env (st c)) \<and> prod c = PIdle \<and> cons c = CIdle \<and>
     posted c = [] \<and> handed c = []"

inductive tx_reach :: "txconf \<Rightarrow> bool" where
  start: "tx_start c \<Longrightarrow> tx_reach c"
| step: "tx_reach c \<Longrightarrow> tx_step c d \<Longrightarrow> tx_reach d"

section \<open>The invariant\<close>

fun prod_slots :: "producer \<Rightarrow> nat list" where
  "prod_slots PIdle = []"
| "prod_slots (PClaimed i p) = [i]"
| "prod_slots (PCopied i p) = [i]"

fun cons_slots :: "consumer \<Rightarrow> nat list" where
  "cons_slots CIdle = []"
| "cons_slots (CGot i len) = [i]"
| "cons_slots (CSent i) = [i]"

definition holders :: "txconf \<Rightarrow> nat list" where
  "holders c = map fst (queue_of (st c)) @ prod_slots (prod c) @ cons_slots (cons c)"

fun cons_frame :: "net \<Rightarrow> consumer \<Rightarrow> bytes list" where
  "cons_frame s (CGot i len) = [frame_of s (i, len)]"
| "cons_frame s _ = []"

fun copied_ok :: "net \<Rightarrow> producer \<Rightarrow> bool" where
  "copied_ok s (PCopied i p) \<longleftrightarrow>
     take (unat (tot_len p)) (tx_pool s ! i) = take (unat (tot_len p)) (payload p)"
| "copied_ok s (PClaimed i p) \<longleftrightarrow> unat (tot_len p) \<le> TX_SLOT_SIZE"
| "copied_ok s PIdle \<longleftrightarrow> True"

definition pool_ok :: "'z net_scheme \<Rightarrow> bool" where
  "pool_ok s \<longleftrightarrow> length (tx_in_use s) = TX_SLOTS \<and> length (tx_pool s) = TX_SLOTS \<and>
     list_all (\<lambda>b. length b = TX_SLOT_SIZE) (tx_pool s) \<and> mq_fifo (env s)"

definition tx_inv :: "txconf \<Rightarrow> bool" where
  "tx_inv c \<longleftrightarrow> pool_ok (st c) \<and> distinct (holders c) \<and>
     set (holders c) = {i. i < TX_SLOTS \<and> tx_in_use (st c) ! i} \<and>
     copied_ok (st c) (prod c) \<and>
     posted c = handed c @ cons_frame (st c) (cons c) @ map (frame_of (st c)) (queue_of (st c))"

lemma claim_from_Some:
  "claim_from k us = Some i \<Longrightarrow> k \<le> i \<and> i < k + length us \<and> \<not> us ! (i - k)"
proof (induction us arbitrary: k)
  case (Cons u us)
  show ?case
  proof (cases u)
    case True
    with Cons.IH [of "Suc k"] Cons.prems have "Suc k \<le> i" "i < Suc k + length us" "\<not> us ! (i - Suc k)"
      by auto
    moreover have "i - k = Suc (i - Suc k)" using \<open>Suc k \<le> i\<close> by simp
    ultimately show ?thesis by simp
  qed (use Cons.prems in simp)
qed simp

lemma claim_from_None: "claim_from k us = None \<Longrightarrow> list_all id us"
  by (induction us arbitrary: k) (auto split: if_splits)

text \<open>The slots as a pool.\<close>

definition slots_ok :: "'z net_scheme \<Rightarrow> bool" where
  "slots_ok s \<longleftrightarrow> length (tx_in_use s) = TX_SLOTS"

definition slots_used :: "'z net_scheme \<Rightarrow> nat set" where
  "slots_used s = {i. i < TX_SLOTS \<and> tx_in_use s ! i}"

definition slot_claim :: "'z net_scheme \<Rightarrow> (nat \<times> 'z net_scheme) option" where
  "slot_claim s = (case run_state claim_slot s of (sl, t) \<Rightarrow> map_option (\<lambda>i. (i, t)) sl)"

definition slot_free :: "nat \<Rightarrow> 'z net_scheme \<Rightarrow> 'z net_scheme" where
  "slot_free i s = snd (run_state (free_slot i) s)"

interpretation tp: slot_pool slots_ok slots_used slot_claim slot_free TX_SLOTS
proof
  fix s t :: "'a net_scheme" and i
  assume s: "slots_ok s"
  show "slots_used s \<subseteq> {..<TX_SLOTS}" by (auto simp: slots_used_def)
  show "slots_ok t \<and> i < TX_SLOTS \<and> i \<notin> slots_used s \<and> slots_used t = insert i (slots_used s)"
    if "slot_claim s = Some (i, t)"
  proof -
    have c: "claim_from 0 (tx_in_use s) = Some i" "t = s\<lparr>tx_in_use := (tx_in_use s)[i := True]\<rparr>"
      using that s by (auto simp: slot_claim_def claim_slot_def slots_ok_def split: option.splits)
    with claim_from_Some [OF c(1)] s show ?thesis
      by (auto simp: slots_ok_def slots_used_def nth_list_update)
  qed
  show "slots_used s = {..<TX_SLOTS}" if "slot_claim s = None"
  proof -
    have "claim_from 0 (tx_in_use s) = None"
      using that s by (auto simp: slot_claim_def claim_slot_def slots_ok_def split: option.splits)
    from claim_from_None [OF this] s show ?thesis by (auto simp: slots_ok_def slots_used_def list_all_length)
  qed
  show "slots_ok (slot_free i s) \<and> slots_used (slot_free i s) = slots_used s - {i}" if "i < TX_SLOTS"
    using that s by (auto simp: slots_ok_def slots_used_def slot_free_def free_slot_def nth_list_update)
qed

lemma queue_bound:
  assumes "tx_inv c" and "prod c = PCopied i p"
  shows "length (queue_of (st c)) < TX_SLOTS"
proof -
  have "length (holders c) = card (set (holders c))"
    using assms(1) distinct_card by (metis tx_inv_def)
  also have "\<dots> \<le> card {..<TX_SLOTS}"
    using assms(1) by (intro card_mono) (auto simp: tx_inv_def)
  finally show ?thesis
    using assms(2) by (simp add: holders_def)
qed

text \<open>Sending touches neither the slots nor the queue.\<close>

lemma send_keeps_tx:
  assumes "run_state (ax88179_send fr) s = (r, t)"
  shows "tx_pool t = tx_pool s" "tx_in_use t = tx_in_use s" "env t = env s" "queue_of t = queue_of s"
proof -
  have "wp (ax88179_send fr) (\<lambda>_ t. tx_pool t = tx_pool s \<and> tx_in_use t = tx_in_use s \<and>
      env t = env s \<and> queue_of t = queue_of s) s"
    by (auto simp: ax88179_send_def wp queue_of_def split: option.splits)
  from wpD [OF assms this]
  show "tx_pool t = tx_pool s" "tx_in_use t = tx_in_use s" "env t = env s" "queue_of t = queue_of s"
    by auto
qed

lemma in_use_upd:
  "length us = n \<Longrightarrow> i < n \<Longrightarrow> {j. j < n \<and> us[i := True] ! j} = insert i {j. j < n \<and> us ! j}"
  "length us = n \<Longrightarrow> i < n \<Longrightarrow> {j. j < n \<and> us[i := False] ! j} = {j. j < n \<and> us ! j} - {i}"
  by (auto simp: nth_list_update)

lemma holders_less: "tx_inv c \<Longrightarrow> i \<in> set (holders c) \<Longrightarrow> i < TX_SLOTS"
  by (auto simp: tx_inv_def)

lemma frames_other:
  assumes "i \<notin> set (map fst q)"
  shows "map (frame_of (s\<lparr>tx_pool := (tx_pool s)[i := b]\<rparr>)) q = map (frame_of s) q"
  using assms by (induction q) (auto simp: frame_of_def)

lemma inv_claim:
  assumes inv: "tx_inv c" and c: "prod c = PIdle" "unat (tot_len p) \<le> TX_SLOT_SIZE"
    and run: "run_state claim_slot (st c) = (Some i, t)"
  shows "tx_inv (c\<lparr>st := t, prod := PClaimed i p\<rparr>)"
proof -
  have len: "length (tx_in_use (st c)) = 32" using inv by (simp add: tx_inv_def pool_ok_def)
  have "claim_from 0 (tx_in_use (st c)) = Some i" and t: "t = (st c)\<lparr>tx_in_use := (tx_in_use (st c))[i := True]\<rparr>"
    using run len by (auto simp: runs split: option.splits)
  then have i: "i < 32" "\<not> tx_in_use (st c) ! i"
    using claim_from_Some [of 0 "tx_in_use (st c)" i] len by auto
  then have "i \<notin> set (holders c)"
    using inv by (auto simp: tx_inv_def)
  moreover have "queue_of t = queue_of (st c)" "frame_of t = frame_of (st c)"
    by (auto simp: t queue_of_def frame_of_def)
  moreover have "cons_frame t x = cons_frame (st c) x" for x
    by (cases x) (simp_all add: t frame_of_def)
  ultimately show ?thesis
    using inv c i len
    by (auto simp: tx_inv_def holders_def pool_ok_def t in_use_upd)
qed

lemma inv_copy:
  assumes inv: "tx_inv c" and c: "prod c = PClaimed i p"
    and run: "run_state (copy_frame p i) (st c) = (n, t)"
  shows "tx_inv (c\<lparr>st := t\<rparr>)"
    and "n = unat (tot_len p) \<Longrightarrow> tx_inv (c\<lparr>st := t, prod := PCopied i p\<rparr>)"
proof -
  let ?bs = "take (unat (tot_len p)) (payload p)"
  have t: "t = (st c)\<lparr>tx_pool := (tx_pool (st c))[i := memcpy_at 0 ?bs (tx_pool (st c) ! i)]\<rparr>"
    and n: "n = length ?bs"
    using run by (auto simp: runs)
  have hi: "i \<in> set (holders c)" using c by (simp add: holders_def)
  have dist: "distinct (holders c)" using inv by (simp add: tx_inv_def)
  have i: "i < 32" using hi holders_less [OF inv] by blast
  have q: "i \<notin> set (map fst (queue_of (st c)))" "i \<notin> set (cons_slots (cons c))"
    using dist c by (auto simp: holders_def)
  have small: "length ?bs \<le> 1600" "length (tx_pool (st c) ! i) = 1600"
    using inv c i by (auto simp: tx_inv_def pool_ok_def list_all_length)
  have q_t: "queue_of t = queue_of (st c)"
    by (simp add: t queue_of_def)
  have frames: "map (frame_of t) (queue_of (st c)) = map (frame_of (st c)) (queue_of (st c))"
    unfolding t by (rule frames_other [OF q(1)])
  have cf: "cons_frame t (cons c) = cons_frame (st c) (cons c)"
    using q(2) by (cases "cons c") (auto simp: t frame_of_def)
  have pool: "pool_ok t"
    using inv small i by (auto simp: tx_inv_def pool_ok_def t list_all_length nth_list_update)
  show "tx_inv (c\<lparr>st := t\<rparr>)"
    using inv pool c q_t frames cf by (auto simp: tx_inv_def holders_def t)
  show "tx_inv (c\<lparr>st := t, prod := PCopied i p\<rparr>)" if "n = unat (tot_len p)"
  proof -
    have "take (unat (tot_len p)) (tx_pool t ! i) = ?bs"
      using that n i inv small by (auto simp: t tx_inv_def pool_ok_def memcpy_at_def)
    then show ?thesis
      using inv pool c q_t frames cf by (auto simp: tx_inv_def holders_def t)
  qed
qed

lemma inv_free:
  assumes inv: "tx_inv c" and c: "prod c = PClaimed i p"
  shows "tx_inv (c\<lparr>st := snd (run_state (free_slot i) (st c)), prod := PIdle\<rparr>)"
proof -
  have "i \<in> set (holders c)" using c by (simp add: holders_def)
  then have i: "i < 32" using holders_less [OF inv] by blast
  have cf: "cons_frame (s\<lparr>tx_in_use := u\<rparr>) x = cons_frame s x" for s u x
    by (cases x) (simp_all add: frame_of_def)
  have fr: "frame_of (s\<lparr>tx_in_use := u\<rparr>) = frame_of s" for s :: net and u
    by (auto simp: frame_of_def)
  show ?thesis
    using inv c i
    by (auto simp: tx_inv_def holders_def pool_ok_def runs in_use_upd queue_of_def cf fr)
qed

lemma inv_done:
  assumes inv: "tx_inv c" and c: "cons c = CSent i"
  shows "tx_inv (c\<lparr>st := snd (run_state (free_slot i) (st c)), cons := CIdle\<rparr>)"
proof -
  have "i \<in> set (holders c)" using c by (simp add: holders_def)
  then have i: "i < 32" using holders_less [OF inv] by blast
  have fr: "frame_of (s\<lparr>tx_in_use := u\<rparr>) = frame_of s" for s :: net and u
    by (auto simp: frame_of_def)
  have co: "copied_ok (s\<lparr>tx_in_use := u\<rparr>) x = copied_ok s x" for s u x
    by (cases x) simp_all
  show ?thesis
    using inv c i
    by (auto simp: tx_inv_def holders_def pool_ok_def runs in_use_upd queue_of_def fr co)
qed

text \<open>Posting always succeeds.\<close>

lemma post_ok:
  assumes inv: "tx_inv c" and c: "prod c = PCopied i p"
    and run: "run_state (post_frame i n) (st c) = (r, t)"
  shows "r = ERR_OK" and "t = (st c)\<lparr>trace := trace (st c) @ [Os (OSSendMessage i n)],
      stat_tx_q := stat_tx_q (st c) + 1\<rparr>"
    and "queue_of t = queue_of (st c) @ [(i, n)]"
proof -
  have "length (mq (trace (st c))) < 32"
    using queue_bound [OF inv c] by (simp add: queue_of_def)
  moreover have "mq_fifo (env (st c))"
    using inv by (simp add: tx_inv_def pool_ok_def)
  ultimately have "r_ret (env (st c) (trace (st c)) (Os (OSSendMessage i n))) \<noteq> 0"
    by (simp add: mq_fifo_def)
  then show "r = ERR_OK" and t: "t = (st c)\<lparr>trace := trace (st c) @ [Os (OSSendMessage i n)],
      stat_tx_q := stat_tx_q (st c) + 1\<rparr>"
    using run by (auto simp: runs)
  show "queue_of t = queue_of (st c) @ [(i, n)]"
    using \<open>length (mq (trace (st c))) < 32\<close> by (simp add: t queue_of_def)
qed

lemma net_frames:
  "frame_of (s\<lparr>trace := h\<rparr>) = frame_of s" "frame_of (s\<lparr>stat_tx_q := k\<rparr>) = frame_of s"
  "cons_frame (s'\<lparr>trace := h\<rparr>) x = cons_frame s' x" "cons_frame (s'\<lparr>stat_tx_q := k\<rparr>) x = cons_frame s' x"
  by (auto simp: frame_of_def) (cases x; simp add: frame_of_def)+

lemma inv_post:
  assumes inv: "tx_inv c" and c: "prod c = PCopied i p"
    and run: "run_state (post_frame i (unat (tot_len p))) (st c) = (r, t)"
  shows "tx_inv (c\<lparr>st := t, prod := PIdle,
      posted := (if r = ERR_OK then posted c @ [take (unat (tot_len p)) (payload p)] else posted c)\<rparr>)"
proof -
  note p = post_ok [OF inv c run]
  have "frame_of (st c) (i, unat (tot_len p)) = take (unat (tot_len p)) (payload p)"
    using inv c by (simp add: tx_inv_def frame_of_def)
  then show ?thesis
    using inv c p by (auto simp: tx_inv_def holders_def pool_ok_def net_frames)
qed

lemma inv_receive:
  assumes inv: "tx_inv c" and c: "cons c = CIdle"
    and run: "run_state (ext (Os OSReceiveMessage)) (st c) = (r, t)"
  shows "r_ret r \<noteq> 0 \<Longrightarrow> r_msg r = (i, len) \<Longrightarrow> tx_inv (c\<lparr>st := t, cons := CGot i len\<rparr>)"
    and "r_ret r = 0 \<Longrightarrow> tx_inv (c\<lparr>st := t\<rparr>)"
proof -
  have mq: "mq_fifo (env (st c))"
    using inv by (simp add: tx_inv_def pool_ok_def)
  have r: "r = env (st c) (trace (st c)) (Os OSReceiveMessage)"
    and t: "t = (st c)\<lparr>trace := trace (st c) @ [Os OSReceiveMessage]\<rparr>"
    using run by auto
  have q: "queue_of t = tl (queue_of (st c))"
    by (simp add: t queue_of_def)
  have co: "copied_ok t x = copied_ok (st c) x" for x
    by (cases x) (simp_all add: t)
  show "tx_inv (c\<lparr>st := t, cons := CGot i len\<rparr>)" if "r_ret r \<noteq> 0" "r_msg r = (i, len)"
  proof -
    have "queue_of (st c) \<noteq> []" "hd (queue_of (st c)) = (i, len)"
      using mq that by (auto simp: r mq_fifo_def queue_of_def)
    then obtain ms where ms: "queue_of (st c) = (i, len) # ms"
      by (cases "queue_of (st c)") auto
    show ?thesis
      using inv c q ms co by (auto simp: tx_inv_def holders_def pool_ok_def t net_frames frame_of_def)
  qed
  show "tx_inv (c\<lparr>st := t\<rparr>)" if "r_ret r = 0"
  proof -
    have "queue_of (st c) = []"
      using mq that by (auto simp: r mq_fifo_def queue_of_def)
    then show ?thesis
      using inv c q co by (auto simp: tx_inv_def holders_def pool_ok_def t)
  qed
qed

lemma inv_xmit:
  assumes inv: "tx_inv c" and c: "cons c = CGot i len"
    and run: "run_state (ax88179_send (Some (take len (tx_pool (st c) ! i)))) (st c) = (r, t)"
  shows "tx_inv (c\<lparr>st := t, cons := CSent i, handed := handed c @ [take len (tx_pool (st c) ! i)]\<rparr>)"
proof -
  note k = send_keeps_tx [OF run]
  have fr: "frame_of t = frame_of (st c)"
    by (auto simp: frame_of_def k)
  have co: "copied_ok t x = copied_ok (st c) x" for x
    by (cases x) (simp_all add: k)
  show ?thesis
    using inv c by (auto simp: tx_inv_def holders_def pool_ok_def k fr co frame_of_def)
qed

lemma inv_step: "tx_step c d \<Longrightarrow> tx_inv c \<Longrightarrow> tx_inv d"
proof (induction rule: tx_step.induct)
  case (full c t)
  then have "t = st c" by (auto simp: runs split: option.splits)
  with full show ?case by simp
next
  case (short c i p n t)
  have "tx_inv (c\<lparr>st := t\<rparr>)" using inv_copy(1) short by blast
  from inv_free [OF this, of i p] short show ?case by simp
qed (simp_all add: inv_claim inv_copy inv_post inv_receive inv_xmit inv_done)

lemma inv_start: "tx_start c \<Longrightarrow> tx_inv c"
  by (auto simp: tx_start_def tx_inv_def pool_ok_def holders_def)

lemma inv_reach: "tx_reach c \<Longrightarrow> tx_inv c"
  by (induction rule: tx_reach.induct) (auto intro: inv_start inv_step)

section \<open>Whole operations\<close>

text \<open>Between operations no slot is held by a thread.\<close>

definition resting :: "net \<Rightarrow> txconf" where
  "resting s = \<lparr>st = s, prod = PIdle, cons = CIdle,
     posted = map (frame_of s) (queue_of s), handed = []\<rparr>"

definition tx_queue_inv :: "net \<Rightarrow> bool" where
  "tx_queue_inv s \<longleftrightarrow> tx_inv (resting s)"

definition tx_items :: "net \<Rightarrow> bytes list" where
  "tx_items s = map (frame_of s) (queue_of s)"

definition as_pbuf :: "bytes \<Rightarrow> pbuf" where
  "as_pbuf bs = \<lparr>tot_len = of_nat (length bs), payload = bs\<rparr>"

definition tx_put :: "bytes \<Rightarrow> net \<Rightarrow> net option" where
  "tx_put bs s = (if length bs > TX_SLOT_SIZE then None else
     case run_state (send_frame (as_pbuf bs)) s of (r, t) \<Rightarrow> if r = ERR_OK then Some t else None)"

text \<open>One round of \<open>drain_tx\<close>, with the frame it gave to the driver.\<close>

definition tx_get :: "net \<Rightarrow> (bytes \<times> net) option" where
  "tx_get s = (case run_state (drain_one True) s of (found, t) \<Rightarrow>
     if found then Some (frame_of s (r_msg (env s (trace s) (Os OSReceiveMessage))), t) else None)"

lemma tx_inv_shift:
  assumes "tx_inv c" "prod c = PIdle" "cons c = CIdle"
  shows "tx_queue_inv (st c)" "posted c = handed c @ tx_items (st c)"
  using assms by (auto simp: tx_queue_inv_def resting_def tx_inv_def holders_def tx_items_def)

lemma tx_put_Some:
  assumes inv: "tx_queue_inv s" and put: "tx_put bs s = Some t"
  shows "tx_queue_inv t \<and> tx_items t = tx_items s @ [bs]"
proof -
  let ?p = "as_pbuf bs"
  have len: "length bs \<le> 1600" "unat (tot_len ?p) = length bs"
    using put by (auto simp: tx_put_def as_pbuf_def unsigned_of_nat take_bit_nat_eq_self split: if_splits)
  have run: "run_state (send_frame ?p) s = (0, t)"
    using put by (auto simp: tx_put_def split: prod.splits if_splits)
  obtain sl u where cl: "run_state claim_slot s = (sl, u)" by fastforce
  have "sl \<noteq> None"
    using run len cl by (cases sl) (auto simp: send_frame_def)
  then obtain i where i: "sl = Some i" by blast
  obtain n v where cp: "run_state (copy_frame ?p i) u = (n, v)" by fastforce
  have n: "n = unat (tot_len ?p)"
    using cp len by (auto simp: copy_frame_def [THEN run_cong] runs as_pbuf_def)
  have po: "run_state (post_frame i (unat (tot_len ?p))) v = (0, t)"
    using run cl i cp n len by (simp add: send_frame_def)
  have 1: "tx_inv (resting s)" using inv by (simp add: tx_queue_inv_def)
  have 2: "tx_inv ((resting s)\<lparr>st := u, prod := PClaimed i ?p\<rparr>)"
    using inv_claim [OF 1, of ?p i u] cl i len by (simp add: resting_def)
  have 3: "tx_inv ((resting s)\<lparr>st := v, prod := PCopied i ?p\<rparr>)"
    using inv_copy(2) [OF 2, of i ?p n v] cp n by simp
  have 4: "tx_inv ((resting s)\<lparr>st := t, prod := PIdle, posted := posted (resting s) @ [bs]\<rparr>)"
    using inv_post [OF 3, of i ?p 0 t] po len by (simp add: as_pbuf_def)
  show ?thesis
    using tx_inv_shift [OF 4] by (simp add: resting_def tx_items_def)
qed

lemma tx_get_Some:
  assumes inv: "tx_queue_inv s" and get: "tx_get s = Some (x, t)"
  shows "tx_queue_inv t \<and> tx_items s = x # tx_items t"
proof -
  let ?r = "env s (trace s) (Os OSReceiveMessage)"
  obtain i len where m: "r_msg ?r = (i, len)" by fastforce
  define u where "u = s\<lparr>trace := trace s @ [Os OSReceiveMessage]\<rparr>"
  have run: "run_state (drain_one True) s = (True, t)" and x: "x = frame_of s (i, len)"
    using get m by (auto simp: tx_get_def split: prod.splits if_splits)
  have ret: "r_ret ?r \<noteq> 0"
    using run by (auto simp: drain_one_def split: if_splits)
  have 1: "tx_inv (resting s)" using inv by (simp add: tx_queue_inv_def)
  have 2: "tx_inv ((resting s)\<lparr>st := u, cons := CGot i len\<rparr>)"
    using inv_receive(1) [OF 1, of ?r u i len] ret m by (simp add: resting_def u_def)
  obtain k v where sd: "run_state (ax88179_send (Some (take len (tx_pool u ! i)))) u = (k, v)"
    by fastforce
  let ?c = "(resting s)\<lparr>st := v, cons := CSent i, handed := [take len (tx_pool u ! i)]\<rparr>"
  have 3: "tx_inv ?c"
    using inv_xmit [OF 2, of i len k v] sd by (simp add: resting_def)
  define w where "w = (if k = Some 0 then v\<lparr>stat_tx_ok := stat_tx_ok v + 1\<rparr>
    else v\<lparr>stat_tx_err := stat_tx_err v + 1\<rparr>)"
  have 4: "tx_inv (?c\<lparr>st := w\<rparr>)"
    using 3 by (auto simp: tx_inv_def holders_def pool_ok_def w_def queue_of_def frame_of_def [abs_def] resting_def)
  have t: "t = snd (run_state (free_slot i) w)"
    using run ret m sd by (auto simp: drain_one_def free_slot_def u_def w_def run_if split: if_splits)
  have 5: "tx_inv (?c\<lparr>st := t, cons := CIdle\<rparr>)"
    using inv_done [OF 4, of i] by (simp add: t)
  show ?thesis
    using tx_inv_shift [OF 5] by (simp add: resting_def tx_items_def x u_def frame_of_def)
qed

lemma tx_get_None:
  assumes "tx_queue_inv s" and "tx_get s = None"
  shows "tx_items s = []"
proof -
  have "r_ret (env s (trace s) (Os OSReceiveMessage)) = 0"
    using assms(2) by (auto simp: tx_get_def drain_one_def case_prod_beta split: if_splits)
  moreover have "mq_fifo (env s)"
    using assms(1) by (simp add: tx_queue_inv_def resting_def tx_inv_def pool_ok_def)
  ultimately show ?thesis
    by (auto simp: mq_fifo_def tx_items_def queue_of_def)
qed

lemma tx_items_bounded:
  assumes "tx_queue_inv s"
  shows "length (tx_items s) \<le> TX_SLOTS"
proof -
  have inv: "tx_inv (resting s)" using assms by (simp add: tx_queue_inv_def)
  have "length (holders (resting s)) = card (set (holders (resting s)))"
    using inv distinct_card by (metis tx_inv_def)
  also have "\<dots> \<le> card {..<TX_SLOTS}"
    using inv by (intro card_mono) (auto simp: tx_inv_def)
  finally show ?thesis
    by (simp add: holders_def resting_def tx_items_def)
qed

interpretation tq: fifo tx_queue_inv tx_items tx_put tx_get TX_SLOTS
  by unfold_locales
     (erule (1) tx_put_Some, erule (1) tx_get_Some, erule (1) tx_get_None, erule tx_items_bounded)

text \<open>\<open>send_frame\<close> refuses a frame that fits a slot only when all slots are in use.\<close>

lemma tx_put_None:
  assumes inv: "tx_queue_inv s" and len: "length bs \<le> TX_SLOT_SIZE" and put: "tx_put bs s = None"
  shows "length (tx_items s) = TX_SLOTS"
proof -
  let ?p = "as_pbuf bs"
  have tl: "unat (tot_len ?p) = length bs"
    using len by (simp add: as_pbuf_def unsigned_of_nat take_bit_nat_eq_self)
  have 1: "tx_inv (resting s)" using inv by (simp add: tx_queue_inv_def)
  obtain sl u where cl: "run_state claim_slot s = (sl, u)" by fastforce
  have "sl = None"
  proof (rule ccontr)
    assume "sl \<noteq> None"
    then obtain i where i: "sl = Some i" by blast
    obtain n v where cp: "run_state (copy_frame ?p i) u = (n, v)" by fastforce
    have n: "n = unat (tot_len ?p)"
      using cp tl by (auto simp: copy_frame_def as_pbuf_def)
    obtain r t where po: "run_state (post_frame i (unat (tot_len ?p))) v = (r, t)" by fastforce
    have 2: "tx_inv ((resting s)\<lparr>st := u, prod := PClaimed i ?p\<rparr>)"
      using inv_claim [OF 1, of ?p i u] cl i len tl by (simp add: resting_def)
    have 3: "tx_inv ((resting s)\<lparr>st := v, prod := PCopied i ?p\<rparr>)"
      using inv_copy(2) [OF 2, of i ?p n v] cp n by simp
    have "r = 0"
      using post_ok(1) [OF 3] po by simp
    then have "run_state (send_frame ?p) s = (0, t)"
      using cl i cp n po len tl by (simp add: send_frame_def)
    with put len show False by (simp add: tx_put_def)
  qed
  then have "slot_claim s = None"
    using cl by (simp add: slot_claim_def)
  moreover have "slots_ok s"
    using 1 by (simp add: tx_inv_def resting_def pool_ok_def slots_ok_def)
  ultimately have "slots_used s = {..<32}"
    by (intro tp.claim_None)
  then have "set (map fst (queue_of s)) = {..<32}" "distinct (map fst (queue_of s))"
    using 1 by (simp_all add: tx_inv_def resting_def holders_def slots_used_def)
  then have "length (map fst (queue_of s)) = 32"
    using distinct_card by fastforce
  then show ?thesis by (simp add: tx_items_def)
qed

section \<open>A concrete network layer\<close>

text \<open>An environment whose message queue works as documented and whose other calls succeed as
  \<open>e\<close> says.\<close>

definition with_mq :: "(call list \<Rightarrow> call \<Rightarrow> resp) \<Rightarrow> call list \<Rightarrow> call \<Rightarrow> resp" where
  "with_mq e h c = (case c of
     Os (OSSendMessage a b) \<Rightarrow> resp0\<lparr>r_ret := (if length (mq h) < TX_SLOTS then 1 else 0)\<rparr>
   | Os OSReceiveMessage \<Rightarrow>
       (case mq h of [] \<Rightarrow> resp0 | m # _ \<Rightarrow> resp0\<lparr>r_ret := 1, r_msg := m\<rparr>)
   | _ \<Rightarrow> e h c)"

lemma with_mq_fifo: "mq_fifo (with_mq e)"
  by (auto simp: mq_fifo_def with_mq_def resp0_def split: list.splits)

definition conf_init :: txconf where
  "conf_init = \<lparr>st = net_init (with_mq (\<lambda>_ _. resp0)), prod = PIdle, cons = CIdle, posted = [], handed = []\<rparr>"

lemma conf_init_start: "tx_start conf_init"
  by (simp add: tx_start_def conf_init_def net_init_def queue_of_def mq_def with_mq_fifo list_all_length)

section \<open>Properties\<close>

text \<open>C10. However the stack's thread and the worker interleave, posting a filled slot always
  succeeds (the queue never fills), no slot is in two places at once (queued, being filled,
  being sent), and the frames handed to the driver are, byte for byte and in order, the frames
  posted, the rest still waiting.\<close>

theorem tx_interleaving:
  assumes "tx_reach c"
  shows "(\<forall>i p n. prod c = PCopied i p \<longrightarrow> fst (run_state (post_frame i n) (st c)) = ERR_OK) \<and>
    distinct (holders c) \<and>
    posted c = handed c @ cons_frame (st c) (cons c) @ map (frame_of (st c)) (queue_of (st c))"
proof -
  have inv: "tx_inv c" by (rule inv_reach [OF assms])
  have "fst (run_state (post_frame i n) (st c)) = ERR_OK" if "prod c = PCopied i p" for i p n
    using post_ok(1) [OF inv that] by (metis prod.collapse)
  with inv show ?thesis by (simp add: tx_inv_def)
qed

theorem tx_interleaving_witness:
  "\<exists>c i p. tx_reach c \<and> prod c = PCopied i p \<and> fst (run_state (post_frame i 60) (st c)) = ERR_OK"
proof -
  let ?p = "as_pbuf (replicate 60 7)"
  let ?s = "st conf_init"
  let ?t = "?s\<lparr>tx_in_use := (tx_in_use ?s)[0 := True]\<rparr>"
  let ?u = "snd (run_state (copy_frame ?p 0) ?t)"
  let ?c = "conf_init\<lparr>st := ?t, prod := PClaimed 0 ?p\<rparr>"
  have cl: "run_state claim_slot ?s = (Some 0, ?t)"
    by (simp add: claim_slot_def conf_init_def net_init_def numeral_eq_Suc)
  have "tx_step conf_init ?c"
    using claim [of conf_init ?p 0 ?t] cl by (simp add: conf_init_def as_pbuf_def)
  moreover have "tx_step ?c (?c\<lparr>st := ?u, prod := PCopied 0 ?p\<rparr>)"
    by (rule copy [where n = 60]) (simp_all add: copy_frame_def as_pbuf_def)
  ultimately have "tx_reach (?c\<lparr>st := ?u, prod := PCopied 0 ?p\<rparr>)"
    using conf_init_start by (blast intro: tx_reach.intros)
  from tx_interleaving [OF this] this show ?thesis
    by (metis (no_types, lifting) txconf.select_convs(2) txconf.surjective txconf.update_convs(2))
qed

text \<open>C11. \<open>send_frame\<close> and the rounds of \<open>drain_tx\<close> are the ends of a 32-place first-in
  first-out queue of frames: over any sequence of the two, accepted frames come out unchanged
  and in order.\<close>

theorem tx_queue_fifo:
  assumes "tx_queue_inv s" and "tq.history ops s = (ins, outs, t)"
  shows "tx_queue_inv t \<and> tx_items s @ ins = outs @ tx_items t \<and> length ins \<le> length outs + TX_SLOTS"
  using tq.history_order [OF assms] tq.history_bounded [OF assms] by simp

theorem tx_queue_fifo_witness:
  "\<exists>ins outs t. tq.history [Put [1, 2, 3], Put [4, 5], Get] (st conf_init) = (ins, outs, t) \<and>
     ins = outs @ tx_items t"
proof -
  obtain ins outs t where h: "tq.history [Put [1, 2, 3], Put [4, 5], Get] (st conf_init) = (ins, outs, t)"
    by (metis prod.exhaust)
  have "tx_inv conf_init" using inv_start conf_init_start by blast
  moreover have "conf_init = resting (st conf_init)"
    by (simp add: conf_init_def resting_def net_init_def queue_of_def mq_def)
  ultimately have "tx_queue_inv (st conf_init)"
    by (simp add: tx_queue_inv_def)
  from tx_queue_fifo [OF this h] h show ?thesis
    by (auto simp: conf_init_def net_init_def tx_items_def queue_of_def mq_def)
qed

text \<open>A frame of at most 1600 bytes is refused only when all 32 slots hold a frame waiting
  to be sent.\<close>

theorem tx_refused_only_full:
  assumes "tx_queue_inv s" and "length bs \<le> TX_SLOT_SIZE"
    and "fst (run_state (send_frame (as_pbuf bs)) s) \<noteq> ERR_OK"
  shows "length (tx_items s) = TX_SLOTS"
  using tx_put_None [OF assms(1,2)] assms(2,3) by (simp add: tx_put_def case_prod_beta)

text \<open>All slots taken: each number posted once, none received.\<close>

definition net_full :: net where
  "net_full = (st conf_init)\<lparr>trace := map (\<lambda>i. Os (OSSendMessage i 10)) [0..<32],
     tx_in_use := replicate 32 True\<rparr>"

lemma mq_posts: "n \<le> 32 \<Longrightarrow> mq (map (\<lambda>i. Os (OSSendMessage i k)) [0..<n]) = map (\<lambda>i. (i, k)) [0..<n]"
  by (induction n) (simp_all add: mq_def)

lemma net_full_inv: "tx_queue_inv net_full"
proof -
  have "queue_of net_full = map (\<lambda>i. (i, 10)) [0..<32]"
    by (simp add: net_full_def queue_of_def mq_posts del: upt_Suc upt_rec_numeral)
  then show ?thesis
    by (auto simp: tx_queue_inv_def resting_def tx_inv_def holders_def pool_ok_def comp_def list_all_length
        net_full_def conf_init_def net_init_def with_mq_fifo simp del: upt_Suc upt_rec_numeral)
qed

theorem tx_refused_only_full_witness:
  "fst (run_state (send_frame (as_pbuf [1, 2, 3])) net_full) = ERR_MEM \<and> length (tx_items net_full) = TX_SLOTS"
proof -
  have "claim_from k (replicate n True) = None" for k n
    by (induction n arbitrary: k) simp_all
  then have r: "fst (run_state (send_frame (as_pbuf [1, 2, 3])) net_full) = ERR_MEM"
    by (simp add: send_frame_def claim_slot_def net_full_def as_pbuf_def)
  with tx_refused_only_full [OF net_full_inv, of "[1, 2, 3]"] show ?thesis by simp
qed

end
