(* ===== verification/Net_Lifecycle.thy ===== *)
theory Net_Lifecycle
  imports Tx_Queue
begin

text \<open>
  Starting, polling and stopping the network layer of \<^verbatim>\<open>net/ax_net.c\<close>: the link-error
  count that asks for a new adapter, the DHCP lease kept across titles, what start and stop
  leave behind, and the timers a start arms.
\<close>

section \<open>What the driver's operations leave alone\<close>

text \<open>The driver never writes the network layer's state.\<close>

lemma more_of_frame: "preserves ctl_frame m \<Longrightarrow> preserves drv.more m"
  by (erule preserves_coarser) (simp add: ctl_frame_def rest_def)

lemma more_upd [preserves]:
  "preserves drv.more (upd_ax f)" "preserves drv.more (get_ax g)" "preserves drv.more (ext c)"
  "preserves drv.more (modify (\<lambda>s. s\<lparr>debug_last_link := l\<rparr>))"
  "preserves drv.more (modify (\<lambda>s. s\<lparr>g_tx := b\<rparr>))"
  by (rule preservesI; simp add: wp)+

lemma more_link: "preserves drv.more ax88179_link"
  unfolding ax88179_link_def link_apply_def link_reconfigure_def
  by (intro preserves more_of_frame [OF frame_only_regs(1)] more_of_frame [OF frame_only_regs(2)]
      more_of_frame [OF frame_only_regs(3)] more_of_frame [OF frame_only_mac(2)]
      more_of_frame [OF frame_only_wait_fifo])

lemma more_send: "preserves drv.more (ax88179_send fr)"
  unfolding ax88179_send_def by (intro preserves)

lemma link_net:
  assumes "run_state ax88179_link s = (r, t)"
  shows "drv.more t = drv.more s"
  using preserves_run [OF more_link, of s] assms by simp

section \<open>The link-error count\<close>

definition link_due :: "'z net_scheme \<Rightarrow> bool" where
  "link_due s \<longleftrightarrow> r_val (env s (trace s) (Lwip Sys_now)) - last_link s \<ge> 500"

lemma more_eqD:
  fixes s t :: "'z net_scheme"
  assumes "drv.more t = drv.more s"
  shows "last_link_up t = last_link_up s" "link_errors t = link_errors s" "active t = active s"
    "tx_in_use t = tx_in_use s" "tx_pool t = tx_pool s" "netif_in_list t = netif_in_list s"
    "initialized t = initialized s" "session_lease_mode t = session_lease_mode s"
    "session_lease_valid t = session_lease_valid s" "session_ip t = session_ip s"
    "session_netmask t = session_netmask s" "session_gateway t = session_gateway s"
    "current_using_cached_lease t = current_using_cached_lease s" "iface t = iface s"
  using assms by (cases s; cases t; simp)+

lemma wp_poll_link:
  assumes due: "link_due s"
    and link: "run_state ax88179_link (s\<lparr>trace := trace s @ [Lwip Sys_now]\<rparr>) = ((up, sp), u)"
  shows "wp poll_link (\<lambda>gone t.
      link_errors t = (if up < 0 then link_errors s + 1 else 0) \<and>
      gone = (3 \<le> link_errors t) \<and>
      last_link_up t = (if gone then 0 else if 0 \<le> up then up else last_link_up s)) s"
proof -
  have m: "drv.more u = drv.more s"
    using link_net [OF link] by simp
  note k = more_eqD [OF m]
  have lw: "wp ax88179_link Q (s\<lparr>trace := trace s @ [Lwip Sys_now]\<rparr>) = Q (up, sp) u" for Q
    by (simp add: wp_def link)
  show ?thesis
    using due k
    by (auto simp: poll_link_def link_due_def lwip_val_def lwip_def lwip_do_def set_link_def ax_mark_def wp lw)
qed

section \<open>Start and stop\<close>

definition lease where
  "lease s = (session_lease_mode s, session_lease_valid s, session_ip s, session_netmask s, session_gateway s)"

text \<open>The calls an operation adds to the history.\<close>

definition added :: "'z net_scheme \<Rightarrow> 'z net_scheme \<Rightarrow> call list" where
  "added s t = drop (length (trace s)) (trace t)"

text \<open>The driver's link poll only makes UHS and timing calls.\<close>

fun drv_call :: "call \<Rightarrow> bool" where
  "drv_call (Lwip c) = False"
| "drv_call _ = True"

definition lwip_calls :: "call list \<Rightarrow> lwip_call list" where
  "lwip_calls h = concat (map (\<lambda>c. case c of Lwip x \<Rightarrow> [x] | _ \<Rightarrow> []) h)"

lemma lwip_calls_simps [simp]:
  "lwip_calls [] = []" "lwip_calls (h @ h') = lwip_calls h @ lwip_calls h'"
  "lwip_calls (c # h) = (case c of Lwip x \<Rightarrow> [x] | _ \<Rightarrow> []) @ lwip_calls h"
  by (simp_all add: lwip_calls_def)

definition lw where "lw s = (lwip_calls (trace s), drv.more s)"

lemma lw_control [preserves]: "preserves lw (control rd cmd val idx sz data)"
  by (rule preservesI) (simp add: control_def wp lw_def)

lemma lw_prims [preserves]:
  "preserves lw (upd_ax f)" "preserves lw (get_ax g)" "preserves lw (ext (Uhs c))" "preserves lw (ext (Os d))"
  "preserves lw (modify (\<lambda>s. s\<lparr>debug_last_link := l\<rparr>))" "preserves lw (modify (\<lambda>s. s\<lparr>g_tx := b\<rparr>))"
  by (rule preservesI; simp add: wp lw_def)+

lemma lw_regs [preserves]:
  "preserves lw (reg_write cmd reg sz bs)" "preserves lw (reg_read cmd reg sz out)"
  "preserves lw (ax88179_read_phy reg v)" "preserves lw (sleep_ms ms)" "preserves lw (mac_write16 reg w)"
  unfolding reg_write_def reg_read_def ax88179_read_phy_def sleep_ms_def mac_write16_def
  by (intro preserves)+

lemma lw_fifo [preserves]: "preserves lw (wait_fifo k)"
  by (induction k) (auto intro!: preserves)

lemma lw_link [preserves]: "preserves lw ax88179_link"
  unfolding ax88179_link_def link_apply_def link_reconfigure_def by (intro preserves)

lemma lw_send [preserves]: "preserves lw (ax88179_send fr)"
  unfolding ax88179_send_def by (intro preserves)

text \<open>What a start guarantees. \<open>ok\<close> tells whether it succeeded.\<close>

definition start_post :: "'z net_scheme \<Rightarrow> int \<Rightarrow> 'z net_scheme \<Rightarrow> bool" where
  "start_post s r t \<longleftrightarrow> lease t = lease s \<and>
     (if active s \<or> axp s = None then r = - 1 \<and> t = s
      else (r = 0 \<or> r = - 1) \<and> initialized t \<and>
        (r = 0 \<longleftrightarrow> active t) \<and> (r = 0 \<longrightarrow> netif_in_list t \<and> link_errors t = 0) \<and>
        (r \<noteq> 0 \<longrightarrow> \<not> netif_in_list t) \<and>
        current_using_cached_lease t = (session_lease_mode s \<and> session_lease_valid s))"

text \<open>The fields of this layer that calls into lwIP and progress marks leave alone.\<close>

definition nfields where
  "nfields s = (lease s, active s, initialized s, current_using_cached_lease s)"

definition nview where
  "nview s = (nfields s, netif_in_list s)"

lemma nview_more: "preserves drv.more m \<Longrightarrow> preserves nview m"
  for m :: "('z net_scheme, 'a) state"
  by (erule preserves_coarser) (auto simp: nview_def nfields_def lease_def dest: more_eqD)

lemma nview_calls [preserves]:
  "preserves nview (lwip c)" "preserves nview (lwip_do c)" "preserves nview (lwip_nz c)"
  "preserves nview (lwip_val c)" "preserves nview (ax_mark n)"
  by (rule preservesI; simp add: lwip_def lwip_do_def lwip_nz_def lwip_val_def ax_mark_def wp
      nview_def nfields_def lease_def)+

lemma nview_link [preserves]: "preserves nview ax88179_link"
  by (rule nview_more [OF more_link])

lemma nview_parts [preserves]:
  "preserves nview (raise_netif b)" "preserves nview (address_netif b)"
  unfolding raise_netif_def address_netif_def by (intro preserves)+

lemma wp_add_netif:
  assumes "nview s = (x, False)"
  shows "wp add_netif (\<lambda>ok t. nview t = (x, ok)) s"
  using assms
  by (auto simp: add_netif_def init_interface_def ax88179_mac_def lwip_nz_def lwip_def wp
      nview_def nfields_def lease_def)

lemma wp_clear_netif:
  assumes "nview s = (x, b)"
  shows "wp remove_leftover (\<lambda>_ t. nview t = (x, False)) s" "wp undo_netif (\<lambda>_ t. nview t = (x, False)) s"
  using assms
  by (auto simp: remove_leftover_def undo_netif_def lwip_nz_def lwip_do_def lwip_def wp
      nview_def nfields_def lease_def)

lemma wp_setup_netif:
  assumes "nview s = (x, b)"
  shows "wp (setup_netif up restore) (\<lambda>r t. (r = ERR_OK \<or> r = ERR_IF) \<and> nview t = (x, r = ERR_OK)) s"
proof -
  have lo: "wp (whenM d remove_leftover) (\<lambda>_ t. nview t = (x, False)) u" if "nview u = (x, d)" for u d
    using that wp_clear_netif(1) [OF that] by (auto simp: wp)
  have fin: "wp (if failed then do { undo_netif; return ERR_IF }
     else do { whenM (\<not> restore) (ax_mark 10); lwip_do (Sys_timeout 500); return ERR_OK })
     (\<lambda>r t. (r = ERR_OK \<or> r = ERR_IF) \<and> nview t = (x, r = ERR_OK)) u"
    if "nview u = (x, True)" for failed u
  proof (cases failed)
    case True
    then show ?thesis using wp_clear_netif(2) [OF that] by (auto simp: wp elim!: wp_mono)
  next
    case False
    have "wp (do { whenM (\<not> restore) (ax_mark 10); lwip_do (Sys_timeout 500) }) (\<lambda>_ t. nview t = nview u) u"
      by (intro wp_keep preserves)
    then show ?thesis using False that by (auto simp: wp elim!: wp_mono)
  qed
  have tail: "wp (if \<not> ok then return ERR_IF else do {
     raise_netif up;
     failed \<leftarrow> address_netif restore;
     if failed then do { undo_netif; return ERR_IF }
     else do { whenM (\<not> restore) (ax_mark 10); lwip_do (Sys_timeout 500); return ERR_OK } })
     (\<lambda>r t. (r = ERR_OK \<or> r = ERR_IF) \<and> nview t = (x, r = ERR_OK)) u"
    if "nview u = (x, ok)" for ok u
  proof (cases ok)
    case True
    then have ok: "ok = True" by simp
    show ?thesis
      unfolding ok not_True_eq_False if_False
      by (rule wp_bind_keep [where f = nview, OF nview_parts(1) that [unfolded ok]],
          rule wp_bind_keep [where f = nview, OF nview_parts(2)], assumption, rule fin, assumption)
  next
    case False
    then show ?thesis using that by (simp add: wp_return)
  qed
  have mid: "wp (do {
     whenM d remove_leftover;
     ok \<leftarrow> add_netif;
     if \<not> ok then return ERR_IF else do {
     raise_netif up;
     failed \<leftarrow> address_netif restore;
     if failed then do { undo_netif; return ERR_IF }
     else do { whenM (\<not> restore) (ax_mark 10); lwip_do (Sys_timeout 500); return ERR_OK } } })
     (\<lambda>r t. (r = ERR_OK \<or> r = ERR_IF) \<and> nview t = (x, r = ERR_OK)) u"
    if "nview u = (x, d)" for d u
    by (rule wp_bind_I [OF lo [OF that]], rule wp_bind_I [OF wp_add_netif], assumption, rule tail, assumption)
  show ?thesis
    unfolding setup_netif_def
    apply (rule wp_bind_keep [where f = nview, OF nview_calls(5) assms])
    apply (simp only: wp_bind [of "gets _"] wp_gets)
    apply (rule mid)
    apply (simp add: nview_def)
    done
qed

lemma wp_init_stack:
  "wp init_stack (\<lambda>_ t. initialized t \<and> active t = active s \<and> axp t = axp s \<and> lease t = lease s \<and>
     netif_in_list t = netif_in_list s) s"
  by (simp add: init_stack_def ax_mark_def lwip_do_def lwip_def lease_def wp)

lemma wp_start_iface:
  assumes "nview s = ((l, False, True, k), b)"
  shows "wp (start_iface restore) (\<lambda>r t. (r = 0 \<or> r = - 1) \<and> (r = 0 \<longrightarrow> link_errors t = 0) \<and>
     nview t = ((l, r = 0, True, restore), r = 0)) s"
proof -
  define u where "u = s\<lparr>current_using_cached_lease := restore\<rparr>"
  have u: "nview u = ((l, False, True, restore), b)"
    using assms by (simp add: u_def nview_def nfields_def lease_def)
  have fin: "wp (do {
     lwip_do Unlock_tcpip_core;
     if err \<noteq> ERR_OK then return (- 1 :: int) else do {
     modify (\<lambda>s. s\<lparr>active := True, address_set := False\<rparr>);
     now \<leftarrow> lwip_val Sys_now;
     modify (\<lambda>s. s\<lparr>last_link := now, last_link_up := lu, link_errors := 0\<rparr>);
     return 0 }}) (\<lambda>r t. (r = 0 \<or> r = - 1) \<and> (r = 0 \<longrightarrow> link_errors t = 0) \<and>
        nview t = ((l, r = 0, True, restore), r = 0)) v"
    if "(err = ERR_OK \<or> err = ERR_IF) \<and> nview v = ((l, False, True, restore), err = ERR_OK)" for v err lu
    using that by (auto simp: lwip_do_def lwip_val_def lwip_def wp nview_def nfields_def lease_def)
  show ?thesis
    unfolding start_iface_def wp_bind [of "modify _"] wp_modify u_def [symmetric] case_prod_beta
    by (rule wp_bind_keep [where f = nview, OF nview_link u],
        rule wp_bind_keep [where f = nview, OF nview_calls(2)], assumption,
        rule wp_bind_I [OF wp_setup_netif], assumption, rule fin [unfolded wp_bind [of "modify _"] wp_modify])
qed

lemma wp_init_whenM:
  "wp (whenM (\<not> initialized s) init_stack) (\<lambda>_ t. initialized t \<and> active t = active s \<and> lease t = lease s) s"
  by (cases "initialized s") (auto simp: wp intro: wp_mono [OF wp_init_stack])

lemma wp_start: "wp ax_net_start (start_post s) s"
proof -
  have body: "wp (start_iface (session_lease_mode u \<and> session_lease_valid u)) (start_post s) u"
    if "\<not> (active s \<or> axp s = None)" "initialized u \<and> active u = active s \<and> lease u = lease s" for u
    by (rule wp_mono [OF wp_start_iface [where l = "lease s" and k = "current_using_cached_lease u" and b = "netif_in_list u"]])
       (use that in \<open>auto simp: nview_def nfields_def start_post_def lease_def\<close>)
  show ?thesis
  proof (cases "active s \<or> axp s = None")
    case True
    then show ?thesis
      by (simp add: ax_net_start_def wp_bind [of "gets _"] wp_gets wp_if wp_return start_post_def)
  next
    case False
    then have f: "(active s \<or> axp s = None) = False" by simp
    show ?thesis
      unfolding ax_net_start_def wp_bind [of "gets _"] wp_gets wp_if wp_return f if_False
      by (rule wp_bind_I [OF wp_init_whenM], simp only: wp_bind [of "gets _"] wp_gets, rule body [OF False])
  qed
qed

section \<open>Calls counted\<close>

definition count_calls :: "(lwip_call \<Rightarrow> bool) \<Rightarrow> 'z net_scheme \<Rightarrow> nat" where
  "count_calls P s = length (filter P (lwip_calls (trace s)))"

lemma count_of_lw: "preserves lw m \<Longrightarrow> preserves (count_calls P) m"
  for m :: "('z net_scheme, 'a) state"
  by (erule preserves_coarser) (simp add: lw_def count_calls_def)

lemma count_modify:
  "(\<And>s. trace (f s) = trace s) \<Longrightarrow> preserves (count_calls P) (modify f)"
  by (rule preservesI) (simp add: wp count_calls_def)

lemma count_lwip:
  assumes "\<not> P c"
  shows "preserves (count_calls P) (lwip c)" "preserves (count_calls P) (lwip_do c)"
    "preserves (count_calls P) (lwip_nz c)" "preserves (count_calls P) (lwip_val c)"
  using assms
  by (auto intro!: preservesI simp: lwip_def lwip_do_def lwip_nz_def lwip_val_def wp count_calls_def)

lemma count_mark [preserves]: "preserves (count_calls P) (ax_mark n)"
  unfolding ax_mark_def by (rule count_modify) simp

lemma count_os [preserves]: "preserves (count_calls P) (ext (Os c))"
  by (rule preservesI) (simp add: wp count_calls_def)

lemmas count_rules = count_lwip count_modify count_of_lw [OF lw_link] count_of_lw [OF lw_send]

text \<open>DHCP is started only by a start without a cached lease, and a timer is armed only by a
  start that succeeds.\<close>

lemma count_setup_restore:
  assumes "\<not> P Netif_dhcp_data" "\<not> P Dhcp_stop" "\<not> P Dhcp_cleanup" "\<not> P Netif_remove" "\<not> P Netif_add"
    "\<not> P Netif_set_default" "\<not> P Netif_set_up" "\<not> P Netif_set_link_up" "\<And>a b c. \<not> P (Netif_set_addr a b c)"
    "\<not> P (Sys_timeout 500)"
  shows "preserves (count_calls P) (setup_netif up True)"
  unfolding setup_netif_def remove_leftover_def add_netif_def init_interface_def ax88179_mac_def raise_netif_def
    address_netif_def undo_netif_def if_True
  by (intro preserves count_rules) (simp_all add: assms)

definition is_dhcp_start :: "lwip_call \<Rightarrow> bool" where
  "is_dhcp_start c \<longleftrightarrow> c = Dhcp_start"

fun is_set_addr :: "u32 \<Rightarrow> u32 \<Rightarrow> u32 \<Rightarrow> lwip_call \<Rightarrow> bool" where
  "is_set_addr a b c (Netif_set_addr a' b' c') \<longleftrightarrow> a = a' \<and> b = b' \<and> c = c'"
| "is_set_addr a b c _ \<longleftrightarrow> False"

definition is_timeout :: "lwip_call \<Rightarrow> bool" where
  "is_timeout c \<longleftrightarrow> c = Sys_timeout 500"

lemma lease_init: "preserves lease (whenM b init_stack)"
  by (rule preservesI) (auto simp: init_stack_def ax_mark_def lwip_do_def lwip_def lease_def wp)

lemma no_dhcp_start:
  assumes "session_lease_mode s" "session_lease_valid s"
  shows "wp ax_net_start (\<lambda>_ t. count_calls is_dhcp_start t = count_calls is_dhcp_start s) s"
proof -
  let ?f = "count_calls is_dhcp_start"
  have ini: "preserves ?f (whenM b init_stack)" for b
    unfolding init_stack_def by (intro preserves count_rules) (simp_all add: is_dhcp_start_def)
  have body: "preserves ?f (start_iface True)"
    unfolding start_iface_def
    by (intro preserves count_rules count_setup_restore) (simp_all add: is_dhcp_start_def)
  have "wp (start_iface (session_lease_mode u \<and> session_lease_valid u)) (\<lambda>_ t. ?f t = ?f s) u"
    if "?f u = ?f s \<and> lease u = lease s" for u
  proof -
    have "(session_lease_mode u \<and> session_lease_valid u) = True"
      using that assms by (simp add: lease_def)
    then show ?thesis
      using wp_keep [OF body, of u] that by simp
  qed
  then have "wp (do { whenM b init_stack;
      restore \<leftarrow> gets (\<lambda>s. session_lease_mode s \<and> session_lease_valid s);
      start_iface restore }) (\<lambda>_ t. ?f t = ?f s) s" for b
    by (intro wp_bind_I [OF wp_conj [OF wp_keep [OF ini] wp_keep [OF lease_init]]])
       (simp only: wp_bind [of "gets _"] wp_gets)
  then show ?thesis
    unfolding ax_net_start_def wp_bind [of "gets _"] wp_gets wp_if wp_return by simp
qed

section \<open>Timers\<close>

abbreviation (input) "timers \<equiv> count_calls is_timeout"

text \<open>Receiving makes no call into lwIP.\<close>

lemma lw_slots [preserves]:
  "preserves lw (upd_slot i f)" "preserves lw (modify (\<lambda>s. s\<lparr>g_rx := h s\<rparr>))"
  "preserves lw (modify (\<lambda>s. s\<lparr>g_rx_async := k s\<rparr>))"
  by (rule preservesI; simp add: upd_slot_def wp lw_def)+

lemma lw_rx [preserves]:
  "preserves lw (rx_deliver e)" "preserves lw (ax_rx_submit_slot i)" "preserves lw rx_ring_reset"
  "preserves lw (ax88179_receive_buffered_impl f m)"
  unfolding rx_deliver_def ax_rx_async_callback_def ax_rx_submit_slot_def rx_ring_reset_def
    ax88179_receive_buffered_impl_def Let_def
  by (intro preserves)+

lemma lw_submit_all [preserves]: "preserves lw (submit_all is)"
  by (induction "is") (auto intro!: preserves)

lemma lw_rx2 [preserves]:
  "preserves lw ax_rx_start_async" "preserves lw (rx_rearm i)" "preserves lw (rx_wait us)"
  unfolding ax_rx_start_async_def rx_rearm_def rx_wait_def
  by (intro preserves)+

lemma lw_take [preserves]: "preserves lw ax_rx_take_completed"
  unfolding ax_rx_take_completed_def Let_def by (intro preserves)

lemma lw_receive [preserves]: "preserves lw (ax88179_receive f m us)"
  unfolding ax88179_receive_def receive_ring_def receive_loaded_def take_or_wait_def by (intro preserves)

lemma timers_input [preserves]: "preserves timers (input_rx_frame bs)"
  unfolding input_rx_frame_def by (intro preserves count_rules) (simp_all add: is_timeout_def)

lemma timers_drain_one [preserves]: "preserves timers (drain_one b)"
  unfolding drain_one_def Let_def free_slot_def
  by (intro preserves count_rules) simp_all

lemma timers_drain [preserves]: "preserves timers (drain_tx k b)"
  by (induction k) (auto intro!: preserves)

lemma timers_more [preserves]: "preserves timers (rx_more k arr)"
proof (induction k arbitrary: arr)
  case (Suc k)
  then show ?case
    unfolding rx_more.simps count_rx_err_def
    by (intro preserves count_rules count_of_lw [OF lw_receive] count_of_lw [OF lw_rx(1)]) simp_all
qed (simp add: preserves)

lemma timers_poll [preserves]: "preserves timers (ax_net_poll k arr)"
  unfolding ax_net_poll_def poll_link_def poll_rx_def set_link_def count_rx_err_def
  by (intro preserves count_rules count_of_lw [OF lw_receive]) (simp_all add: is_timeout_def)

lemma timers_address [preserves]: "preserves timers ax_net_address"
  unfolding ax_net_address_def by (intro preserves count_rules) (simp_all add: is_timeout_def)

lemma timers_stop [preserves]: "preserves timers (ax_net_stop k)"
  unfolding ax_net_stop_def stop_netif_def by (intro preserves count_rules) (simp_all add: is_timeout_def)

lemma timers_parts [preserves]:
  "preserves timers remove_leftover" "preserves timers add_netif" "preserves timers (raise_netif up)"
  "preserves timers (address_netif re)" "preserves timers undo_netif" "preserves timers init_stack"
  unfolding remove_leftover_def add_netif_def init_interface_def ax88179_mac_def raise_netif_def
    address_netif_def undo_netif_def init_stack_def
  by (intro preserves count_rules; simp add: is_timeout_def)+

lemma wp_arm: "wp (lwip_do (Sys_timeout 500)) (\<lambda>_ t. timers t = Suc (timers s)) s"
  by (simp add: lwip_do_def lwip_def wp count_calls_def is_timeout_def)

lemma timers_setup:
  "wp (setup_netif up re) (\<lambda>r t. timers t = timers s + (if r = ERR_OK then 1 else 0)) s"
proof -
  let ?Q = "\<lambda>r t. timers t = timers s + (if r = ERR_OK then 1 else 0)"
  have arm: "wp (do { whenM (\<not> re) (ax_mark 10); lwip_do (Sys_timeout 500); return ERR_OK }) ?Q u"
    if "timers u = timers s" for u
    using that
    by (intro wp_bind_keep [where f = timers, OF preserves_whenM [OF count_mark]])
       (auto simp: wp_bind wp_return intro!: wp_mono [OF wp_arm])
  have undo: "wp (do { undo_netif; return ERR_IF }) ?Q u" if "timers u = timers s" for u
    using that by (intro wp_bind_keep [where f = timers, OF timers_parts(5)]) (auto simp: wp_return)
  have tail: "wp (do {
      raise_netif up;
      failed \<leftarrow> address_netif re;
      if failed then do { undo_netif; return ERR_IF }
      else do { whenM (\<not> re) (ax_mark 10); lwip_do (Sys_timeout 500); return ERR_OK } }) ?Q u"
    if "timers u = timers s" for u
    by (rule wp_bind_keep [where f = timers, OF timers_parts(3) that],
        rule wp_bind_keep [where f = timers, OF timers_parts(4)], assumption)
       (auto simp: wp_if intro: arm undo)
  show ?thesis
    unfolding setup_netif_def
    apply (rule wp_bind_keep [where f = timers, OF count_mark refl])
    apply (rule wp_bind_keep [where f = timers, OF preserves_gets], assumption)
    apply (rule wp_bind_keep [where f = timers, OF preserves_whenM [OF timers_parts(1)]], assumption)
    apply (rule wp_bind_keep [where f = timers, OF timers_parts(2)], assumption)
    apply (auto simp: wp_if wp_return intro: tail)
    done
qed

lemma timers_start_iface:
  "wp (start_iface re) (\<lambda>r t. (r = 0 \<or> r = - 1) \<and> timers t = timers s + (if r = 0 then 1 else 0)) s"
proof -
  have fin: "wp (do {
     lwip_do Unlock_tcpip_core;
     if err \<noteq> ERR_OK then return (- 1 :: int) else do {
     modify (\<lambda>s. s\<lparr>active := True, address_set := False\<rparr>);
     now \<leftarrow> lwip_val Sys_now;
     modify (\<lambda>s. s\<lparr>last_link := now, last_link_up := lu, link_errors := 0\<rparr>);
     return 0 }}) (\<lambda>r t. (r = 0 \<or> r = - 1) \<and> timers t = n + (if r = 0 then 1 else 0)) v"
    if "timers v = n + (if err = ERR_OK then 1 else 0)" for v err lu n
    using that by (auto simp: lwip_do_def lwip_val_def lwip_def wp count_calls_def is_timeout_def)
  show ?thesis
    unfolding start_iface_def case_prod_beta
    apply (rule wp_bind_keep [where f = timers, OF count_modify refl], simp)
    apply (rule wp_bind_keep [where f = timers, OF count_of_lw [OF lw_link]], assumption)
    apply (rule wp_bind_keep [where f = timers, OF count_lwip(2)], simp add: is_timeout_def, assumption)
    apply (rule wp_bind_I [OF timers_setup], rule fin, simp)
    done
qed

lemma timers_start:
  "wp ax_net_start (\<lambda>r t. (r = 0 \<or> r = - 1) \<and> timers t = timers s + (if r = 0 then 1 else 0)) s"
proof -
  have "wp (do { whenM b init_stack;
      restore \<leftarrow> gets (\<lambda>s. session_lease_mode s \<and> session_lease_valid s);
      start_iface restore }) (\<lambda>r t. (r = 0 \<or> r = - 1) \<and> timers t = timers s + (if r = 0 then 1 else 0)) s" for b
    apply (rule wp_bind_keep [where f = timers, OF preserves_whenM [OF timers_parts(6)] refl])
    apply (rule wp_bind_keep [where f = timers, OF preserves_gets], assumption)
    apply (rule wp_mono [OF timers_start_iface], simp)
    done
  then show ?thesis
    unfolding ax_net_start_def wp_bind [of "gets _"] wp_gets wp_if wp_return by simp
qed

text \<open>What happens within one title: the operations between two \<open>ax_net_forget\<close>.\<close>

datatype net_op = Start | Stop nat | Poll nat "rx_event list list" | Address

fun run_op :: "net_op \<Rightarrow> 'z net_scheme \<Rightarrow> nat \<times> 'z net_scheme" where
  "run_op Start s = (case run_state ax_net_start s of (r, t) \<Rightarrow> (if r = 0 then 1 else 0, t))"
| "run_op (Stop k) s = (0, snd (run_state (ax_net_stop k) s))"
| "run_op (Poll k arr) s = (0, snd (run_state (ax_net_poll k arr) s))"
| "run_op Address s = (0, snd (run_state ax_net_address s))"

text \<open>The number of successful starts, and the final state.\<close>

fun run_ops :: "net_op list \<Rightarrow> 'z net_scheme \<Rightarrow> nat \<times> 'z net_scheme" where
  "run_ops [] s = (0, s)"
| "run_ops (x # xs) s = (case run_op x s of (n, t) \<Rightarrow> case run_ops xs t of (m, u) \<Rightarrow> (n + m, u))"

lemma timers_op: "run_op x s = (n, t) \<Longrightarrow> timers t = timers s + n"
proof (cases x)
  case Start
  assume "run_op x s = (n, t)"
  with Start timers_start [of s] show ?thesis
    by (auto simp: wp_run_state case_prod_beta split: if_splits)
qed (auto simp: preserves_run [OF timers_stop] preserves_run [OF timers_poll] preserves_run [OF timers_address])

lemma timers_ops: "run_ops xs s = (n, t) \<Longrightarrow> timers t = timers s + n"
proof (induction xs arbitrary: s n)
  case (Cons x xs)
  then show ?case
    using timers_op [of x s] by (force split: prod.splits)
qed simp

section \<open>Properties\<close>


definition net_dead :: net where
  "net_dead = (net_init (\<lambda>h c. resp0\<lparr>r_ret := - 1, r_val := 1000\<rparr>))\<lparr>link_errors := 2\<rparr>"




definition net_bound :: net where
  "net_bound = (net_init (\<lambda>h c. resp0\<lparr>r_ret := 1, r_val := 0xC0A80105\<rparr>))\<lparr>active := True\<rparr>"


text \<open>Every successful start arms another 500 ms timer, and no operation of the layer
  cancels one: after any sequence of starts, stops, polls and address queries within a title
  the number of timers armed has grown by the number of successful starts. The callback arms
  itself again, so none of them expires for good.\<close>

theorem timers_accumulate:
  assumes "run_ops xs s = (n, t)"
  shows "count_calls is_timeout t = count_calls is_timeout s + n \<and>
    count_calls is_timeout (snd (run_state beat_cb t)) = count_calls is_timeout t + 1"
  using timers_ops [OF assms]
  by (simp add: beat_cb_def lwip_do_def lwip_def count_calls_def is_timeout_def)

definition net_cold :: net where
  "net_cold = (net_init (\<lambda>h c. resp0\<lparr>r_ret := (if c = Lwip Netif_add then 1 else 0)\<rparr>))
     \<lparr>active := False, session_lease_mode := False, session_lease_valid := False\<rparr>"

theorem timers_accumulate_witness:
  "\<exists>t. run_ops [Start] net_cold = (1, t) \<and> count_calls is_timeout t = count_calls is_timeout net_cold + 1"
proof -
  have "fst (run_ops [Start] net_cold) = 1"
    by (simp add: runs net_cold_def net_init_def resp0_def)
  then obtain t where t: "run_ops [Start] net_cold = (1, t)"
    by (metis prod.collapse)
  with timers_accumulate [OF t] show ?thesis by simp
qed

end
