(* ===== verification/Fd_Table.thy ===== *)
theory Fd_Table
  imports Main
begin

text \<open>
  The interface of a table indexed by small descriptor numbers: what a lookup returns after
  a descriptor has been entered or taken out. The socket shim keeps several such tables as a
  bit mask beside an array; the theories that define them interpret this locale, and what is
  proved here about histories of updates and about injectivity then holds for each.
\<close>

datatype 'l table_op = Enter nat 'l | Leave nat

fun spec_op :: "'l table_op \<Rightarrow> (nat \<rightharpoonup> 'l) \<Rightarrow> nat \<rightharpoonup> 'l" where
  "spec_op (Enter n l) f = f(n \<mapsto> l)"
| "spec_op (Leave n) f = f(n := None)"

fun op_key :: "'l table_op \<Rightarrow> nat" where
  "op_key (Enter n l) = n"
| "op_key (Leave n) = n"

locale fd_table =
  fixes ok :: "'s \<Rightarrow> bool"
    and look :: "'s \<Rightarrow> nat \<rightharpoonup> 'l"
    and enter :: "nat \<Rightarrow> 'l \<Rightarrow> 's \<Rightarrow> 's"
    and leave :: "nat \<Rightarrow> 's \<Rightarrow> 's"
    and size :: nat
  assumes look_enter: "ok s \<Longrightarrow> n < size \<Longrightarrow> look (enter n l s) = (look s)(n \<mapsto> l)"
    and look_leave: "ok s \<Longrightarrow> n < size \<Longrightarrow> look (leave n s) = (look s)(n := None)"
    and ok_enter: "ok s \<Longrightarrow> n < size \<Longrightarrow> ok (enter n l s)"
    and ok_leave: "ok s \<Longrightarrow> n < size \<Longrightarrow> ok (leave n s)"
    and look_size: "look s n = Some l \<Longrightarrow> n < size"
begin

fun run_op :: "'l table_op \<Rightarrow> 's \<Rightarrow> 's" where
  "run_op (Enter n l) s = enter n l s"
| "run_op (Leave n) s = leave n s"

lemma run_op_spec:
  assumes "ok s" and "op_key x < size"
  shows "ok (run_op x s)" "look (run_op x s) = spec_op x (look s)"
  using assms by (cases x; simp add: look_enter look_leave ok_enter ok_leave)+

lemma history:
  assumes "ok s" and "\<forall>x \<in> set xs. op_key x < size"
  shows "ok (fold run_op xs s) \<and> look (fold run_op xs s) = fold spec_op xs (look s)"
  using assms by (induction xs arbitrary: s) (simp_all add: run_op_spec)

lemma dom_bounded: "dom (look s) \<subseteq> {..<size}"
  using look_size by fastforce

lemma finite_dom: "finite (dom (look s))"
  using dom_bounded finite_subset by blast

lemma inj_enter:
  assumes "ok s" and "n < size" and "inj_on (look s) (dom (look s))" and "l \<notin> ran ((look s)(n := None))"
  shows "inj_on (look (enter n l s)) (dom (look (enter n l s)))"
proof (rule inj_onI)
  fix a b assume ab: "a \<in> dom (look (enter n l s))" "b \<in> dom (look (enter n l s))"
    "look (enter n l s) a = look (enter n l s) b"
  have new: "look s c \<noteq> Some l" if "c \<noteq> n" for c
    using assms(4) that by (metis fun_upd_other ranI)
  show "a = b"
  proof (cases "a = n \<or> b = n")
    case True
    then show ?thesis using ab(3) new look_enter [OF assms(1,2), of l] by (metis fun_upd_apply)
  next
    case False
    with ab look_enter [OF assms(1,2), of l] assms(3) show ?thesis
      by (auto simp: dom_def inj_on_def)
  qed
qed

lemma inj_leave:
  assumes "ok s" and "n < size" and "inj_on (look s) (dom (look s))"
  shows "inj_on (look (leave n s)) (dom (look (leave n s)))"
  using assms(3) look_leave [OF assms(1,2)] by (auto simp: inj_on_def dom_def)

end

end
