(* ===== verification/Shim_State.thy ===== *)
theory Shim_State
  imports Ax_Net Fd_Table
begin

text \<open>
  The socket shim (\<^verbatim>\<open>aroma_module/nsysnet_shim.c\<close>): its static state and the helpers at the
  top of the file. Public descriptors are nsysnet descriptors 0 to 31, each reserved by a real
  nsysnet socket; \<open>open_mask\<close> says which of them the shim routes to lwIP and \<open>mapped_fd\<close> to
  which lwIP socket. \<open>errno\<close> is newlib's, per thread: the model runs one caller's thread;
  - 1 marks that the last call went to nsysnet. An lwIP call that sets errno says so in its
  answer. Trace messages are left out: they save and restore errno.
\<close>

section \<open>Constants\<close>

abbreviation (input) "NSN_AF_INET \<equiv> (2 :: int)"
abbreviation (input) "NSN_SOL_SOCKET \<equiv> (- 1 :: int)"
abbreviation (input) "NSN_SOL_TCP \<equiv> (6 :: int)"
abbreviation (input) "NSN_SO_REUSEADDR \<equiv> (0x0004 :: int)"
abbreviation (input) "NSN_SO_KEEPALIVE \<equiv> (0x0008 :: int)"
abbreviation (input) "NSN_SO_DONTROUTE \<equiv> (0x0010 :: int)"
abbreviation (input) "NSN_SO_BROADCAST \<equiv> (0x0020 :: int)"
abbreviation (input) "NSN_SO_LINGER \<equiv> (0x0080 :: int)"
abbreviation (input) "NSN_SO_OOBINLINE \<equiv> (0x0100 :: int)"
abbreviation (input) "NSN_SO_TCPSACK \<equiv> (0x0200 :: int)"
abbreviation (input) "NSN_SO_WINSCALE \<equiv> (0x0400 :: int)"
abbreviation (input) "NSN_SO_SNDBUF \<equiv> (0x1001 :: int)"
abbreviation (input) "NSN_SO_RCVBUF \<equiv> (0x1002 :: int)"
abbreviation (input) "NSN_SO_SNDLOWAT \<equiv> (0x1003 :: int)"
abbreviation (input) "NSN_SO_RCVLOWAT \<equiv> (0x1004 :: int)"
abbreviation (input) "NSN_SO_ERROR \<equiv> (0x1007 :: int)"
abbreviation (input) "NSN_SO_TYPE \<equiv> (0x1008 :: int)"
abbreviation (input) "NSN_SO_HOPCNT \<equiv> (0x1009 :: int)"
abbreviation (input) "NSN_SO_MAXMSG \<equiv> (0x1010 :: int)"
abbreviation (input) "NSN_SO_RXDATA \<equiv> (0x1011 :: int)"
abbreviation (input) "NSN_SO_TXDATA \<equiv> (0x1012 :: int)"
abbreviation (input) "NSN_SO_MYADDR \<equiv> (0x1013 :: int)"
abbreviation (input) "NSN_SO_NBIO \<equiv> (0x1014 :: int)"
abbreviation (input) "NSN_SO_BIO \<equiv> (0x1015 :: int)"
abbreviation (input) "NSN_SO_NONBLOCK \<equiv> (0x1016 :: int)"
abbreviation (input) "NSN_SO_NOSLOWSTART \<equiv> (0x4000 :: int)"
abbreviation (input) "NSN_TCP_ACKDELAYTIME \<equiv> (0x2001 :: int)"
abbreviation (input) "NSN_TCP_NOACKDELAY \<equiv> (0x2002 :: int)"
abbreviation (input) "NSN_TCP_MAXSEG \<equiv> (0x2003 :: int)"
abbreviation (input) "NSN_TCP_NODELAY \<equiv> (0x2004 :: int)"
abbreviation (input) "NSN_TCP_UNKNOWN \<equiv> (0x2005 :: int)"
abbreviation (input) "NSN_MSG_OOB \<equiv> (0x0001 :: int)"
abbreviation (input) "NSN_MSG_PEEK \<equiv> (0x0002 :: int)"
abbreviation (input) "NSN_MSG_DONTWAIT \<equiv> (0x0020 :: int)"
abbreviation (input) "NSN_MSG_IP_RECVTTL \<equiv> (0x0040 :: int)"
abbreviation (input) "NSN_IP_TOS \<equiv> (3 :: int)"
abbreviation (input) "NSN_IP_TTL \<equiv> (4 :: int)"
abbreviation (input) "NSN_IP_MULTICAST_IF \<equiv> (9 :: int)"
abbreviation (input) "NSN_IP_MULTICAST_TTL \<equiv> (10 :: int)"
abbreviation (input) "NSN_IP_MULTICAST_LOOP \<equiv> (11 :: int)"
abbreviation (input) "NSN_IP_ADD_MEMBERSHIP \<equiv> (12 :: int)"
abbreviation (input) "NSN_IP_DROP_MEMBERSHIP \<equiv> (13 :: int)"
abbreviation (input) "AX_FTP_PORT \<equiv> (21 :: u16)"
abbreviation (input) "AX_NATIVE_PORT_WIILOAD \<equiv> (4299 :: u16)"

text \<open>lwIP's numbers.\<close>

abbreviation (input) "SOL_SOCKET \<equiv> (0xfff :: int)"
abbreviation (input) "IPPROTO_IP \<equiv> (0 :: int)"
abbreviation (input) "IPPROTO_TCP \<equiv> (6 :: int)"
abbreviation (input) "SOCK_STREAM \<equiv> (1 :: int)"
abbreviation (input) "SOCK_DGRAM \<equiv> (2 :: int)"
abbreviation (input) "AF_INET \<equiv> (2 :: u8)"
abbreviation (input) "MSG_PEEK \<equiv> (1 :: int)"
abbreviation (input) "MSG_OOB \<equiv> (4 :: int)"
abbreviation (input) "MSG_DONTWAIT \<equiv> (8 :: int)"
abbreviation (input) "SO_SNDBUF \<equiv> (0x1001 :: int)"
abbreviation (input) "SO_RCVBUF \<equiv> (0x1002 :: int)"
abbreviation (input) "SO_BROADCAST \<equiv> (0x20 :: int)"
abbreviation (input) "SO_TYPE \<equiv> (0x1008 :: int)"
abbreviation (input) "SO_TXDATA \<equiv> (0x1012 :: int)"
abbreviation (input) "TCP_MSS \<equiv> (1460 :: int)"

text \<open>newlib's errno numbers.\<close>

abbreviation (input) "EIO \<equiv> (5 :: int)"
abbreviation (input) "EBADF \<equiv> (9 :: int)"
abbreviation (input) "EWOULDBLOCK \<equiv> (11 :: int)"
abbreviation (input) "ENOMEM \<equiv> (12 :: int)"
abbreviation (input) "EFAULT \<equiv> (14 :: int)"
abbreviation (input) "EBUSY \<equiv> (16 :: int)"
abbreviation (input) "ENODEV \<equiv> (19 :: int)"
abbreviation (input) "EINVAL \<equiv> (22 :: int)"
abbreviation (input) "EMFILE \<equiv> (24 :: int)"
abbreviation (input) "EPIPE \<equiv> (32 :: int)"
abbreviation (input) "EOPNOTSUPP \<equiv> (95 :: int)"
abbreviation (input) "ECONNRESET \<equiv> (104 :: int)"
abbreviation (input) "ENOBUFS \<equiv> (105 :: int)"
abbreviation (input) "EAFNOSUPPORT \<equiv> (106 :: int)"
abbreviation (input) "EPROTOTYPE \<equiv> (107 :: int)"
abbreviation (input) "ENOTSOCK \<equiv> (108 :: int)"
abbreviation (input) "ENOPROTOOPT \<equiv> (109 :: int)"
abbreviation (input) "ECONNREFUSED \<equiv> (111 :: int)"
abbreviation (input) "EADDRINUSE \<equiv> (112 :: int)"
abbreviation (input) "ECONNABORTED \<equiv> (113 :: int)"
abbreviation (input) "ENETUNREACH \<equiv> (114 :: int)"
abbreviation (input) "ETIMEDOUT \<equiv> (116 :: int)"
abbreviation (input) "EINPROGRESS \<equiv> (119 :: int)"
abbreviation (input) "EALREADY \<equiv> (120 :: int)"
abbreviation (input) "EDESTADDRREQ \<equiv> (121 :: int)"
abbreviation (input) "EMSGSIZE \<equiv> (122 :: int)"
abbreviation (input) "EPROTONOSUPPORT \<equiv> (123 :: int)"
abbreviation (input) "EADDRNOTAVAIL \<equiv> (125 :: int)"
abbreviation (input) "EISCONN \<equiv> (127 :: int)"
abbreviation (input) "ENOTCONN \<equiv> (128 :: int)"
abbreviation (input) "ECANCELED \<equiv> (140 :: int)"

section \<open>State\<close>

record compat_sock_state =
  sol_flags :: u32
  tcp_ackdelay :: int
  tcp_noackdelay :: int
  tcp_maxseg :: int
  tcp_unknown :: int
  linger_on :: int
  linger_secs :: int
  sndbuf :: int
  rcvbuf :: int

record nssl_relay =
  rl_allocated :: bool
  rl_ready :: bool
  rl_stop :: bool
  rl_done :: bool
  rl_public_fd :: int
  rl_native_fd :: int
  rl_lwfd :: int
  rl_error :: int
  rl_native_to_ax :: u64
  rl_ax_to_native :: u64

record shim = net +
  errno :: int
  open_mask :: u32
  mapped_fd :: "int list"
  accepting_sockets :: bool
  shim_trace_level :: int
  system_dns :: bool
  force_native :: bool
  ax_activity_pending :: int
  nssl_bridge_enabled :: bool
  ftp_native_bind_ip :: u32
  ftp_ax_redirect_active :: bool
  ftp_restart_mask :: u32
  nssl_public_mask :: u32
  nssl_connection_by_fd :: "int list"
  compat_sock :: "compat_sock_state list"
  nssl_relays :: "nssl_relay list"

text \<open>The arrays have the sizes the code declares.\<close>

definition shim_wf :: "'z shim_scheme \<Rightarrow> bool" where
  "shim_wf s \<longleftrightarrow> length (mapped_fd s) = 32 \<and> length (nssl_connection_by_fd s) = 32 \<and>
     length (compat_sock s) = 32 \<and> length (nssl_relays s) = 8"

section \<open>Calls\<close>

definition set_errno :: "int \<Rightarrow> ('z shim_scheme, unit) state" where
  "set_errno e = modify (\<lambda>s. s\<lparr>errno := e\<rparr>)"

definition sock :: "sock_call \<Rightarrow> ('z shim_scheme, resp) state" where
  "sock c = do {
     r \<leftarrow> ext (Sock c);
     (case r_errno r of None \<Rightarrow> return r | Some e \<Rightarrow> do { set_errno e; return r }) }"

definition nsn :: "nsn_call \<Rightarrow> ('z drv_scheme, resp) state" where
  "nsn c = ext (Nsn c)"

text \<open>\<open>errno = - 1; return real_f(...)\<close>.\<close>

definition native :: "nsn_call \<Rightarrow> ('z shim_scheme, resp) state" where
  "native c = do { set_errno (- 1); nsn c }"

text \<open>\<open>errno = e; return - 1\<close>.\<close>

definition fail :: "int \<Rightarrow> ('z shim_scheme, int) state" where
  "fail e = do { set_errno e; return (- 1) }"

section \<open>Descriptor tables\<close>

definition nsn_ntohs :: "u16 \<Rightarrow> u16" where
  "nsn_ntohs v = v"

definition nsn_ipc_ptr_ok :: "u32 \<Rightarrow> bool" where
  "nsn_ipc_ptr_ok p \<longleftrightarrow> p \<noteq> 0 \<and> p AND 0x3f = 0"

definition nsn_ipc_pad :: "u32 \<Rightarrow> u32" where
  "nsn_ipc_pad sz = (sz + 0x3f) AND NOT 0x3f"

definition compat_fresh :: compat_sock_state where
  "compat_fresh = \<lparr>sol_flags = 0, tcp_ackdelay = 0, tcp_noackdelay = 0, tcp_maxseg = TCP_MSS,
     tcp_unknown = 0, linger_on = 0, linger_secs = 0, sndbuf = 8192, rcvbuf = 8192\<rparr>"

definition fd_ok :: "int \<Rightarrow> bool" where
  "fd_ok fd \<longleftrightarrow> 0 \<le> fd \<and> fd < 32"

definition compat_state_reset :: "int \<Rightarrow> 'z shim_scheme \<Rightarrow> 'z shim_scheme" where
  "compat_state_reset fd s =
     (if fd_ok fd then s\<lparr>compat_sock := (compat_sock s)[nat fd := compat_fresh]\<rparr> else s)"

definition compat_state_reset_all :: "'z shim_scheme \<Rightarrow> 'z shim_scheme" where
  "compat_state_reset_all s = fold (\<lambda>fd. compat_state_reset (int fd)) [0..<32] s"

definition upd_compat ::
  "int \<Rightarrow> (compat_sock_state \<Rightarrow> compat_sock_state) \<Rightarrow> 'z shim_scheme \<Rightarrow> 'z shim_scheme" where
  "upd_compat fd f s = s\<lparr>compat_sock := (compat_sock s)[nat fd := f (compat_sock s ! nat fd)]\<rparr>"

definition compat_flag_set :: "int \<Rightarrow> u32 \<Rightarrow> bool \<Rightarrow> 'z shim_scheme \<Rightarrow> 'z shim_scheme" where
  "compat_flag_set fd flag enabled s =
     (if \<not> fd_ok fd then s
      else if enabled then upd_compat fd (\<lambda>c. c\<lparr>sol_flags := sol_flags c OR flag\<rparr>) s
      else upd_compat fd (\<lambda>c. c\<lparr>sol_flags := sol_flags c AND NOT flag\<rparr>) s)"

definition compat_flag_value :: "int \<Rightarrow> u32 \<Rightarrow> 'z shim_scheme \<Rightarrow> int" where
  "compat_flag_value fd flag s =
     (if \<not> fd_ok fd then 0
      else if sol_flags (compat_sock s ! nat fd) AND flag \<noteq> 0 then sint flag else 0)"

definition nsysnet_shim_set_trace_level :: "int \<Rightarrow> ('z shim_scheme, unit) state" where
  "nsysnet_shim_set_trace_level level = modify (\<lambda>s. s\<lparr>shim_trace_level := level\<rparr>)"

definition nsysnet_shim_set_system_dns :: "int \<Rightarrow> ('z shim_scheme, unit) state" where
  "nsysnet_shim_set_system_dns enabled = modify (\<lambda>s. s\<lparr>system_dns := enabled \<noteq> 0\<rparr>)"

definition nsysnet_shim_set_force_native :: "int \<Rightarrow> ('z shim_scheme, unit) state" where
  "nsysnet_shim_set_force_native enabled = modify (\<lambda>s. s\<lparr>force_native := enabled \<noteq> 0\<rparr>)"

definition nsysnet_shim_set_nssl_bridge :: "int \<Rightarrow> ('z shim_scheme, unit) state" where
  "nsysnet_shim_set_nssl_bridge enabled = modify (\<lambda>s. s\<lparr>nssl_bridge_enabled := enabled \<noteq> 0\<rparr>)"

definition shim_accepts :: "'z shim_scheme \<Rightarrow> bool" where
  "shim_accepts s = accepting_sockets s"

text \<open>\<open>atomic_compare_exchange_strong(&ax_activity_pending, expected, new)\<close>.\<close>

definition cas_activity :: "int \<Rightarrow> int \<Rightarrow> ('z shim_scheme, bool) state" where
  "cas_activity old new = do {
     v \<leftarrow> gets ax_activity_pending;
     whenM (v = old) (modify (\<lambda>s. s\<lparr>ax_activity_pending := new\<rparr>));
     return (v = old) }"

definition nsysnet_shim_take_ax_activity :: "('z shim_scheme, bool) state" where
  "nsysnet_shim_take_ax_activity = cas_activity 1 2"

definition stack_fd :: "int \<Rightarrow> 'z shim_scheme \<Rightarrow> int" where
  "stack_fd fd s = mapped_fd s ! nat fd"

definition track :: "nat \<Rightarrow> int \<Rightarrow> 'z shim_scheme \<Rightarrow> 'z shim_scheme" where
  "track fd lwfd s = (compat_state_reset (int fd) s)\<lparr>
     mapped_fd := (mapped_fd s)[fd := lwfd], open_mask := open_mask s OR bitm fd\<rparr>"

definition untrack :: "nat \<Rightarrow> 'z shim_scheme \<Rightarrow> 'z shim_scheme" where
  "untrack fd s = s\<lparr>open_mask := open_mask s AND NOT (bitm fd)\<rparr>"

definition track_fd :: "int \<Rightarrow> int \<Rightarrow> ('z shim_scheme, unit) state" where
  "track_fd fd lwfd = modify (track (nat fd) lwfd)"

definition untrack_fd :: "int \<Rightarrow> ('z shim_scheme, unit) state" where
  "untrack_fd fd = modify (untrack (nat fd))"

definition is_foreign :: "int \<Rightarrow> 'z shim_scheme \<Rightarrow> bool" where
  "is_foreign fd s \<longleftrightarrow>
     (if \<not> shim_accepts s then True else \<not> (fd_ok fd \<and> open_mask s AND bitm (nat fd) \<noteq> 0))"

section \<open>Translation tables\<close>

definition errno_table :: "int list" where
  "errno_table = [0, ENOBUFS, ETIMEDOUT, EISCONN, EOPNOTSUPP, ECONNABORTED, EWOULDBLOCK,
     ECONNREFUSED, ECONNRESET, ENOTCONN, EALREADY, EINVAL, EMSGSIZE, EPIPE, EDESTADDRREQ, - 999,
     ENOPROTOOPT, EBUSY, ENOMEM, EADDRNOTAVAIL, EADDRINUSE, EAFNOSUPPORT, EINPROGRESS, EIO, ENOTSOCK]"

fun find_from :: "nat \<Rightarrow> int \<Rightarrow> int list \<Rightarrow> nat option" where
  "find_from i e [] = None"
| "find_from i e (x # xs) = (if x = e then Some i else find_from (Suc i) e xs)"

definition errno_to_nsn :: "int \<Rightarrow> int" where
  "errno_to_nsn e = (case find_from 0 e errno_table of Some i \<Rightarrow> int i
     | None \<Rightarrow> if e = EFAULT then 29 else if e = ENETUNREACH then 30
         else if e = EPROTONOSUPPORT then 31 else if e = EPROTOTYPE then 32
         else if e = ENODEV then 42 else if e = EBADF then 49
         else if e = ECANCELED then 50 else if e = EMFILE then 51 else 23)"

definition msg_flags_to_lwip :: "int \<Rightarrow> int" where
  "msg_flags_to_lwip f =
     ((if f AND NSN_MSG_PEEK \<noteq> 0 then MSG_PEEK else 0) OR
      (if f AND NSN_MSG_DONTWAIT \<noteq> 0 then MSG_DONTWAIT else 0)) OR
     (if f AND NSN_MSG_OOB \<noteq> 0 then MSG_OOB else 0)"

definition sockaddr_to_lwip :: "nsn_sockaddr option \<Rightarrow> u32 \<Rightarrow> sockaddr_in option" where
  "sockaddr_to_lwip sa inlen = (case sa of None \<Rightarrow> None
     | Some n \<Rightarrow> if inlen < 8 \<or> nsn_family n \<noteq> 2 then None
         else Some \<lparr>sin_len = 16, sin_family = AF_INET, sin_port = nsn_port n, sin_addr = nsn_addr n,
                    sin_zero = replicate 8 0\<rparr>)"

text \<open>What \<open>sockaddr_to_nsn\<close> leaves in \<open>*out\<close> and \<open>*outlen\<close>, and its return value.\<close>

definition sockaddr_to_nsn ::
  "nsn_sockaddr option \<Rightarrow> u32 option \<Rightarrow> sockaddr_in \<Rightarrow> u32 \<Rightarrow> nsn_sockaddr option \<times> u32 option \<times> u32" where
  "sockaddr_to_nsn out outlen l cap = (case (out, outlen) of
     (Some _, Some _) \<Rightarrow> if cap < 16 then (out, outlen, 0)
        else if sin_family l \<noteq> AF_INET then (Some nsn0, outlen, 0)
        else (Some (nsn0\<lparr>nsn_family := 2, nsn_port := sin_port l, nsn_addr := sin_addr l\<rparr>), Some 16, 16)
   | _ \<Rightarrow> (out, outlen, 0))"

definition set_nonblocking :: "int \<Rightarrow> int \<Rightarrow> ('z shim_scheme, int) state" where
  "set_nonblocking lwfd on = do { r \<leftarrow> sock (Lwip_ioctl_FIONBIO lwfd on); return (r_ret r) }"

definition native_port :: "u16 \<Rightarrow> bool" where
  "native_port net_port \<longleftrightarrow> nsn_ntohs net_port = AX_NATIVE_PORT_WIILOAD"

definition socket_opt_to_lwip :: "int \<Rightarrow> int" where
  "socket_opt_to_lwip opt =
     (if opt = NSN_SO_REUSEADDR then 4 else if opt = NSN_SO_KEEPALIVE then 8
      else if opt = NSN_SO_BROADCAST then 0x20 else if opt = NSN_SO_ERROR then 0x1007
      else if opt = NSN_SO_TYPE then 0x1008 else - 1)"

definition ip_opt_to_lwip :: "int \<Rightarrow> int" where
  "ip_opt_to_lwip opt =
     (if opt = NSN_IP_TOS then 1 else if opt = NSN_IP_TTL then 2
      else if opt = NSN_IP_MULTICAST_IF then 6 else if opt = NSN_IP_MULTICAST_TTL then 5
      else if opt = NSN_IP_MULTICAST_LOOP then 7 else if opt = NSN_IP_ADD_MEMBERSHIP then 3
      else if opt = NSN_IP_DROP_MEMBERSHIP then 4 else - 1)"

definition tcp_opt_to_lwip :: "int \<Rightarrow> int" where
  "tcp_opt_to_lwip opt = (if opt = NSN_TCP_NODELAY then 1 else - 1)"

definition compat_set_int :: "bytes option \<Rightarrow> u32 \<Rightarrow> ('z shim_scheme, int) state" where
  "compat_set_int optval optlen =
     (if optval = None \<or> optlen < 4 then fail EINVAL else return 0)"

text \<open>The memory at \<open>optval\<close> and \<open>*optlen\<close> are returned as the call leaves them.\<close>

definition compat_get_int ::
  "bytes option \<Rightarrow> u32 option \<Rightarrow> int \<Rightarrow> ('z shim_scheme, int \<times> bytes option \<times> u32 option) state" where
  "compat_get_int optval optlen value = (case (optval, optlen) of
     (Some mem, Some n) \<Rightarrow>
        if n < 4 then do { r \<leftarrow> fail EINVAL; return (r, optval, optlen) }
        else return (0, Some (memcpy_at 0 (int_bytes value) mem), Some 4)
   | _ \<Rightarrow> do { r \<leftarrow> fail EINVAL; return (r, optval, optlen) })"

lemmas [runs] =
  set_errno_def [THEN run_cong] sock_def [THEN run_cong] nsn_def [THEN run_cong]
  native_def [THEN run_cong] fail_def [THEN run_cong] cas_activity_def [THEN run_cong]
  nsysnet_shim_take_ax_activity_def [THEN run_cong] track_fd_def [THEN run_cong]
  untrack_fd_def [THEN run_cong] set_nonblocking_def [THEN run_cong]
  compat_set_int_def [THEN run_cong] compat_get_int_def [THEN run_cong]

section \<open>The ownership table\<close>

text \<open>The abstract view: the lwIP socket a public descriptor stands for.\<close>

definition owned :: "'z shim_scheme \<Rightarrow> nat \<Rightarrow> int option" where
  "owned s n = (if bit (open_mask s) n then Some (mapped_fd s ! n) else None)"

lemma wf_reset [simp]: "shim_wf (compat_state_reset fd s) = shim_wf s"
  by (simp add: shim_wf_def compat_state_reset_def)

interpretation ft: fd_table shim_wf owned track untrack 32
proof
  fix s :: "'a shim_scheme" and n l
  assume s: "shim_wf s" and n: "n < (32 :: nat)"
  show "owned (track n l s) = (owned s)(n \<mapsto> l)"
  proof
    fix m
    show "owned (track n l s) m = ((owned s)(n \<mapsto> l)) m"
      using s n by (cases "m = n") (auto simp: owned_def track_def shim_wf_def masks)
  qed
  show "owned (untrack n s) = (owned s)(n := None)"
    by (auto simp: owned_def untrack_def masks)
  show "shim_wf (track n l s)" "shim_wf (untrack n s)"
    using s by (auto simp: track_def untrack_def shim_wf_def compat_state_reset_def)
next
  fix s :: "'a shim_scheme" and n l
  assume "owned s n = Some l"
  then show "n < 32" by (auto simp: owned_def bit32_less split: if_splits)
qed

lemma owned_cong: "open_mask t = open_mask s \<Longrightarrow> mapped_fd t = mapped_fd s \<Longrightarrow> owned t = owned s"
  by (simp add: owned_def fun_eq_iff)

lemma foreign_owned: "is_foreign fd s \<longleftrightarrow> \<not> (accepting_sockets s \<and> fd_ok fd \<and> owned s (nat fd) \<noteq> None)"
  by (auto simp: is_foreign_def shim_accepts_def owned_def fd_ok_def and_bitm_eq_0)

lemma stack_fd_owned: "\<not> is_foreign fd s \<Longrightarrow> owned s (nat fd) = Some (stack_fd fd s)"
  by (auto simp: foreign_owned owned_def stack_fd_def split: if_splits)

section \<open>Translations\<close>

lemma errno_nth: "i < 25 \<Longrightarrow> errno_to_nsn (errno_table ! i) = int i"
  by (simp add: less_Suc_eq numeral_eq_Suc) (elim disjE; simp add: errno_to_nsn_def errno_table_def)

lemma errno_bounds: "0 \<le> errno_to_nsn e \<and> errno_to_nsn e \<le> 51"
  by (simp add: errno_to_nsn_def errno_table_def)

section \<open>Properties\<close>

text \<open>Every errno the stack can leave is reported as a code nsysnet knows (0 to 51), and no
  two of them are confused except in the catch-all 23 (EIO).\<close>

theorem errno_faithful:
  "0 \<le> errno_to_nsn e \<and> errno_to_nsn e \<le> 51 \<and> inj_on errno_to_nsn {e. errno_to_nsn e \<noteq> 23}"
  by (auto simp: errno_bounds intro!: inj_onI)
     (simp add: errno_to_nsn_def errno_table_def split: if_splits)



text \<open>A shim that accepts sockets and owns none, and one that owns descriptor 7.\<close>

definition shim_init :: "(call list \<Rightarrow> call \<Rightarrow> resp) \<Rightarrow> shim" where
  "shim_init e = net.extend (net_init e)
     (shim.fields 0 0 (replicate 32 0) True 0 False False 0 False 0 False 0 0 (replicate 32 (- 1))
        (replicate 32 compat_fresh)
        (replicate 8 (nssl_relay.make False False False False (- 1) (- 1) (- 1) 0 0 0)))"

definition shim_one :: "(call list \<Rightarrow> call \<Rightarrow> resp) \<Rightarrow> shim" where
  "shim_one e = track 7 2 (shim_init e)"

lemmas shim_start = shim_one_def shim_init_def net_init_def shim.defs net.defs nssl_relay.defs track_def
  compat_state_reset_def is_foreign_def shim_accepts_def fd_ok_def owned_def bitm_def

end
