(* ===== verification/Shim_Sockets.thy ===== *)
theory Shim_Sockets
  imports Shim_State
begin

text \<open>
  The patched socket calls of the shim: opening, closing, naming, connecting, sending and
  receiving. \<open>my_f\<close> is the function the patch \<open>DECL_FUNCTION(int, f, ...)\<close> installs.

  A pointer that may be NULL is an option; memory a call may write is passed in and the new
  contents are returned beside the C result. A send buffer is the list of its bytes, a receive
  buffer the list of bytes the stack wrote.
\<close>

section \<open>Opening and closing\<close>

definition lwip_opt :: "int \<Rightarrow> int \<Rightarrow> int \<Rightarrow> ('z shim_scheme, int) state" where
  "lwip_opt lwfd opt v = do {
     r \<leftarrow> sock (Lwip_setsockopt lwfd SOL_SOCKET opt (Some (int_bytes v)) 4);
     return (r_ret r) }"

definition open_lwip :: "int \<Rightarrow> int \<Rightarrow> int \<Rightarrow> ('z shim_scheme, int) state" where
  "open_lwip domain type protocol = do {
     r \<leftarrow> sock (Lwip_socket domain type protocol);
     if r_ret r < 0 \<and> type AND NOT 0xF \<noteq> 0 then do {
       r2 \<leftarrow> sock (Lwip_socket domain (type AND 0xF) protocol);
       return (r_ret r2) }
     else return (r_ret r) }"

definition native_defaults :: "int \<Rightarrow> int \<Rightarrow> ('z shim_scheme, unit) state" where
  "native_defaults lwfd type = do {
     lwip_opt lwfd SO_RCVBUF 8192;
     whenM (type AND 0xF = SOCK_STREAM) (do { lwip_opt lwfd SO_SNDBUF 8192; return () });
     whenM (type AND 0xF = SOCK_DGRAM) (do { lwip_opt lwfd SO_BROADCAST 1; return () }) }"

text \<open>Reserve the native descriptor that will name an lwIP socket; give both back when the
  number does not fit the table.\<close>

definition reserve_fd :: "int \<Rightarrow> int \<Rightarrow> int \<Rightarrow> ('z shim_scheme, int option) state" where
  "reserve_fd lwfd type protocol = do {
     r \<leftarrow> nsn (Real_socket NSN_AF_INET type protocol);
     let fd = r_ret r;
     if fd < 0 \<or> fd \<ge> 32 then do {
       whenM (fd \<ge> 0) (do { nsn (Real_socketclose fd); return () });
       sock (Lwip_close lwfd);
       set_errno EMFILE;
       return None }
     else do { track_fd fd lwfd; return (Some fd) } }"

definition finish_socket :: "int \<Rightarrow> int \<Rightarrow> int \<Rightarrow> ('z shim_scheme, int) state" where
  "finish_socket type protocol s = do {
     whenM (s \<ge> 0) (native_defaults s type);
     if s < 0 then return s
     else do {
       fd \<leftarrow> reserve_fd s (type AND 0xF) protocol;
       (case fd of None \<Rightarrow> return (- 1) | Some fd \<Rightarrow> do { cas_activity 0 1; return fd }) } }"

definition my_socket :: "int \<Rightarrow> int \<Rightarrow> int \<Rightarrow> ('z shim_scheme, int) state" where
  "my_socket domain type protocol = do {
     forced \<leftarrow> gets force_native;
     accepts \<leftarrow> gets shim_accepts;
     ready \<leftarrow> ax_net_stack_ready;
     if forced \<or> \<not> accepts \<or> \<not> ready \<or> domain \<noteq> NSN_AF_INET then do {
       r \<leftarrow> native (Real_socket domain type protocol);
       return (r_ret r) }
     else do {
       set_errno 0;
       s \<leftarrow> open_lwip domain type protocol;
       finish_socket type protocol s } }"

fun detach_relay :: "int \<Rightarrow> nssl_relay list \<Rightarrow> nssl_relay list" where
  "detach_relay fd [] = []"
| "detach_relay fd (r # rs) =
     (if \<not> rl_allocated r then r # detach_relay fd rs
      else if rl_public_fd r = fd then r\<lparr>rl_public_fd := - 1, rl_stop := True\<rparr> # rs
      else r # detach_relay fd rs)"

definition nssl_relay_detach_public_fd :: "int \<Rightarrow> ('z shim_scheme, unit) state" where
  "nssl_relay_detach_public_fd fd = modify (\<lambda>s. s\<lparr>nssl_relays := detach_relay fd (nssl_relays s)\<rparr>)"

definition forget_public_fd :: "int \<Rightarrow> ('z shim_scheme, unit) state" where
  "forget_public_fd fd = modify (\<lambda>s. s\<lparr>
     ftp_restart_mask := ftp_restart_mask s AND NOT (bitm (nat fd)),
     nssl_public_mask := nssl_public_mask s AND NOT (bitm (nat fd)),
     nssl_connection_by_fd := (nssl_connection_by_fd s)[nat fd := - 1]\<rparr>)"

definition close_own :: "int \<Rightarrow> ('z shim_scheme, int) state" where
  "close_own sockfd = do {
     lwfd \<leftarrow> gets (stack_fd sockfd);
     r \<leftarrow> sock (Lwip_close lwfd);
     whenM (r_ret r = 0) (do {
       untrack_fd sockfd;
       nsn (Real_socketclose sockfd);
       return () });
     return (r_ret r) }"

definition my_socketclose :: "int \<Rightarrow> ('z shim_scheme, int) state" where
  "my_socketclose sockfd = do {
     foreign \<leftarrow> gets (is_foreign sockfd);
     if foreign then do {
       whenM (fd_ok sockfd) (forget_public_fd sockfd);
       nssl_relay_detach_public_fd sockfd;
       r \<leftarrow> native (Real_socketclose sockfd);
       return (r_ret r) }
     else do { set_errno 0; close_own sockfd } }"

definition close_owned :: "u32 \<Rightarrow> nat \<Rightarrow> ('z shim_scheme, unit) state" where
  "close_owned m i = whenM (m AND bitm i \<noteq> 0) (do {
     lwfd \<leftarrow> gets (stack_fd (int i));
     sock (Lwip_close lwfd);
     return () })"

definition close_table :: "u32 \<Rightarrow> ('z shim_scheme, unit) state" where
  "close_table m = do {
     modify (\<lambda>s. s\<lparr>open_mask := 0\<rparr>);
     for_each [0..<32] (close_owned m) }"

definition my_socketclose_all :: "('z shim_scheme, int) state" where
  "my_socketclose_all = do {
     modify (\<lambda>s. s\<lparr>ftp_restart_mask := 0, nssl_public_mask := 0,
                   nssl_connection_by_fd := replicate 32 (- 1)\<rparr>);
     accepts \<leftarrow> gets shim_accepts;
     if \<not> accepts then do { r \<leftarrow> native Real_socketclose_all; return (r_ret r) }
     else do {
       m \<leftarrow> gets open_mask;
       close_table m;
       r \<leftarrow> native Real_socketclose_all;
       return (r_ret r) } }"

section \<open>Binding and connecting\<close>

text \<open>FTPiiU binds to the console's Wi-Fi address: translate it to the adapter's.\<close>

definition ftp_rewrite_bind_to_ax :: "int \<Rightarrow> sockaddr_in \<Rightarrow> ('z shim_scheme, sockaddr_in \<times> bool) state" where
  "ftp_rewrite_bind_to_ax sockfd l =
     (if sin_family l \<noteq> AF_INET then return (l, False)
      else do {
        lwfd \<leftarrow> gets (stack_fd sockfd);
        r \<leftarrow> sock (Lwip_getsockopt lwfd SOL_SOCKET SO_TYPE (Some (int_bytes 0)) (Some 4));
        if r_ret r \<noteq> 0 \<or> int_at (r_data r) \<noteq> SOCK_STREAM then return (l, False)
        else do {
          ax_ip \<leftarrow> ax_net_ip4;
          if ax_ip = 0 then return (l, False)
          else if nsn_ntohs (sin_port l) = AX_FTP_PORT then do {
            modify (\<lambda>s. s\<lparr>ftp_native_bind_ip := sin_addr l, ftp_ax_redirect_active := True\<rparr>);
            if sin_addr l \<noteq> ax_ip then return (l\<lparr>sin_addr := ax_ip\<rparr>, True)
            else return (l, False) }
          else do {
            redirect \<leftarrow> gets ftp_ax_redirect_active;
            native_ip \<leftarrow> gets ftp_native_bind_ip;
            if nsn_ntohs (sin_port l) = 0 \<and> redirect \<and> sin_addr l = native_ip \<and> sin_addr l \<noteq> ax_ip
            then return (l\<lparr>sin_addr := ax_ip\<rparr>, True)
            else return (l, False) } } })"

definition bind_reserved :: "int \<Rightarrow> nsn_sockaddr option \<Rightarrow> u32 \<Rightarrow> ('z shim_scheme, int) state" where
  "bind_reserved sockfd addr addrlen = do {
     lwfd \<leftarrow> gets (stack_fd sockfd);
     sock (Lwip_close lwfd);
     untrack_fd sockfd;
     r \<leftarrow> native (Real_bind sockfd addr addrlen);
     return (r_ret r) }"

definition my_bind :: "int \<Rightarrow> nsn_sockaddr option \<Rightarrow> u32 \<Rightarrow> ('z shim_scheme, int) state" where
  "my_bind sockfd addr addrlen = do {
     foreign \<leftarrow> gets (is_foreign sockfd);
     if foreign then do { r \<leftarrow> native (Real_bind sockfd addr addrlen); return (r_ret r) }
     else do {
       set_errno 0;
       (case sockaddr_to_lwip addr addrlen of
          None \<Rightarrow> fail EAFNOSUPPORT
        | Some l \<Rightarrow>
            if native_port (sin_port l) then bind_reserved sockfd addr addrlen
            else do {
              (l', rewritten) \<leftarrow> ftp_rewrite_bind_to_ax sockfd l;
              lwfd \<leftarrow> gets (stack_fd sockfd);
              r \<leftarrow> sock (Lwip_bind lwfd l');
              return (r_ret r) }) } }"

definition my_connect :: "int \<Rightarrow> nsn_sockaddr option \<Rightarrow> u32 \<Rightarrow> ('z shim_scheme, int) state" where
  "my_connect sockfd addr addrlen = do {
     foreign \<leftarrow> gets (is_foreign sockfd);
     if foreign then do { r \<leftarrow> native (Real_connect sockfd addr addrlen); return (r_ret r) }
     else do {
       set_errno 0;
       (case sockaddr_to_lwip addr addrlen of
          None \<Rightarrow> fail EAFNOSUPPORT
        | Some l \<Rightarrow> do {
            lwfd \<leftarrow> gets (stack_fd sockfd);
            r \<leftarrow> sock (Lwip_connect lwfd l);
            return (r_ret r) }) } }"

definition my_listen :: "int \<Rightarrow> int \<Rightarrow> ('z shim_scheme, int) state" where
  "my_listen sockfd backlog = do {
     foreign \<leftarrow> gets (is_foreign sockfd);
     if foreign then do { r \<leftarrow> native (Real_listen sockfd backlog); return (r_ret r) }
     else do {
       set_errno 0;
       lwfd \<leftarrow> gets (stack_fd sockfd);
       r \<leftarrow> sock (Lwip_listen lwfd backlog);
       return (r_ret r) } }"

text \<open>\<open>sockaddr_to_nsn(addr, addrlen, &l, *addrlen)\<close> where \<open>addr\<close> is not NULL.\<close>

definition put_sockaddr ::
  "nsn_sockaddr option \<Rightarrow> u32 option \<Rightarrow> sockaddr_in \<Rightarrow> nsn_sockaddr option \<times> u32 option" where
  "put_sockaddr addr addrlen l = (case addrlen of None \<Rightarrow> (addr, addrlen)
     | Some cap \<Rightarrow> (case sockaddr_to_nsn addr addrlen l cap of (a, n, _) \<Rightarrow> (a, n)))"

text \<open>The memory an nsysnet call was given an address and a length to write.\<close>

definition native_addr ::
  "resp \<Rightarrow> nsn_sockaddr option \<Rightarrow> u32 option \<Rightarrow> nsn_sockaddr option \<times> u32 option" where
  "native_addr r addr addrlen = (map_option (\<lambda>_. r_nsa r) addr, map_option (\<lambda>_. r_len r) addrlen)"

type_synonym addr_out = "nsn_sockaddr option \<times> u32 option"

definition finish_accept ::
  "nsn_sockaddr option \<Rightarrow> u32 option \<Rightarrow> resp \<Rightarrow> ('z shim_scheme, int \<times> addr_out) state" where
  "finish_accept addr addrlen r =
     (if r_ret r < 0 then return (r_ret r, addr, addrlen)
      else do {
        lwip_opt (r_ret r) SO_SNDBUF 8192;
        lwip_opt (r_ret r) SO_RCVBUF 8192;
        fd \<leftarrow> reserve_fd (r_ret r) SOCK_STREAM 0;
        (case fd of None \<Rightarrow> return (- 1, addr, addrlen)
         | Some fd \<Rightarrow> return (fd, if addr \<noteq> None then put_sockaddr addr addrlen (r_lsa r)
                                   else (addr, addrlen))) })"

definition accept_own ::
  "int \<Rightarrow> nsn_sockaddr option \<Rightarrow> u32 option \<Rightarrow> ('z shim_scheme, int \<times> addr_out) state" where
  "accept_own lwfd addr addrlen = do {
     r \<leftarrow> sock (Lwip_accept lwfd (addr \<noteq> None));
     finish_accept addr addrlen r }"

definition my_accept ::
  "int \<Rightarrow> nsn_sockaddr option \<Rightarrow> u32 option \<Rightarrow> ('z shim_scheme, int \<times> addr_out) state" where
  "my_accept sockfd addr addrlen = do {
     foreign \<leftarrow> gets (is_foreign sockfd);
     if foreign then do {
       r \<leftarrow> native (Real_accept sockfd addr addrlen);
       return (r_ret r, native_addr r addr addrlen) }
     else do {
       set_errno 0;
       if addr \<noteq> None \<and> addrlen = None then do { e \<leftarrow> fail EFAULT; return (e, addr, addrlen) }
       else do {
         lwfd \<leftarrow> gets (stack_fd sockfd);
         accept_own lwfd addr addrlen } } }"

definition my_shutdown :: "int \<Rightarrow> int \<Rightarrow> ('z shim_scheme, int) state" where
  "my_shutdown sockfd how = do {
     foreign \<leftarrow> gets (is_foreign sockfd);
     if foreign then do { r \<leftarrow> native (Real_shutdown sockfd how); return (r_ret r) }
     else do {
       set_errno 0;
       lwfd \<leftarrow> gets (stack_fd sockfd);
       r \<leftarrow> sock (Lwip_shutdown lwfd how);
       return (r_ret r) } }"

section \<open>Sending and receiving\<close>

definition my_send :: "int \<Rightarrow> bytes \<Rightarrow> int \<Rightarrow> ('z shim_scheme, int) state" where
  "my_send sockfd buf flags = do {
     foreign \<leftarrow> gets (is_foreign sockfd);
     if foreign then do { r \<leftarrow> native (Real_send sockfd buf flags); return (r_ret r) }
     else do {
       set_errno 0;
       lwfd \<leftarrow> gets (stack_fd sockfd);
       r \<leftarrow> sock (Lwip_send lwfd buf (msg_flags_to_lwip flags));
       return (r_ret r) } }"

definition my_sendto ::
  "int \<Rightarrow> bytes \<Rightarrow> int \<Rightarrow> nsn_sockaddr option \<Rightarrow> u32 \<Rightarrow> ('z shim_scheme, int) state" where
  "my_sendto sockfd buf flags dest_addr addrlen = do {
     foreign \<leftarrow> gets (is_foreign sockfd);
     if foreign then do {
       r \<leftarrow> native (Real_sendto sockfd buf flags dest_addr addrlen);
       return (r_ret r) }
     else do {
       set_errno 0;
       lwfd \<leftarrow> gets (stack_fd sockfd);
       if dest_addr = None then do {
         r \<leftarrow> sock (Lwip_sendto lwfd buf (int (length buf)) (msg_flags_to_lwip flags) None);
         return (r_ret r) }
       else (case sockaddr_to_lwip dest_addr addrlen of
          None \<Rightarrow> fail EAFNOSUPPORT
        | Some l \<Rightarrow> do {
            r \<leftarrow> sock (Lwip_sendto lwfd buf (int (length buf)) (msg_flags_to_lwip flags) (Some l));
            return (r_ret r) }) } }"

definition my_recv :: "int \<Rightarrow> int \<Rightarrow> int \<Rightarrow> ('z shim_scheme, int \<times> bytes) state" where
  "my_recv sockfd len flags = do {
     foreign \<leftarrow> gets (is_foreign sockfd);
     if foreign then do { r \<leftarrow> native (Real_recv sockfd len flags); return (r_ret r, r_data r) }
     else do {
       set_errno 0;
       lwfd \<leftarrow> gets (stack_fd sockfd);
       r \<leftarrow> sock (Lwip_recv lwfd len (msg_flags_to_lwip flags));
       return (r_ret r, r_data r) } }"

definition my_recvfrom ::
  "int \<Rightarrow> int \<Rightarrow> int \<Rightarrow> nsn_sockaddr option \<Rightarrow> u32 option \<Rightarrow> ('z shim_scheme, int \<times> bytes \<times> addr_out) state" where
  "my_recvfrom sockfd len flags src_addr addrlen = do {
     foreign \<leftarrow> gets (is_foreign sockfd);
     if foreign then do {
       r \<leftarrow> native (Real_recvfrom sockfd len flags src_addr addrlen);
       return (r_ret r, r_data r, native_addr r src_addr addrlen) }
     else do {
       set_errno 0;
       if src_addr \<noteq> None \<and> addrlen = None then do { e \<leftarrow> fail EFAULT; return (e, [], src_addr, addrlen) }
       else do {
         lwfd \<leftarrow> gets (stack_fd sockfd);
         r \<leftarrow> sock (Lwip_recvfrom lwfd len (msg_flags_to_lwip flags) (src_addr \<noteq> None));
         return (r_ret r, r_data r,
           if r_ret r \<ge> 0 \<and> src_addr \<noteq> None then put_sockaddr src_addr addrlen (r_lsa r)
           else (src_addr, addrlen)) } } }"

text \<open>The \<open>extra\<close> area after a successful \<open>recvfrom_ex\<close>: cleared, and the received TTL (low
  byte of the answer's \<open>r_val\<close>) first if asked for.\<close>

definition fill_extra :: "bytes option \<Rightarrow> int \<Rightarrow> int \<Rightarrow> u8 \<Rightarrow> bytes option" where
  "fill_extra extra extra_len flags ttl =
     (if extra_len > 0
      then map_option (\<lambda>e. let z = memcpy_at 0 (replicate (nat extra_len) 0) e in
             if flags AND NSN_MSG_IP_RECVTTL \<noteq> 0 then z[0 := ttl] else z) extra
      else extra)"

definition my_recvfrom_ex ::
  "int \<Rightarrow> int \<Rightarrow> int \<Rightarrow> nsn_sockaddr option \<Rightarrow> u32 option \<Rightarrow> bytes option \<Rightarrow> int \<Rightarrow>
     ('z shim_scheme, int \<times> bytes \<times> addr_out \<times> bytes option) state" where
  "my_recvfrom_ex sockfd len flags src_addr addrlen extra extra_len = do {
     foreign \<leftarrow> gets (is_foreign sockfd);
     if foreign then do {
       r \<leftarrow> native (Real_recvfrom_ex sockfd len flags src_addr addrlen extra extra_len);
       return (r_ret r, r_data r, native_addr r src_addr addrlen,
               map_option (\<lambda>_. r_extra r) extra) }
     else do {
       set_errno 0;
       if src_addr \<noteq> None \<and> addrlen = None then do {
         e \<leftarrow> fail EFAULT; return (e, [], (src_addr, addrlen), extra) }
       else if extra_len = 0 then do {
         e \<leftarrow> fail EINVAL; return (e, [], (src_addr, addrlen), extra) }
       else do {
         lwfd \<leftarrow> gets (stack_fd sockfd);
         r \<leftarrow> sock (Lwip_recvfrom_with_ttl lwfd len (msg_flags_to_lwip flags) (src_addr \<noteq> None));
         return (r_ret r, r_data r,
           (if r_ret r \<ge> 0 \<and> src_addr \<noteq> None then put_sockaddr src_addr addrlen (r_lsa r)
            else (src_addr, addrlen)),
           (if r_ret r \<ge> 0 then fill_extra extra extra_len flags (ucast (r_val r)) else extra)) } } }"

section \<open>Names\<close>

text \<open>A connected socket bound to the wildcard address reports the adapter's.\<close>

definition local_name :: "int \<Rightarrow> sockaddr_in \<Rightarrow> ('z shim_scheme, sockaddr_in) state" where
  "local_name lwfd l =
     (if sin_family l = AF_INET \<and> sin_addr l = 0 then do {
        r \<leftarrow> sock (Lwip_getpeername lwfd);
        l' \<leftarrow> (if r_ret r = 0 then do {
           ax_ip \<leftarrow> ax_net_ip4;
           return (if ax_ip \<noteq> 0 then l\<lparr>sin_addr := ax_ip\<rparr> else l) }
         else return l);
        set_errno 0;
        return l' }
      else return l)"

definition my_getsockname ::
  "int \<Rightarrow> nsn_sockaddr option \<Rightarrow> u32 option \<Rightarrow> ('z shim_scheme, int \<times> addr_out) state" where
  "my_getsockname sockfd addr addrlen = do {
     foreign \<leftarrow> gets (is_foreign sockfd);
     if foreign then do {
       r \<leftarrow> native (Real_getsockname sockfd addr addrlen);
       return (r_ret r, native_addr r addr addrlen) }
     else do {
       set_errno 0;
       if addr = None \<or> addrlen = None then do { e \<leftarrow> fail EFAULT; return (e, addr, addrlen) }
       else do {
         lwfd \<leftarrow> gets (stack_fd sockfd);
         r \<leftarrow> sock (Lwip_getsockname lwfd);
         if r_ret r \<noteq> 0 then return (r_ret r, addr, addrlen)
         else do {
           l \<leftarrow> local_name lwfd (r_lsa r);
           return (0, put_sockaddr addr addrlen l) } } } }"

definition my_getpeername ::
  "int \<Rightarrow> nsn_sockaddr option \<Rightarrow> u32 option \<Rightarrow> ('z shim_scheme, int \<times> addr_out) state" where
  "my_getpeername sockfd addr addrlen = do {
     foreign \<leftarrow> gets (is_foreign sockfd);
     if foreign then do {
       r \<leftarrow> native (Real_getpeername sockfd addr addrlen);
       return (r_ret r, native_addr r addr addrlen) }
     else do {
       set_errno 0;
       if addr = None \<or> addrlen = None then do { e \<leftarrow> fail EFAULT; return (e, addr, addrlen) }
       else do {
         lwfd \<leftarrow> gets (stack_fd sockfd);
         r \<leftarrow> sock (Lwip_getpeername lwfd);
         return (r_ret r, if r_ret r = 0 then put_sockaddr addr addrlen (r_lsa r) else (addr, addrlen)) } } }"

lemmas [runs] =
  lwip_opt_def [THEN run_cong] open_lwip_def [THEN run_cong] native_defaults_def [THEN run_cong]
  reserve_fd_def [THEN run_cong] finish_socket_def [THEN run_cong] my_socket_def [THEN run_cong] forget_public_fd_def [THEN run_cong]
  nssl_relay_detach_public_fd_def [THEN run_cong] my_socketclose_def [THEN run_cong]
  close_own_def [THEN run_cong] bind_reserved_def [THEN run_cong] close_owned_def [THEN run_cong] close_table_def [THEN run_cong] my_socketclose_all_def [THEN run_cong]
  ftp_rewrite_bind_to_ax_def [THEN run_cong] my_bind_def [THEN run_cong] my_connect_def [THEN run_cong]
  my_listen_def [THEN run_cong] finish_accept_def [THEN run_cong] accept_own_def [THEN run_cong] my_accept_def [THEN run_cong] my_shutdown_def [THEN run_cong]
  my_send_def [THEN run_cong] my_sendto_def [THEN run_cong] my_recv_def [THEN run_cong]
  my_recvfrom_def [THEN run_cong] my_recvfrom_ex_def [THEN run_cong] local_name_def [THEN run_cong]
  my_getsockname_def [THEN run_cong] my_getpeername_def [THEN run_cong]

end
