(* ===== verification/Shim_Sockopt.thy ===== *)
theory Shim_Sockopt
  imports Shim_Sockets
begin

text \<open>
  \<open>setsockopt\<close>, \<open>getsockopt\<close> and \<open>socketlasterr\<close> of the shim. Options lwIP does not have are
  kept in \<open>compat_sock\<close>; the others are translated by the tables of \<open>Shim_State\<close> and forwarded.
\<close>

section \<open>Setting\<close>

definition lwip_set :: "int \<Rightarrow> int \<Rightarrow> int \<Rightarrow> bytes option \<Rightarrow> u32 \<Rightarrow> ('z shim_scheme, int) state" where
  "lwip_set sockfd level opt optval optlen = do {
     lwfd \<leftarrow> gets (stack_fd sockfd);
     r \<leftarrow> sock (Lwip_setsockopt lwfd level opt optval optlen);
     return (r_ret r) }"

text \<open>\<open>if (compat_set_int(optval, optlen) != 0) return - 1;\<close> before the rest, which may read
  the int.\<close>

definition with_int :: "bytes option \<Rightarrow> u32 \<Rightarrow> (int \<Rightarrow> ('z shim_scheme, int) state) \<Rightarrow> ('z shim_scheme, int) state" where
  "with_int optval optlen k = do {
     bad \<leftarrow> compat_set_int optval optlen;
     if bad \<noteq> 0 then return (- 1) else k (int_at (the optval)) }"

definition store :: "int \<Rightarrow> (compat_sock_state \<Rightarrow> compat_sock_state) \<Rightarrow> ('z shim_scheme, int) state" where
  "store sockfd f = do { modify (upd_compat sockfd f); return 0 }"

definition set_nbio :: "int \<Rightarrow> int \<Rightarrow> ('z shim_scheme, int) state" where
  "set_nbio sockfd on = do { lwfd \<leftarrow> gets (stack_fd sockfd); set_nonblocking lwfd on }"

definition set_sndbuf :: "int \<Rightarrow> int \<Rightarrow> ('z shim_scheme, int) state" where
  "set_sndbuf sockfd v =
     (if v > 65535 then fail EINVAL
      else do {
        r \<leftarrow> (if v \<ge> 0 then lwip_set sockfd SOL_SOCKET SO_SNDBUF (Some (int_bytes v)) 4 else return 0);
        if r \<noteq> 0 then return r else store sockfd (\<lambda>c. c\<lparr>sndbuf := v\<rparr>) })"

definition set_rcvbuf :: "int \<Rightarrow> int \<Rightarrow> ('z shim_scheme, int) state" where
  "set_rcvbuf sockfd v =
     (if v > 65535 then fail EINVAL
      else do {
        r \<leftarrow> lwip_set sockfd SOL_SOCKET SO_RCVBUF (Some (int_bytes v)) 4;
        if r = 0 then store sockfd (\<lambda>c. c\<lparr>rcvbuf := v\<rparr>) else return r })"

definition set_maxseg :: "int \<Rightarrow> int \<Rightarrow> ('z shim_scheme, int) state" where
  "set_maxseg sockfd v = (if v \<le> 0 then fail EINVAL else store sockfd (\<lambda>c. c\<lparr>tcp_maxseg := v\<rparr>))"

text \<open>\<open>struct linger\<close> is two ints.\<close>

definition set_linger :: "int \<Rightarrow> bytes option \<Rightarrow> u32 \<Rightarrow> ('z shim_scheme, int) state" where
  "set_linger sockfd optval optlen = (case optval of None \<Rightarrow> fail EINVAL
     | Some mem \<Rightarrow> if optlen < 8 then fail EINVAL
         else if int_at (drop 4 mem) < 0 then fail EINVAL
         else store sockfd (\<lambda>c. c\<lparr>linger_on := (if int_at mem \<noteq> 0 then 1 else 0),
                                   linger_secs := int_at (drop 4 mem)\<rparr>))"

definition is_flag_opt :: "int \<Rightarrow> bool" where
  "is_flag_opt opt \<longleftrightarrow> opt = NSN_SO_DONTROUTE \<or> opt = NSN_SO_OOBINLINE \<or> opt = NSN_SO_TCPSACK \<or>
     opt = NSN_SO_WINSCALE"

definition set_flag :: "int \<Rightarrow> int \<Rightarrow> int \<Rightarrow> ('z shim_scheme, int) state" where
  "set_flag sockfd opt v = do {
     modify (compat_flag_set sockfd (word_of_int opt) (v \<noteq> 0));
     return 0 }"

definition set_socket_opt :: "int \<Rightarrow> int \<Rightarrow> bytes option \<Rightarrow> u32 \<Rightarrow> ('z shim_scheme, int) state" where
  "set_socket_opt sockfd opt optval optlen =
     (if opt = NSN_SO_NBIO then set_nbio sockfd 1
      else if opt = NSN_SO_BIO then set_nbio sockfd 0
      else if opt = NSN_SO_NONBLOCK then
        with_int optval optlen (\<lambda>v. set_nbio sockfd (if v \<noteq> 0 then 1 else 0))
      else if is_flag_opt opt then with_int optval optlen (set_flag sockfd opt)
      else if opt = NSN_SO_NOSLOWSTART then compat_set_int optval optlen
      else if opt = NSN_SO_SNDBUF then with_int optval optlen (set_sndbuf sockfd)
      else if opt = NSN_SO_RCVBUF then with_int optval optlen (set_rcvbuf sockfd)
      else if opt = NSN_SO_SNDLOWAT \<or> opt = NSN_SO_RCVLOWAT then fail ENOPROTOOPT
      else if opt = NSN_SO_MAXMSG then with_int optval optlen (set_maxseg sockfd)
      else if opt = NSN_SO_LINGER then set_linger sockfd optval optlen
      else if opt = NSN_SO_RXDATA \<or> opt = NSN_SO_TXDATA \<or> opt = NSN_SO_MYADDR then fail ENOPROTOOPT
      else if socket_opt_to_lwip opt < 0 then fail ENOPROTOOPT
      else lwip_set sockfd SOL_SOCKET (socket_opt_to_lwip opt) optval optlen)"

definition set_ip_opt :: "int \<Rightarrow> int \<Rightarrow> bytes option \<Rightarrow> u32 \<Rightarrow> ('z shim_scheme, int) state" where
  "set_ip_opt sockfd opt optval optlen =
     (if ip_opt_to_lwip opt < 0 then fail ENOPROTOOPT
      else lwip_set sockfd IPPROTO_IP (ip_opt_to_lwip opt) optval optlen)"

definition set_tcp_opt :: "int \<Rightarrow> int \<Rightarrow> bytes option \<Rightarrow> u32 \<Rightarrow> ('z shim_scheme, int) state" where
  "set_tcp_opt sockfd opt optval optlen =
     (if opt = NSN_TCP_NODELAY then lwip_set sockfd IPPROTO_TCP (tcp_opt_to_lwip opt) optval optlen
      else if opt = NSN_TCP_ACKDELAYTIME then
        with_int optval optlen (\<lambda>v. store sockfd (\<lambda>c. c\<lparr>tcp_ackdelay := v\<rparr>))
      else if opt = NSN_TCP_NOACKDELAY then
        with_int optval optlen (\<lambda>v. store sockfd (\<lambda>c. c\<lparr>tcp_noackdelay := v\<rparr>))
      else if opt = NSN_TCP_UNKNOWN then
        with_int optval optlen (\<lambda>v. store sockfd (\<lambda>c. c\<lparr>tcp_unknown := v\<rparr>))
      else if opt = NSN_TCP_MAXSEG then with_int optval optlen (set_maxseg sockfd)
      else fail ENOPROTOOPT)"

definition my_setsockopt :: "int \<Rightarrow> int \<Rightarrow> int \<Rightarrow> bytes option \<Rightarrow> u32 \<Rightarrow> ('z shim_scheme, int) state" where
  "my_setsockopt sockfd level optname optval optlen = do {
     foreign \<leftarrow> gets (is_foreign sockfd);
     if foreign then do {
       r \<leftarrow> native (Real_setsockopt sockfd level optname optval optlen);
       return (r_ret r) }
     else do {
       set_errno 0;
       if level = NSN_SOL_SOCKET then set_socket_opt sockfd optname optval optlen
       else if level = IPPROTO_IP then set_ip_opt sockfd optname optval optlen
       else if level = NSN_SOL_TCP then set_tcp_opt sockfd optname optval optlen
       else fail ENOPROTOOPT } }"

section \<open>Getting\<close>

type_synonym opt_out = "int \<times> bytes option \<times> u32 option"

definition get_fail :: "int \<Rightarrow> bytes option \<Rightarrow> u32 option \<Rightarrow> ('z shim_scheme, opt_out) state" where
  "get_fail e optval optlen = do { r \<leftarrow> fail e; return (r, optval, optlen) }"

definition get_room :: "bytes option \<Rightarrow> u32 option \<Rightarrow> u32 \<Rightarrow> bool" where
  "get_room optval optlen n \<longleftrightarrow> optval \<noteq> None \<and> (case optlen of None \<Rightarrow> False | Some k \<Rightarrow> \<not> k < n)"

definition put_mem :: "bytes \<Rightarrow> bytes option \<Rightarrow> bytes option" where
  "put_mem bs optval = map_option (memcpy_at 0 bs) optval"

definition lwip_get ::
  "int \<Rightarrow> int \<Rightarrow> int \<Rightarrow> bytes option \<Rightarrow> u32 option \<Rightarrow> ('z shim_scheme, opt_out) state" where
  "lwip_get sockfd level opt optval optlen = do {
     lwfd \<leftarrow> gets (stack_fd sockfd);
     r \<leftarrow> sock (Lwip_getsockopt lwfd level opt optval optlen);
     return (r_ret r, put_mem (r_data r) optval, map_option (\<lambda>_. r_len r) optlen) }"

definition get_nonblock :: "int \<Rightarrow> bytes option \<Rightarrow> u32 option \<Rightarrow> ('z shim_scheme, opt_out) state" where
  "get_nonblock sockfd optval optlen =
     (if \<not> get_room optval optlen 4 then get_fail EINVAL optval optlen
      else do {
        lwfd \<leftarrow> gets (stack_fd sockfd);
        r \<leftarrow> sock (Lwip_fcntl_F_GETFL lwfd);
        if r_ret r < 0 then return (- 1, optval, optlen)
        else return (0, put_mem (int_bytes (if r_ret r AND 1 \<noteq> 0 then 1 else 0)) optval, Some 4) })"

definition get_rxdata :: "int \<Rightarrow> bytes option \<Rightarrow> u32 option \<Rightarrow> ('z shim_scheme, opt_out) state" where
  "get_rxdata sockfd optval optlen =
     (if \<not> get_room optval optlen 4 then get_fail EINVAL optval optlen
      else do {
        lwfd \<leftarrow> gets (stack_fd sockfd);
        r \<leftarrow> sock (Lwip_ioctl_FIONREAD lwfd);
        if r_ret r = 0 then return (0, put_mem (be32_bytes (r_val r)) optval, Some 4)
        else return (r_ret r, optval, optlen) })"

definition get_txdata :: "int \<Rightarrow> bytes option \<Rightarrow> u32 option \<Rightarrow> ('z shim_scheme, opt_out) state" where
  "get_txdata sockfd optval optlen = do {
     (r, v, n) \<leftarrow> lwip_get sockfd SOL_SOCKET SO_TXDATA (Some (int_bytes 0)) (Some 4);
     if r \<noteq> 0 then return (r, optval, optlen)
     else compat_get_int optval optlen (int_at (the v)) }"

definition get_myaddr :: "bytes option \<Rightarrow> u32 option \<Rightarrow> ('z shim_scheme, opt_out) state" where
  "get_myaddr optval optlen =
     (if \<not> get_room optval optlen 4 then get_fail EINVAL optval optlen
      else do {
        ip \<leftarrow> ax_net_ip4;
        return (0, put_mem (be32_bytes ip) optval, Some 4) })"

definition get_compat ::
  "int \<Rightarrow> (compat_sock_state \<Rightarrow> int) \<Rightarrow> bytes option \<Rightarrow> u32 option \<Rightarrow> ('z shim_scheme, opt_out) state" where
  "get_compat sockfd f optval optlen = do {
     c \<leftarrow> gets (\<lambda>s. compat_sock s ! nat sockfd);
     compat_get_int optval optlen (f c) }"

definition get_linger :: "int \<Rightarrow> bytes option \<Rightarrow> u32 option \<Rightarrow> ('z shim_scheme, opt_out) state" where
  "get_linger sockfd optval optlen =
     (if \<not> get_room optval optlen 8 then get_fail EINVAL optval optlen
      else do {
        c \<leftarrow> gets (\<lambda>s. compat_sock s ! nat sockfd);
        return (0, put_mem (int_bytes (if linger_on c \<noteq> 0 then NSN_SO_LINGER else 0) @
                            int_bytes (linger_secs c)) optval, Some 8) })"

definition get_mapped :: "int \<Rightarrow> int \<Rightarrow> bytes option \<Rightarrow> u32 option \<Rightarrow> ('z shim_scheme, opt_out) state" where
  "get_mapped sockfd opt optval optlen =
     (if socket_opt_to_lwip opt < 0 then get_fail ENOPROTOOPT optval optlen
      else do {
        (rc, v, n) \<leftarrow> lwip_get sockfd SOL_SOCKET (socket_opt_to_lwip opt) optval optlen;
        if rc = 0 \<and> opt = NSN_SO_ERROR \<and> get_room v n 4
        then return (rc, put_mem (int_bytes (errno_to_nsn (int_at (the v)))) v, n)
        else return (rc, v, n) })"

definition get_socket_opt :: "int \<Rightarrow> int \<Rightarrow> bytes option \<Rightarrow> u32 option \<Rightarrow> ('z shim_scheme, opt_out) state" where
  "get_socket_opt sockfd opt optval optlen =
     (if opt = NSN_SO_NONBLOCK then get_nonblock sockfd optval optlen
      else if opt = NSN_SO_NBIO \<or> opt = NSN_SO_BIO \<or> opt = NSN_SO_NOSLOWSTART
      then get_fail ENOPROTOOPT optval optlen
      else if is_flag_opt opt then do {
        v \<leftarrow> gets (compat_flag_value sockfd (word_of_int opt));
        compat_get_int optval optlen v }
      else if opt = NSN_SO_RXDATA then get_rxdata sockfd optval optlen
      else if opt = NSN_SO_TXDATA then get_txdata sockfd optval optlen
      else if opt = NSN_SO_MYADDR then get_myaddr optval optlen
      else if opt = NSN_SO_SNDBUF then get_compat sockfd sndbuf optval optlen
      else if opt = NSN_SO_RCVBUF then get_compat sockfd rcvbuf optval optlen
      else if opt = NSN_SO_SNDLOWAT \<or> opt = NSN_SO_RCVLOWAT \<or> opt = NSN_SO_HOPCNT
      then compat_get_int optval optlen 0
      else if opt = NSN_SO_MAXMSG then get_compat sockfd tcp_maxseg optval optlen
      else if opt = NSN_SO_LINGER then get_linger sockfd optval optlen
      else get_mapped sockfd opt optval optlen)"

definition get_ip_opt :: "int \<Rightarrow> int \<Rightarrow> bytes option \<Rightarrow> u32 option \<Rightarrow> ('z shim_scheme, opt_out) state" where
  "get_ip_opt sockfd opt optval optlen =
     (if ip_opt_to_lwip opt < 0 then get_fail ENOPROTOOPT optval optlen
      else lwip_get sockfd IPPROTO_IP (ip_opt_to_lwip opt) optval optlen)"

definition get_tcp_opt :: "int \<Rightarrow> int \<Rightarrow> bytes option \<Rightarrow> u32 option \<Rightarrow> ('z shim_scheme, opt_out) state" where
  "get_tcp_opt sockfd opt optval optlen =
     (if opt = NSN_TCP_NODELAY then lwip_get sockfd IPPROTO_TCP (tcp_opt_to_lwip opt) optval optlen
      else if opt = NSN_TCP_ACKDELAYTIME then get_compat sockfd tcp_ackdelay optval optlen
      else if opt = NSN_TCP_NOACKDELAY then get_compat sockfd tcp_noackdelay optval optlen
      else if opt = NSN_TCP_MAXSEG then get_compat sockfd tcp_maxseg optval optlen
      else if opt = NSN_TCP_UNKNOWN then get_compat sockfd tcp_unknown optval optlen
      else get_fail ENOPROTOOPT optval optlen)"

definition my_getsockopt ::
  "int \<Rightarrow> int \<Rightarrow> int \<Rightarrow> bytes option \<Rightarrow> u32 option \<Rightarrow> ('z shim_scheme, opt_out) state" where
  "my_getsockopt sockfd level optname optval optlen = do {
     foreign \<leftarrow> gets (is_foreign sockfd);
     if foreign then do {
       r \<leftarrow> native (Real_getsockopt sockfd level optname optval optlen);
       return (r_ret r, put_mem (r_data r) optval, map_option (\<lambda>_. r_len r) optlen) }
     else do {
       set_errno 0;
       if level = NSN_SOL_SOCKET then get_socket_opt sockfd optname optval optlen
       else if level = IPPROTO_IP then get_ip_opt sockfd optname optval optlen
       else if level = NSN_SOL_TCP then get_tcp_opt sockfd optname optval optlen
       else get_fail ENOPROTOOPT optval optlen } }"

definition my_socketlasterr :: "('z shim_scheme, int) state" where
  "my_socketlasterr = do {
     forced \<leftarrow> gets force_native;
     e \<leftarrow> gets errno;
     if forced then do { r \<leftarrow> nsn Real_socketlasterr; return (r_ret r) }
     else if e < 0 then do { r \<leftarrow> nsn Real_socketlasterr; return (r_ret r) }
     else return (errno_to_nsn e) }"

lemmas [runs] =
  lwip_set_def [THEN run_cong] with_int_def [THEN run_cong] store_def [THEN run_cong]
  set_nbio_def [THEN run_cong] set_sndbuf_def [THEN run_cong] set_rcvbuf_def [THEN run_cong]
  set_maxseg_def [THEN run_cong] set_linger_def [THEN run_cong] set_flag_def [THEN run_cong]
  set_socket_opt_def [THEN run_cong] set_ip_opt_def [THEN run_cong] set_tcp_opt_def [THEN run_cong]
  my_setsockopt_def [THEN run_cong] get_fail_def [THEN run_cong] lwip_get_def [THEN run_cong]
  get_nonblock_def [THEN run_cong] get_rxdata_def [THEN run_cong] get_txdata_def [THEN run_cong]
  get_myaddr_def [THEN run_cong] get_compat_def [THEN run_cong] get_linger_def [THEN run_cong]
  get_mapped_def [THEN run_cong] get_socket_opt_def [THEN run_cong] get_ip_opt_def [THEN run_cong]
  get_tcp_opt_def [THEN run_cong] my_getsockopt_def [THEN run_cong] my_socketlasterr_def [THEN run_cong]

section \<open>Reading back what was set\<close>

text \<open>The options whose value the shim keeps itself, and where.\<close>

definition compat_field :: "int \<Rightarrow> int \<Rightarrow> (compat_sock_state \<Rightarrow> int) option" where
  "compat_field level opt =
     (if level = NSN_SOL_SOCKET then
        (if opt = NSN_SO_SNDBUF then Some sndbuf else if opt = NSN_SO_RCVBUF then Some rcvbuf
         else if opt = NSN_SO_MAXMSG then Some tcp_maxseg else None)
      else if level = NSN_SOL_TCP then
        (if opt = NSN_TCP_ACKDELAYTIME then Some tcp_ackdelay
         else if opt = NSN_TCP_NOACKDELAY then Some tcp_noackdelay
         else if opt = NSN_TCP_MAXSEG then Some tcp_maxseg
         else if opt = NSN_TCP_UNKNOWN then Some tcp_unknown else None)
      else None)"

lemma owned_fd_ok: "\<not> is_foreign fd s \<Longrightarrow> 0 \<le> fd \<and> nat fd < 32"
  by (auto simp: is_foreign_def fd_ok_def split: if_splits)

lemma is_foreign_cong:
  "accepting_sockets t = accepting_sockets s \<Longrightarrow> open_mask t = open_mask s \<Longrightarrow> is_foreign fd t = is_foreign fd s"
  by (simp add: is_foreign_def shim_accepts_def)

text \<open>\<open>unset s t\<close>: no option of any descriptor has changed from \<open>s\<close> to \<open>t\<close>.
  \<open>now_set fd f x s\<close>: a successful call has put \<open>x\<close> into field \<open>f\<close> of \<open>fd\<close> and nothing else.\<close>

definition unset :: "'z shim_scheme \<Rightarrow> 'z shim_scheme \<Rightarrow> bool" where
  "unset s t \<longleftrightarrow> compat_sock t = compat_sock s \<and> open_mask t = open_mask s \<and>
     accepting_sockets t = accepting_sockets s"

definition now_set :: "int \<Rightarrow> (compat_sock_state \<Rightarrow> int) \<Rightarrow> int \<Rightarrow> 'z shim_scheme \<Rightarrow> int \<Rightarrow> 'z shim_scheme \<Rightarrow> bool" where
  "now_set fd f x s r t \<longleftrightarrow> (r = 0 \<longrightarrow> f (compat_sock t ! nat fd) = x \<and> open_mask t = open_mask s \<and>
     accepting_sockets t = accepting_sockets s \<and> (\<forall>m. m \<noteq> nat fd \<longrightarrow> compat_sock t ! m = compat_sock s ! m))"

lemma wp_store:
  assumes "unset s t" and "nat fd < length (compat_sock s)" and "\<And>c. f (g c) = x"
  shows "wp (store fd g) (now_set fd f x s) t"
  using assms by (simp add: store_def upd_compat_def now_set_def unset_def wp)

lemma wp_fail: "wp (fail e) (now_set fd f x s) t"
  by (simp add: fail_def set_errno_def now_set_def wp)

lemma wp_lwip_set: "unset s t \<Longrightarrow> wp (lwip_set fd lv opt v n) (\<lambda>_. unset s) t"
  by (simp add: lwip_set_def sock_def set_errno_def unset_def wp split: option.split)

lemma wp_sndbuf:
  assumes "unset s t" and "nat fd < length (compat_sock s)"
  shows "wp (set_sndbuf fd x) (now_set fd sndbuf x s) t"
proof -
  have "wp (if x \<ge> 0 then lwip_set fd SOL_SOCKET SO_SNDBUF (Some (int_bytes x)) 4 else return 0) (\<lambda>_. unset s) t"
    using assms(1) by (simp add: wp_lwip_set wp_return)
  then show ?thesis
    unfolding set_sndbuf_def
    by (auto simp: wp_fail intro!: wp_bind_I [where R = "\<lambda>_. unset s"] wp_store assms(2))
       (auto simp: now_set_def wp_return)
qed

lemma wp_rcvbuf:
  assumes "unset s t" and "nat fd < length (compat_sock s)"
  shows "wp (set_rcvbuf fd x) (now_set fd rcvbuf x s) t"
  unfolding set_rcvbuf_def
  by (auto simp: wp_fail intro!: wp_bind_I [where R = "\<lambda>_. unset s"] wp_lwip_set wp_store assms)
     (auto simp: now_set_def wp_return)

lemma wp_maxseg:
  assumes "unset s t" and "nat fd < length (compat_sock s)"
  shows "wp (set_maxseg fd x) (now_set fd tcp_maxseg x s) t"
  unfolding set_maxseg_def by (auto simp: wp_fail intro!: wp_store assms)

lemma compat_fieldE:
  assumes "compat_field lv opt = Some f"
  obtains "lv = NSN_SOL_SOCKET" "opt = NSN_SO_SNDBUF" "f = sndbuf"
    | "lv = NSN_SOL_SOCKET" "opt = NSN_SO_RCVBUF" "f = rcvbuf"
    | "lv = NSN_SOL_SOCKET" "opt = NSN_SO_MAXMSG" "f = tcp_maxseg"
    | "lv = NSN_SOL_TCP" "opt = NSN_TCP_ACKDELAYTIME" "f = tcp_ackdelay"
    | "lv = NSN_SOL_TCP" "opt = NSN_TCP_NOACKDELAY" "f = tcp_noackdelay"
    | "lv = NSN_SOL_TCP" "opt = NSN_TCP_MAXSEG" "f = tcp_maxseg"
    | "lv = NSN_SOL_TCP" "opt = NSN_TCP_UNKNOWN" "f = tcp_unknown"
  using assms by (auto simp: compat_field_def split: if_splits)

lemma wp_with_int:
  assumes "\<not> n < 4" and "wp (k (int_at v)) Q s"
  shows "wp (with_int (Some v) n k) Q s"
  using assms by (simp add: with_int_def compat_set_int_def wp)

lemma set_compat_wp:
  assumes "shim_wf s" and "\<not> is_foreign fd s" and "compat_field lv opt = Some f" and "\<not> n < 4"
  shows "wp (my_setsockopt fd lv opt (Some v) n) (now_set fd f (int_at v) s) s"
proof -
  let ?t = "s\<lparr>errno := 0\<rparr>"
  have u: "unset s ?t" by (simp add: unset_def)
  have l: "nat fd < length (compat_sock s)"
    using owned_fd_ok [OF assms(2)] assms(1) by (simp add: shim_wf_def)
  from assms(3) have "wp (if lv = NSN_SOL_SOCKET then set_socket_opt fd opt (Some v) n
       else if lv = IPPROTO_IP then set_ip_opt fd opt (Some v) n
       else if lv = NSN_SOL_TCP then set_tcp_opt fd opt (Some v) n
       else fail ENOPROTOOPT) (now_set fd f (int_at v) s) ?t"
    by (cases rule: compat_fieldE)
       (simp_all add: set_socket_opt_def set_tcp_opt_def is_flag_opt_def wp_with_int [OF assms(4)]
          wp_sndbuf [OF u l] wp_rcvbuf [OF u l] wp_maxseg [OF u l] wp_store [OF u l])
  then show ?thesis
    using assms(2) by (simp add: my_setsockopt_def set_errno_def wp_bind wp_gets wp_modify)
qed

lemma get_compat_run:
  assumes "\<not> is_foreign fd s" and "compat_field lv opt = Some f" and "\<not> k < 4"
  shows "run_state (my_getsockopt fd lv opt (Some mem) (Some k)) s =
    ((0, Some (memcpy_at 0 (int_bytes (f (compat_sock s ! nat fd))) mem), Some 4), s\<lparr>errno := 0\<rparr>)"
  using assms(2) by (cases rule: compat_fieldE) (simp_all add: runs is_flag_opt_def assms(1,3))

text \<open>The options kept as one bit.\<close>

lemma flag_optE:
  assumes "is_flag_opt opt"
  obtains "opt = NSN_SO_DONTROUTE" | "opt = NSN_SO_OOBINLINE" | "opt = NSN_SO_TCPSACK" | "opt = NSN_SO_WINSCALE"
  using assms by (auto simp: is_flag_opt_def)

lemma flag_bits: "((a :: u32) OR m) AND m = m" "(a AND NOT m) AND m = 0"
  by (auto intro!: bit_word_eqI simp: bit_simps)

lemma flag_word:
  assumes "is_flag_opt opt"
  shows "(word_of_int opt :: u32) \<noteq> 0" "sint (word_of_int opt :: u32) = opt"
  using assms by (cases rule: flag_optE, simp_all)+

lemma flag_stored:
  assumes "shim_wf s" and "fd_ok fd" and "is_flag_opt opt"
  shows "compat_flag_value fd (word_of_int opt) (compat_flag_set fd (word_of_int opt) on s) = (if on then opt else 0)"
proof -
  have "nat fd < length (compat_sock s)" using assms(1,2) by (simp add: shim_wf_def fd_ok_def nat_less_iff)
  then show ?thesis
    using assms(2) flag_word [OF assms(3)]
    by (simp add: compat_flag_value_def compat_flag_set_def upd_compat_def flag_bits)
qed

lemma flag_set_run:
  assumes "\<not> is_foreign fd s" and "is_flag_opt opt" and "\<not> n < 4"
  shows "run_state (my_setsockopt fd NSN_SOL_SOCKET opt (Some v) n) s =
    (0, compat_flag_set fd (word_of_int opt) (int_at v \<noteq> 0) (s\<lparr>errno := 0\<rparr>))"
  using assms(2) by (cases rule: flag_optE) (simp_all add: runs is_flag_opt_def assms(1,3))

lemma flag_get_run:
  assumes "\<not> is_foreign fd s" and "is_flag_opt opt" and "\<not> k < 4"
  shows "fst (run_state (my_getsockopt fd NSN_SOL_SOCKET opt (Some mem) (Some k)) s) =
    (0, Some (memcpy_at 0 (int_bytes (compat_flag_value fd (word_of_int opt) s)) mem), Some 4)"
  using assms(2) by (cases rule: flag_optE)
    (use assms(1,3) in \<open>simp_all add: runs is_flag_opt_def compat_flag_value_def\<close>)

section \<open>Properties\<close>

text \<open>C19. An option value the shim keeps for the title (buffer sizes, segment size, delayed-ACK
  settings) is read back byte for byte after a \<open>setsockopt\<close> that succeeded, and setting it on
  one descriptor changes no other descriptor's options.\<close>

theorem sockopt_roundtrip:
  assumes "shim_wf s" and "\<not> is_foreign fd s" and "compat_field lv opt = Some f"
    and "4 \<le> n" and "4 \<le> length v" and "4 \<le> k"
    and "run_state (my_setsockopt fd lv opt (Some v) n) s = (0, t)"
  shows "fst (run_state (my_getsockopt fd lv opt (Some mem) (Some k)) t) = (0, Some (take 4 v @ drop 4 mem), Some 4) \<and>
    (\<forall>m. m \<noteq> nat fd \<longrightarrow> compat_sock t ! m = compat_sock s ! m)"
proof -
  have "now_set fd f (int_at v) s 0 t"
    using wpD [OF assms(7) set_compat_wp [OF assms(1-3)]] assms(4) by (simp add: not_less)
  then have t: "f (compat_sock t ! nat fd) = int_at v" "\<not> is_foreign fd t"
      "\<forall>m. m \<noteq> nat fd \<longrightarrow> compat_sock t ! m = compat_sock s ! m"
    using assms(2) is_foreign_cong [of t s fd] by (auto simp: now_set_def)
  have "\<not> k < 4" using assms(6) by (simp add: not_less)
  from get_compat_run [OF t(2) assms(3) this, of mem] t(1,3) assms(5) show ?thesis
    by (simp add: memcpy_at_def)
qed

theorem sockopt_roundtrip_witness:
  "\<exists>t. run_state (my_setsockopt 7 NSN_SOL_TCP NSN_TCP_MAXSEG (Some [0, 0, 2, 24]) 4) (shim_one (\<lambda>_ _. resp0)) = (0, t) \<and>
     fst (run_state (my_getsockopt 7 NSN_SOL_TCP NSN_TCP_MAXSEG (Some [1, 1, 1, 1]) (Some 4)) t) =
       (0, Some [0, 0, 2, 24], Some 4)"
proof -
  let ?s = "shim_one (\<lambda>_ _. resp0)" and ?v = "[0, 0, 2, 24] :: bytes"
  have s: "shim_wf ?s" "\<not> is_foreign 7 ?s"
    by (simp_all add: shim_start shim_wf_def)
  have "int_at ?v = 536" by (simp add: int_at_def be32_def)
  then have "fst (run_state (my_setsockopt 7 NSN_SOL_TCP NSN_TCP_MAXSEG (Some ?v) 4) ?s) = 0"
    using s by (simp add: runs)
  then obtain t where t: "run_state (my_setsockopt 7 NSN_SOL_TCP NSN_TCP_MAXSEG (Some ?v) 4) ?s = (0, t)"
    by (metis prod.collapse)
  with sockopt_roundtrip [OF s _ _ _ _ t, of tcp_maxseg 4 "[1, 1, 1, 1]"] show ?thesis
    by (simp add: compat_field_def)
qed

text \<open>The four options kept as single bits read back as nsysnet reports them: the option's
  own number when it was switched on, 0 when it was switched off; and none of them reaches lwIP,
  where \<open>SO_TCPSACK\<close> would be taken for \<open>SO_REUSEPORT\<close>.\<close>

theorem sockopt_flags:
  assumes "shim_wf s" and "\<not> is_foreign fd s" and "is_flag_opt opt" and "4 \<le> n" and "4 \<le> k"
  shows "\<exists>t. run_state (my_setsockopt fd NSN_SOL_SOCKET opt (Some v) n) s = (0, t) \<and> trace t = trace s \<and>
    fst (run_state (my_getsockopt fd NSN_SOL_SOCKET opt (Some mem) (Some k)) t) =
      (0, Some (memcpy_at 0 (int_bytes (if int_at v \<noteq> 0 then opt else 0)) mem), Some 4)"
proof -
  have nk: "\<not> n < 4" "\<not> k < 4" using assms(4,5) by (simp_all add: not_less)
  let ?t = "compat_flag_set fd (word_of_int opt) (int_at v \<noteq> 0) (s\<lparr>errno := 0\<rparr>)"
  have fd: "fd_ok fd" using assms(2) by (simp add: is_foreign_def split: if_splits)
  have "shim_wf (s\<lparr>errno := 0\<rparr>)" using assms(1) by (simp add: shim_wf_def)
  note v = flag_stored [OF this fd assms(3), of "int_at v \<noteq> 0"]
  have "\<not> is_foreign fd ?t"
    using assms(2) by (simp add: compat_flag_set_def upd_compat_def is_foreign_def shim_accepts_def split: if_splits)
  from flag_get_run [OF this assms(3) nk(2), of mem] flag_set_run [OF assms(2,3) nk(1), of v] v
  show ?thesis by (simp add: compat_flag_set_def upd_compat_def)
qed

theorem sockopt_flags_witness:
  "\<exists>t. run_state (my_setsockopt 7 NSN_SOL_SOCKET NSN_SO_TCPSACK (Some [0, 0, 0, 1]) 4) (shim_one (\<lambda>_ _. resp0)) = (0, t) \<and>
     fst (run_state (my_getsockopt 7 NSN_SOL_SOCKET NSN_SO_TCPSACK (Some [9, 9, 9, 9]) (Some 4)) t) =
       (0, Some (int_bytes 0x200), Some 4)"
proof -
  let ?s = "shim_one (\<lambda>_ _. resp0)"
  have "shim_wf ?s" "\<not> is_foreign 7 ?s"
    by (simp_all add: shim_start shim_wf_def)
  from sockopt_flags [OF this, of NSN_SO_TCPSACK 4 4 "[0, 0, 0, 1]" "[9, 9, 9, 9]"] show ?thesis
    by (simp add: is_flag_opt_def int_at_def be32_def memcpy_at_def) blast
qed

end
