(* ===== verification/Shim_Multi.thy ===== *)
theory Shim_Multi
  imports Shim_Sockets
begin

text \<open>
  The batch calls \<open>sendto_multi\<close>, \<open>sendto_multi_ex\<close> and \<open>recvfrom_multi\<close>. The caller's arrays
  are lists, with the addresses and byte lengths the caller declares for them beside. A result
  \<open>None\<close> means that the call touched memory outside one of the lists.
\<close>

section \<open>sendto\_multi\<close>

fun send_each :: "int \<Rightarrow> bytes \<Rightarrow> int \<Rightarrow> int \<Rightarrow> nsn_sockaddr list \<Rightarrow> ('z shim_scheme, int) state" where
  "send_each sockfd buf len flags [] = return len"
| "send_each sockfd buf len flags (d # ds) = (case sockaddr_to_lwip (Some d) 16 of
     None \<Rightarrow> fail EAFNOSUPPORT
   | Some l \<Rightarrow> do {
       lwfd \<leftarrow> gets (stack_fd sockfd);
       r \<leftarrow> sock (Lwip_sendto lwfd buf len (msg_flags_to_lwip flags) (Some l));
       if r_ret r < 0 then return (- 1)
       else if r_ret r \<noteq> len then fail EIO
       else send_each sockfd buf len flags ds })"

definition my_sendto_multi ::
  "int \<Rightarrow> bytes \<Rightarrow> int \<Rightarrow> int \<Rightarrow> nsn_sockaddr list \<Rightarrow> int \<Rightarrow> ('z shim_scheme, int) state" where
  "my_sendto_multi sockfd buf len flags destv dest_count = do {
     foreign \<leftarrow> gets (is_foreign sockfd);
     if foreign then do {
       r \<leftarrow> native (Real_sendto_multi sockfd buf len flags destv dest_count);
       return (r_ret r) }
     else do { set_errno 0; send_each sockfd buf len flags (take (nat dest_count) destv) } }"

section \<open>sendto\_multi\_ex\<close>

record sendto_multi_ex_buffers =
  sx_ptr :: u32
  sx_buffer_ptr :: u32
  sx_buffer :: bytes
  sx_bufferlen :: u32
  sx_lens_ptr :: u32
  sx_lens :: "int list"
  sx_lens_len :: u32
  sx_dests_ptr :: u32
  sx_dests :: "nsn_sockaddr list"
  sx_destslen :: u32
  sx_results_ptr :: u32
  sx_results :: "int list"
  sx_resultslen :: u32

datatype scan = Scan_oob | Scan_einval | Scan_total nat

text \<open>The loop over \<open>datagram_lens[i]\<close>, \<open>i\<close> counting up to \<open>i + k\<close>.\<close>

fun scan_lens :: "int list \<Rightarrow> nat \<Rightarrow> nat \<Rightarrow> nat \<Rightarrow> scan" where
  "scan_lens ls i 0 tot = Scan_total tot"
| "scan_lens ls i (Suc k) tot =
     (if i \<ge> length ls then Scan_oob
      else if ls ! i < 0 then Scan_einval
      else if tot + nat (ls ! i) > 2 ^ 32 - 1 then Scan_einval
      else scan_lens ls (Suc i) k (tot + nat (ls ! i)))"

definition sx_aligned :: "sendto_multi_ex_buffers \<Rightarrow> bool" where
  "sx_aligned b \<longleftrightarrow> nsn_ipc_ptr_ok (sx_ptr b) \<and> nsn_ipc_ptr_ok (sx_buffer_ptr b) \<and>
     nsn_ipc_ptr_ok (sx_lens_ptr b) \<and> nsn_ipc_ptr_ok (sx_dests_ptr b) \<and> nsn_ipc_ptr_ok (sx_results_ptr b) \<and>
     sx_bufferlen b AND 0x3f = 0 \<and> sx_lens_len b AND 0x3f = 0 \<and> sx_destslen b AND 0x3f = 0 \<and>
     sx_resultslen b AND 0x3f = 0"

definition sx_fits :: "sendto_multi_ex_buffers \<Rightarrow> nat \<Rightarrow> nat \<Rightarrow> bool" where
  "sx_fits b count tot \<longleftrightarrow>
     \<not> (sx_bufferlen b < nsn_ipc_pad (of_nat tot) \<or> sx_lens_len b < nsn_ipc_pad (of_nat count * 4) \<or>
        sx_destslen b < nsn_ipc_pad (of_nat count * 16) \<or> sx_resultslen b < nsn_ipc_pad (of_nat count * 4))"

text \<open>The sending loop: \<open>k\<close> datagrams from number \<open>i\<close> on, the next one at \<open>off\<close>.\<close>

fun sx_send :: "int \<Rightarrow> int \<Rightarrow> nat \<Rightarrow> nat \<Rightarrow> nat \<Rightarrow> int \<Rightarrow> sendto_multi_ex_buffers \<Rightarrow>
    ('z shim_scheme, (int \<times> sendto_multi_ex_buffers) option) state" where
  "sx_send sockfd flags 0 i off tot b = return (Some (tot, b))"
| "sx_send sockfd flags (Suc k) i off tot b =
     (if i \<ge> length (sx_lens b) \<or> i \<ge> length (sx_dests b) \<or> i \<ge> length (sx_results b) then return None
      else let len = sx_lens b ! i in (case sockaddr_to_lwip (Some (sx_dests b ! i)) 16 of
        None \<Rightarrow> do {
          e \<leftarrow> fail EAFNOSUPPORT;
          return (Some (e, b\<lparr>sx_results := (sx_results b)[i := - 1]\<rparr>)) }
      | Some dest \<Rightarrow>
          if off + nat len > length (sx_buffer b) then return None
          else do {
            lwfd \<leftarrow> gets (stack_fd sockfd);
            r \<leftarrow> sock (Lwip_sendto lwfd (slice off (nat len) (sx_buffer b)) len (msg_flags_to_lwip flags) (Some dest));
            let b' = b\<lparr>sx_results := (sx_results b)[i := r_ret r]\<rparr>;
            if r_ret r < 0 then return (Some (- 1, b'))
            else sx_send sockfd flags k (Suc i) (off + nat len) (tot + r_ret r) b' }))"

definition clear_results :: "nat \<Rightarrow> int list \<Rightarrow> int list option" where
  "clear_results count rs = (if count \<le> length rs then Some (memcpy_at 0 (replicate count 0) rs) else None)"

definition sx_checked :: "int \<Rightarrow> int \<Rightarrow> sendto_multi_ex_buffers \<Rightarrow> nat \<Rightarrow>
    ('z shim_scheme, (int \<times> sendto_multi_ex_buffers) option) state" where
  "sx_checked sockfd flags b count = (case scan_lens (sx_lens b) 0 count 0 of
     Scan_oob \<Rightarrow> return None
   | Scan_einval \<Rightarrow> do { e \<leftarrow> fail EINVAL; return (Some (e, b)) }
   | Scan_total tot \<Rightarrow>
       if \<not> sx_fits b count tot then do { e \<leftarrow> fail EINVAL; return (Some (e, b)) }
       else (case clear_results count (sx_results b) of None \<Rightarrow> return None
             | Some rs \<Rightarrow> sx_send sockfd flags count 0 0 0 (b\<lparr>sx_results := rs\<rparr>)))"

text \<open>Outside memory is None; inside it the C result and the struct as it is left.\<close>

definition my_sendto_multi_ex ::
  "int \<Rightarrow> int \<Rightarrow> sendto_multi_ex_buffers option \<Rightarrow> int \<Rightarrow>
     ('z shim_scheme, (int \<times> sendto_multi_ex_buffers option) option) state" where
  "my_sendto_multi_ex sockfd flags bp count = do {
     foreign \<leftarrow> gets (is_foreign sockfd);
     if foreign then do {
       r \<leftarrow> native (Real_sendto_multi_ex sockfd flags count);
       return (Some (r_ret r, map_option (\<lambda>b. b\<lparr>sx_results := r_ints r\<rparr>) bp)) }
     else do {
       set_errno 0;
       (case bp of None \<Rightarrow> do { e \<leftarrow> fail EINVAL; return (Some (e, None)) }
        | Some b \<Rightarrow>
            if count < 0 then do { e \<leftarrow> fail EINVAL; return (Some (e, bp)) }
            else if count = 0 then return (Some (0, bp))
            else if \<not> sx_aligned b then do { e \<leftarrow> fail EINVAL; return (Some (e, bp)) }
            else do {
              r \<leftarrow> sx_checked sockfd flags b (nat count);
              return (map_option (\<lambda>(n, b'). (n, Some b')) r) }) } }"

section \<open>recvfrom\_multi\<close>

record recvfrom_multi_buffers =
  rm_ptr :: u32
  rm_buffer_ptr :: u32
  rm_buffer :: bytes
  rm_bufferlen :: u32
  rm_froms_ptr :: u32
  rm_froms :: "nsn_sockaddr list"
  rm_fromslen :: u32
  rm_results_ptr :: u32
  rm_results :: "int list"
  rm_resultslen :: u32

definition rm_aligned :: "recvfrom_multi_buffers \<Rightarrow> bool" where
  "rm_aligned b \<longleftrightarrow> nsn_ipc_ptr_ok (rm_ptr b) \<and> nsn_ipc_ptr_ok (rm_buffer_ptr b) \<and>
     nsn_ipc_ptr_ok (rm_froms_ptr b) \<and> nsn_ipc_ptr_ok (rm_results_ptr b) \<and>
     rm_bufferlen b AND 0x3f = 0 \<and> rm_fromslen b AND 0x3f = 0 \<and> rm_resultslen b AND 0x3f = 0"

definition rm_fits :: "recvfrom_multi_buffers \<Rightarrow> nat \<Rightarrow> nat \<Rightarrow> bool" where
  "rm_fits b datagram_len count \<longleftrightarrow>
     \<not> (rm_bufferlen b < nsn_ipc_pad (of_nat (datagram_len * count)) \<or>
        rm_fromslen b < nsn_ipc_pad (of_nat count * 16) \<or> rm_resultslen b < nsn_ipc_pad (of_nat count * 4))"

definition bad_timeval :: "timeval option \<Rightarrow> bool" where
  "bad_timeval t = (case t of None \<Rightarrow> False | Some (sec, usec) \<Rightarrow> sec < 0 \<or> usec < 0 \<or> usec \<ge> 1000000)"

definition fd_bit :: "int \<Rightarrow> u32" where
  "fd_bit fd = (if fd_ok fd then bitm (nat fd) else 0)"

datatype wait_result = Ready | Timed_out | Wait_failed

text \<open>Wait on one lwIP socket until a deadline, if there is one.\<close>

definition recv_wait :: "int \<Rightarrow> int option \<Rightarrow> ('z shim_scheme, wait_result) state" where
  "recv_wait lwfd deadline = (case deadline of None \<Rightarrow> return Ready
     | Some d \<Rightarrow> do {
         now \<leftarrow> ext (Os OSGetTime);
         if r_ret now \<ge> d then return Timed_out
         else do {
           us \<leftarrow> ext (Os (OSTicksToMicroseconds (d - r_ret now)));
           r \<leftarrow> sock (Lwip_select (lwfd + 1) (Some (fd_bit lwfd)) None None
                 (Some (r_ret us div 1000000, r_ret us mod 1000000)));
           return (if r_ret r = 0 then Timed_out else if r_ret r < 0 then Wait_failed else Ready) } })"

fun rm_recv :: "int \<Rightarrow> int \<Rightarrow> nat \<Rightarrow> int option \<Rightarrow> nat \<Rightarrow> nat \<Rightarrow> recvfrom_multi_buffers \<Rightarrow>
    ('z shim_scheme, (int \<times> recvfrom_multi_buffers) option) state" where
  "rm_recv lwfd flags datagram_len deadline 0 i b = return (Some (int i, b))"
| "rm_recv lwfd flags datagram_len deadline (Suc k) i b =
     (if i \<ge> length (rm_results b) then return None
      else do {
        w \<leftarrow> recv_wait lwfd deadline;
        let res = (\<lambda>v. b\<lparr>rm_results := (rm_results b)[i := v]\<rparr>);
        (case w of
          Timed_out \<Rightarrow> do { set_errno 0; return (Some (int i, res (- 1))) }
        | Wait_failed \<Rightarrow> return (Some (if i = 0 then - 1 else int i, res (- 1)))
        | Ready \<Rightarrow>
            if i * datagram_len + datagram_len > length (rm_buffer b) then return None
            else do {
              r \<leftarrow> sock (Lwip_recvfrom lwfd (int datagram_len) (msg_flags_to_lwip flags) True);
              let b' = (res (r_ret r))\<lparr>rm_buffer :=
                         memcpy_at (i * datagram_len) (take datagram_len (r_data r)) (rm_buffer b)\<rparr>;
              if r_ret r < 0 then do {
                e \<leftarrow> gets errno;
                if e = EWOULDBLOCK then do { set_errno 0; return (Some (int i, b')) }
                else return (Some (if i = 0 then - 1 else int i, b')) }
              else if i \<ge> length (rm_froms b') then return None
              else (case sockaddr_to_nsn (Some (rm_froms b' ! i)) (Some 16) (r_lsa r) 16 of (a, _) \<Rightarrow>
                rm_recv lwfd flags datagram_len deadline k (Suc i)
                  (b'\<lparr>rm_froms := (rm_froms b')[i := the a]\<rparr>)) }) })"

definition rm_deadline :: "timeval option \<Rightarrow> ('z shim_scheme, int option) state" where
  "rm_deadline timeout = (case timeout of None \<Rightarrow> return None
     | Some (sec, usec) \<Rightarrow> do {
         now \<leftarrow> ext (Os OSGetTime);
         ticks \<leftarrow> ext (Os (OSMicrosecondsToTicks (nat sec * 1000000 + nat usec)));
         return (Some (r_ret now + r_ret ticks)) })"

definition rm_checked :: "int \<Rightarrow> int \<Rightarrow> recvfrom_multi_buffers \<Rightarrow> nat \<Rightarrow> nat \<Rightarrow> timeval option \<Rightarrow>
    ('z shim_scheme, (int \<times> recvfrom_multi_buffers) option) state" where
  "rm_checked sockfd flags b datagram_len count timeout =
     (if datagram_len * count > 2 ^ 32 - 1 \<or> \<not> rm_fits b datagram_len count
      then do { e \<leftarrow> fail EINVAL; return (Some (e, b)) }
      else (case clear_results count (rm_results b) of None \<Rightarrow> return None
        | Some rs \<Rightarrow> do {
            deadline \<leftarrow> rm_deadline timeout;
            lwfd \<leftarrow> gets (stack_fd sockfd);
            rm_recv lwfd flags datagram_len deadline count 0 (b\<lparr>rm_results := rs\<rparr>) }))"

definition my_recvfrom_multi ::
  "int \<Rightarrow> int \<Rightarrow> recvfrom_multi_buffers option \<Rightarrow> int \<Rightarrow> int \<Rightarrow> timeval option \<Rightarrow>
     ('z shim_scheme, (int \<times> recvfrom_multi_buffers option) option) state" where
  "my_recvfrom_multi sockfd flags bp datagram_len count timeout = do {
     foreign \<leftarrow> gets (is_foreign sockfd);
     if foreign then do {
       r \<leftarrow> native (Real_recvfrom_multi sockfd flags datagram_len count timeout);
       return (Some (r_ret r, map_option (\<lambda>b. b\<lparr>rm_buffer := r_data r, rm_froms := r_nsas r,
                                                rm_results := r_ints r\<rparr>) bp)) }
     else do {
       set_errno 0;
       (case bp of None \<Rightarrow> do { e \<leftarrow> fail EINVAL; return (Some (e, None)) }
        | Some b \<Rightarrow>
            if datagram_len < 0 \<or> count < 0 \<or> bad_timeval timeout
            then do { e \<leftarrow> fail EINVAL; return (Some (e, bp)) }
            else if count = 0 then return (Some (0, bp))
            else if \<not> rm_aligned b then do { e \<leftarrow> fail EINVAL; return (Some (e, bp)) }
            else do {
              r \<leftarrow> rm_checked sockfd flags b (nat datagram_len) (nat count) timeout;
              return (map_option (\<lambda>(n, b'). (n, Some b')) r) }) } }"

lemmas [runs] =
  my_sendto_multi_def [THEN run_cong] sx_checked_def [THEN run_cong] my_sendto_multi_ex_def [THEN run_cong]
  recv_wait_def [THEN run_cong] rm_deadline_def [THEN run_cong] rm_checked_def [THEN run_cong]
  my_recvfrom_multi_def [THEN run_cong]

section \<open>Sizes\<close>

lemma pad_ge:
  assumes "unat x \<le> 2 ^ 32 - 64"
  shows "unat x \<le> unat (nsn_ipc_pad x)"
proof -
  let ?w = "x + 0x3f"
  have w: "unat ?w = unat x + 63"
    using assms by (subst unat_add_lem [THEN iffD1]) simp_all
  have "nsn_ipc_pad x = push_bit 6 (drop_bit 6 ?w)"
  proof -
    have m: "(0x3f :: u32) = mask 6" by (simp add: mask_eq_exp_minus_1)
    have "w AND NOT (mask 6) = push_bit 6 (drop_bit 6 w)" for w :: u32
      by (intro bit_word_eqI) (auto simp: bit_simps)
    then show ?thesis unfolding nsn_ipc_pad_def m .
  qed
  then have "nsn_ipc_pad x = ?w - take_bit 6 ?w"
    using bits_ident [of 6 ?w] by (simp add: algebra_simps)
  moreover have le: "unat (take_bit 6 ?w) \<le> 63"
    by (simp only: unsigned_take_bit_eq) (simp add: take_bit_eq_mod)
  moreover have "take_bit 6 ?w \<le> ?w"
    unfolding word_le_nat_alt using le w by simp
  ultimately show ?thesis using w by (simp add: unat_sub)
qed

lemma unat_of_nat_small: "n < 2 ^ 32 \<Longrightarrow> unat (of_nat n :: u32) = n"
  by (simp add: unat_of_nat take_bit_eq_mod)

text \<open>A size check \<open>\<not> declared < nsn_ipc_pad (n * k)\<close> without wrap-around.\<close>

lemma pad_check:
  assumes "\<not> len < nsn_ipc_pad (of_nat n * of_nat k)" and "n * k \<le> 2 ^ 32 - 64"
  shows "n * k \<le> unat len"
proof -
  have e: "(of_nat n * of_nat k :: u32) = of_nat (n * k)" by simp
  have "unat (of_nat (n * k) :: u32) = n * k"
    using assms(2) by (intro unat_of_nat_small) simp
  with pad_ge [of "of_nat (n * k)"] assms e show ?thesis
    by (auto simp: word_less_nat_alt not_less simp del: of_nat_mult)
qed

definition rm_sized :: "recvfrom_multi_buffers \<Rightarrow> bool" where
  "rm_sized b \<longleftrightarrow> length (rm_buffer b) = unat (rm_bufferlen b) \<and>
     16 * length (rm_froms b) = unat (rm_fromslen b) \<and> 4 * length (rm_results b) = unat (rm_resultslen b)"

definition sx_sized :: "sendto_multi_ex_buffers \<Rightarrow> bool" where
  "sx_sized b \<longleftrightarrow> length (sx_buffer b) = unat (sx_bufferlen b) \<and>
     4 * length (sx_lens b) = unat (sx_lens_len b) \<and>
     16 * length (sx_dests b) = unat (sx_destslen b) \<and> 4 * length (sx_results b) = unat (sx_resultslen b)"

section \<open>Staying inside\<close>

definition inside :: "'a option \<Rightarrow> bool" where
  "inside r \<longleftrightarrow> r \<noteq> None"

lemma inside_simps [simp]: "inside (Some x)" "\<not> inside None" "inside (map_option f r) = inside r"
  by (simp_all add: inside_def)

lemma returns_wait:
  "returns P a \<Longrightarrow> returns P b \<Longrightarrow> returns P c \<Longrightarrow>
     returns P (case w of Ready \<Rightarrow> a | Timed_out \<Rightarrow> b | Wait_failed \<Rightarrow> c)"
  by (cases w) simp_all

lemma rm_recv_inside:
  assumes "i + k \<le> length (rm_results b)" and "i + k \<le> length (rm_froms b)"
    and "(i + k) * dl \<le> length (rm_buffer b)"
  shows "returns inside (rm_recv l f dl d k i b :: ('z shim_scheme, _) state)"
  using assms
proof (induction k arbitrary: i b)
  case 0
  then show ?case by (simp add: returns)
next
  case (Suc k)
  have room: "i * dl + dl \<le> length (rm_buffer b)"
    using Suc.prems(3) by (simp add: algebra_simps)
  have here: "i < length (rm_results b)" "i < length (rm_froms b)"
    using Suc.prems by simp_all
  have next_ok: "returns inside (rm_recv l f dl d k (Suc i)
      (b\<lparr>rm_results := rs, rm_buffer := memcpy_at (i * dl) (take dl bs) (rm_buffer b), rm_froms := fs\<rparr>)
        :: ('z shim_scheme, _) state)"
    if "length rs = length (rm_results b)" "length fs = length (rm_froms b)" for rs bs fs
    by (rule Suc.IH) (use that Suc.prems room in \<open>simp_all add: algebra_simps\<close>)
  show ?case
    by (simp only: rm_recv.simps Let_def, intro returns returns_wait)
       (use room here in \<open>simp_all add: next_ok\<close>)
qed

lemma rm_checked_inside:
  assumes "rm_sized b" and "dl * count \<le> 2 ^ 32 - 64" and "count * 16 \<le> 2 ^ 32 - 64"
  shows "returns inside (rm_checked fd f b dl count t :: ('z shim_scheme, _) state)"
proof (cases "rm_fits b dl count")
  case False
  then show ?thesis by (auto simp: rm_checked_def intro!: returns)
next
  case True
  have "dl * count \<le> unat (rm_bufferlen b)"
    by (rule pad_check) (use True assms(2) in \<open>simp_all add: rm_fits_def\<close>)
  moreover have "count * 16 \<le> unat (rm_fromslen b)"
    by (rule pad_check) (use True assms(3) in \<open>simp_all add: rm_fits_def\<close>)
  moreover have "count * 4 \<le> unat (rm_resultslen b)"
    by (rule pad_check) (use True assms(3) in \<open>simp_all add: rm_fits_def\<close>)
  ultimately have "dl * count \<le> length (rm_buffer b)" "count \<le> length (rm_froms b)" "count \<le> length (rm_results b)"
    using assms(1) by (simp_all add: rm_sized_def)
  then show ?thesis
    unfolding rm_checked_def clear_results_def
    by (auto intro!: returns rm_recv_inside simp: mult.commute)
qed

lemma sx_send_inside:
  assumes "i + k \<le> length (sx_lens b)" and "i + k \<le> length (sx_dests b)" and "i + k \<le> length (sx_results b)"
    and "scan_lens (sx_lens b) i k off = Scan_total tot" and "tot \<le> length (sx_buffer b)"
  shows "returns inside (sx_send fd f k i off acc b :: ('z shim_scheme, _) state)"
  using assms
proof (induction k arbitrary: i off acc b)
  case 0
  then show ?case by (simp add: returns)
next
  case (Suc k)
  have here: "i < length (sx_lens b)" "i < length (sx_dests b)" "i < length (sx_results b)"
    using Suc.prems by simp_all
  have scan: "scan_lens (sx_lens b) (Suc i) k (off + nat (sx_lens b ! i)) = Scan_total tot"
    using Suc.prems(4) by (simp split: if_splits)
  have mono: "off' \<le> tot'" if "scan_lens ls j m off' = Scan_total tot'" for ls j m off' tot'
    using that by (induction m arbitrary: j off') (auto split: if_splits, fastforce)
  have room: "off + nat (sx_lens b ! i) \<le> length (sx_buffer b)"
    using mono [OF scan] Suc.prems(5) by simp
  have next_ok: "returns inside (sx_send fd f k (Suc i) (off + nat (sx_lens b ! i)) n
      (b\<lparr>sx_results := rs\<rparr>) :: ('z shim_scheme, _) state)"
    if "length rs = length (sx_results b)" for rs n
    by (rule Suc.IH) (use that Suc.prems scan in simp_all)
  show ?case
    using room here by (auto simp: Let_def intro!: returns next_ok)
qed

lemma scan_not_oob: "i + k \<le> length ls \<Longrightarrow> scan_lens ls i k n \<noteq> Scan_oob"
  by (induction k arbitrary: i n) auto

lemma scan_total: "scan_lens ls i k n = Scan_total tot \<Longrightarrow> i + k \<le> length ls \<or> k = 0"
  by (induction k arbitrary: i n) (fastforce split: if_splits)+

lemma scan_short:
  assumes "list_all (\<lambda>n. 0 \<le> n) ls" and "length ls < i + k" and "i \<le> length ls"
    and "n + sum_list (map nat (drop i ls)) < 2 ^ 32"
  shows "scan_lens ls i k n = Scan_oob"
  using assms
proof (induction k arbitrary: i n)
  case (Suc k)
  show ?case
  proof (cases "i < length ls")
    case True
    then have "drop i ls = ls ! i # drop (Suc i) ls" by (simp add: Cons_nth_drop_Suc)
    with Suc True show ?thesis by (auto simp: list_all_length)
  qed simp
qed simp

lemma sx_checked_inside:
  assumes "sx_sized b" and "count \<le> length (sx_lens b)" and "count * 16 \<le> 2 ^ 32 - 64"
    and "\<And>tot. scan_lens (sx_lens b) 0 count 0 = Scan_total tot \<Longrightarrow> tot \<le> 2 ^ 32 - 64"
  shows "returns inside (sx_checked fd f b count :: ('z shim_scheme, _) state)"
proof (cases "scan_lens (sx_lens b) 0 count 0")
  case Scan_oob
  with scan_not_oob [of 0 count "sx_lens b" 0] assms(2) show ?thesis by simp
next
  case Scan_einval
  then show ?thesis by (auto simp: sx_checked_def intro!: returns)
next
  case (Scan_total tot)
  show ?thesis
  proof (cases "sx_fits b count tot")
    case False
    then show ?thesis using Scan_total by (auto simp: sx_checked_def intro!: returns)
  next
    case True
    have "tot * 1 \<le> unat (sx_bufferlen b)"
      by (rule pad_check) (use True assms(4) [OF Scan_total] in \<open>simp_all add: sx_fits_def\<close>)
    moreover have "count * 16 \<le> unat (sx_destslen b)"
      by (rule pad_check) (use True assms(3) in \<open>simp_all add: sx_fits_def\<close>)
    moreover have "count * 4 \<le> unat (sx_resultslen b)"
      by (rule pad_check) (use True assms(3) in \<open>simp_all add: sx_fits_def\<close>)
    ultimately have l: "tot \<le> length (sx_buffer b)" "count \<le> length (sx_dests b)" "count \<le> length (sx_results b)"
      using assms(1) by (simp_all add: sx_sized_def)
    show ?thesis
      unfolding sx_checked_def Scan_total scan.case clear_results_def
      by (intro returns) (use l assms(2) Scan_total in \<open>auto intro!: sx_send_inside\<close>)
  qed
qed

lemma my_recvfrom_multi_inside:
  assumes "\<And>b. bp = Some b \<Longrightarrow> rm_sized b" and "nat dl * nat count \<le> 2 ^ 32 - 64" and "nat count * 16 \<le> 2 ^ 32 - 64"
  shows "returns inside (my_recvfrom_multi fd f bp dl count t :: ('z shim_scheme, _) state)"
  unfolding my_recvfrom_multi_def
  by (intro returns returns_bind_res [OF rm_checked_inside]) (use assms in auto)

lemma my_sendto_multi_ex_inside:
  assumes "\<And>b. bp = Some b \<Longrightarrow> sx_sized b \<and> nat count \<le> length (sx_lens b) \<and>
      (\<forall>tot. scan_lens (sx_lens b) 0 (nat count) 0 = Scan_total tot \<longrightarrow> tot \<le> 2 ^ 32 - 64)"
    and "nat count * 16 \<le> 2 ^ 32 - 64"
  shows "returns inside (my_sendto_multi_ex fd f bp count :: ('z shim_scheme, _) state)"
  unfolding my_sendto_multi_ex_def
  by (intro returns returns_bind_res [OF sx_checked_inside]) (use assms in auto)

section \<open>Properties\<close>

text \<open>C20. As long as the sizes asked for stay 64 bytes below 4 GiB, \<open>recvfrom_multi\<close> never
  touches memory outside the three arrays the caller declares, however the stack behaves.\<close>

theorem recvfrom_multi_bounds:
  assumes "rm_sized b" and "nat datagram_len * nat count \<le> 2 ^ 32 - 64" and "nat count * 16 \<le> 2 ^ 32 - 64"
  shows "fst (run_state (my_recvfrom_multi sockfd flags (Some b) datagram_len count timeout) s) \<noteq> None"
  using returnsD [OF my_recvfrom_multi_inside [of "Some b" datagram_len count sockfd flags timeout], of s] assms
  by (simp add: inside_def)

definition small_recv :: recvfrom_multi_buffers where
  "small_recv = \<lparr>rm_ptr = 0x1000, rm_buffer_ptr = 0x2000, rm_buffer = replicate 64 0, rm_bufferlen = 64,
     rm_froms_ptr = 0x3000, rm_froms = replicate 4 nsn0, rm_fromslen = 64,
     rm_results_ptr = 0x4000, rm_results = replicate 16 0, rm_resultslen = 64\<rparr>"

theorem recvfrom_multi_bounds_witness:
  "fst (run_state (my_recvfrom_multi 7 0 (Some small_recv) 20 3 None) (shim_one (\<lambda>_ _. resp0))) \<noteq> None"
  using recvfrom_multi_bounds [of small_recv 20 3 7 0 None "shim_one (\<lambda>_ _. resp0)"]
  by (simp add: rm_sized_def small_recv_def)

definition wrap_recv :: recvfrom_multi_buffers where
  "wrap_recv = \<lparr>rm_ptr = 0x1000, rm_buffer_ptr = 0x2000, rm_buffer = [], rm_bufferlen = 0,
     rm_froms_ptr = 0x3000, rm_froms = replicate 65540 nsn0, rm_fromslen = 1048640,
     rm_results_ptr = 0x4000, rm_results = replicate 65552 0, rm_resultslen = 262208\<rparr>"

lemma rm_recv_first:
  assumes "0 < count" and "rm_results b \<noteq> []" and "rm_buffer b = []" and "0 < dl"
  shows "fst (run_state (rm_recv l f dl None count 0 b) s) = None"
proof -
  obtain k where "count = Suc k" using assms(1) by (cases count) auto
  with assms(2-4) show ?thesis by (simp add: recv_wait_def)
qed

text \<open>The size check of \<open>recvfrom_multi\<close> wraps: 65537 datagrams of 65535 bytes need
  2^32 - 1 bytes, which padded to 64 is 0. An empty data buffer passes the check, and the first
  datagram is received outside it.\<close>

theorem recvfrom_multi_wraps:
  assumes "\<not> is_foreign sockfd s"
  shows "rm_sized wrap_recv \<and>
    fst (run_state (my_recvfrom_multi sockfd flags (Some wrap_recv) 65535 65537 None) s) = None"
proof -
  have "nsn_ipc_pad 4294967295 = 0" "nsn_ipc_pad 1048592 = 1048640" "nsn_ipc_pad 262148 = 262208"
    by (simp_all add: nsn_ipc_pad_def)
  then have fits: "rm_fits wrap_recv 65535 65537"
    by (simp add: rm_fits_def wrap_recv_def)
  have cl: "clear_results 65537 (rm_results wrap_recv) = Some (memcpy_at 0 (replicate 65537 0) (replicate 65552 0))"
    by (simp add: clear_results_def wrap_recv_def)
  have ne: "memcpy_at 0 (replicate 65537 0) (replicate 65552 (0 :: int)) \<noteq> []"
    by (simp add: memcpy_at_def)
  have "fst (run_state (rm_checked sockfd flags wrap_recv 65535 65537 None) u) = None" for u :: "'a shim_scheme"
    using fits cl rm_recv_first [of 65537 "wrap_recv\<lparr>rm_results := memcpy_at 0 (replicate 65537 0) (replicate 65552 0)\<rparr>" 65535] ne
    by (simp add: rm_checked_def rm_deadline_def case_prod_beta wrap_recv_def)
  then have "fst (run_state (my_recvfrom_multi sockfd flags (Some wrap_recv) 65535 65537 None) s) = None"
    using assms
    by (simp add: my_recvfrom_multi_def bad_timeval_def case_prod_beta rm_aligned_def nsn_ipc_ptr_ok_def)
       (simp add: wrap_recv_def)
  then show ?thesis by (simp add: rm_sized_def wrap_recv_def)
qed

theorem recvfrom_multi_wraps_witness:
  "fst (run_state (my_recvfrom_multi 7 0 (Some wrap_recv) 65535 65537 None) (shim_one (\<lambda>_ _. resp0))) = None"
proof -
  have "\<not> is_foreign 7 (shim_one (\<lambda>_ _. resp0))" by (simp add: shim_start)
  from recvfrom_multi_wraps [OF this, of 0] show ?thesis by blast
qed

text \<open>\<open>sendto_multi_ex\<close> stays inside the four arrays when the array of lengths really has
  \<open>count\<close> entries (and nothing wraps); but it reads \<open>count\<close> lengths before it compares \<open>count\<close>
  with the declared size of that array, so that a count beyond it is not refused: the entry
  after the end is read.\<close>

theorem sendto_multi_ex_bounds:
  assumes "\<not> is_foreign sockfd s" and "sx_sized b" and "sx_aligned b" and "0 < count" and "nat count * 16 \<le> 2 ^ 32 - 64"
    and "\<And>tot. scan_lens (sx_lens b) 0 (nat count) 0 = Scan_total tot \<Longrightarrow> tot \<le> 2 ^ 32 - 64"
    and "list_all (\<lambda>n. 0 \<le> n) (sx_lens b)" and "sum_list (map nat (sx_lens b)) < 2 ^ 32"
  shows "fst (run_state (my_sendto_multi_ex sockfd flags (Some b) count) s) = None \<longleftrightarrow>
    length (sx_lens b) < nat count"
proof
  assume "fst (run_state (my_sendto_multi_ex sockfd flags (Some b) count) s) = None"
  then show "length (sx_lens b) < nat count"
    using returnsD [OF my_sendto_multi_ex_inside [of "Some b" count sockfd flags], of s] assms(2,5,6)
    by (force simp: inside_def not_less)
next
  assume short: "length (sx_lens b) < nat count"
  have "scan_lens (sx_lens b) 0 (nat count) 0 = Scan_oob"
    by (rule scan_short) (use assms(7,8) short in simp_all)
  then show "fst (run_state (my_sendto_multi_ex sockfd flags (Some b) count) s) = None"
    using assms(1,3,4) by (simp add: my_sendto_multi_ex_def sx_checked_def case_prod_beta)
qed

definition short_send :: sendto_multi_ex_buffers where
  "short_send = \<lparr>sx_ptr = 0x1000, sx_buffer_ptr = 0x2000, sx_buffer = replicate 64 0, sx_bufferlen = 64,
     sx_lens_ptr = 0x3000, sx_lens = replicate 16 1, sx_lens_len = 64,
     sx_dests_ptr = 0x4000, sx_dests = replicate 20 nsn0, sx_destslen = 320,
     sx_results_ptr = 0x5000, sx_results = replicate 32 0, sx_resultslen = 128\<rparr>"

theorem sendto_multi_ex_bounds_witness:
  "fst (run_state (my_sendto_multi_ex 7 0 (Some short_send) 17) (shim_one (\<lambda>_ _. resp0))) = None"
proof -
  have own: "\<not> is_foreign 7 (shim_one (\<lambda>_ _. resp0))" by (simp add: shim_start)
  have sc: "scan_lens (replicate 16 1) 0 17 0 = Scan_oob"
    by (rule scan_short) (simp_all add: sum_list_replicate list_all_length)
  have "sx_sized short_send" "sx_aligned short_send" "list_all (\<lambda>n. 0 \<le> n) (sx_lens short_send)"
      "sum_list (map nat (sx_lens short_send)) < 2 ^ 32" "length (sx_lens short_send) = 16"
    by (simp_all add: sx_sized_def sx_aligned_def nsn_ipc_ptr_ok_def short_send_def sum_list_replicate list_all_iff)
  with sendto_multi_ex_bounds [OF own, of short_send 17 0] sc show ?thesis
    by (simp add: short_send_def)
qed

end
