(* ===== verification/Shim_Routing.thy ===== *)
theory Shim_Routing
  imports Shim_Sockopt Shim_Multi
begin

text \<open>
  Which stack a socket call reaches. The calls that take a descriptor are gathered in one
  datatype, so that what is common to all of them is said once: a descriptor the shim does not
  own reaches nsysnet unchanged, one it owns reaches the lwIP socket behind it and no other.
\<close>

section \<open>The calls on a descriptor\<close>

datatype fd_op =
    Bind "nsn_sockaddr option" u32
  | Connect "nsn_sockaddr option" u32
  | Listen int
  | Accept "nsn_sockaddr option" "u32 option"
  | Shutdown int
  | Send bytes int
  | Sendto bytes int "nsn_sockaddr option" u32
  | Sendto_multi bytes int int "nsn_sockaddr list" int
  | Sendto_multi_ex int "sendto_multi_ex_buffers option" int
  | Recv int int
  | Recvfrom int int "nsn_sockaddr option" "u32 option"
  | Recvfrom_ex int int "nsn_sockaddr option" "u32 option" "bytes option" int
  | Recvfrom_multi int "recvfrom_multi_buffers option" int int "timeval option"
  | Getsockname "nsn_sockaddr option" "u32 option"
  | Getpeername "nsn_sockaddr option" "u32 option"
  | Setsockopt int int "bytes option" u32
  | Getsockopt int int "bytes option" "u32 option"

definition ret :: "('s, int \<times> 'a) state \<Rightarrow> ('s, int option) state" where
  "ret m = do { r \<leftarrow> m; return (Some (fst r)) }"

definition ret_int :: "('s, int) state \<Rightarrow> ('s, int option) state" where
  "ret_int m = do { r \<leftarrow> m; return (Some r) }"

definition ret_opt :: "('s, (int \<times> 'a) option) state \<Rightarrow> ('s, int option) state" where
  "ret_opt m = do { r \<leftarrow> m; return (map_option fst r) }"

text \<open>The C result of a call; None only where a batch call leaves the caller's memory.\<close>

fun exec :: "fd_op \<Rightarrow> int \<Rightarrow> ('z shim_scheme, int option) state" where
  "exec (Bind a n) fd = ret_int (my_bind fd a n)"
| "exec (Connect a n) fd = ret_int (my_connect fd a n)"
| "exec (Listen n) fd = ret_int (my_listen fd n)"
| "exec (Accept a n) fd = ret (my_accept fd a n)"
| "exec (Shutdown h) fd = ret_int (my_shutdown fd h)"
| "exec (Send b f) fd = ret_int (my_send fd b f)"
| "exec (Sendto b f a n) fd = ret_int (my_sendto fd b f a n)"
| "exec (Sendto_multi b len f ds n) fd = ret_int (my_sendto_multi fd b len f ds n)"
| "exec (Sendto_multi_ex f b n) fd = ret_opt (my_sendto_multi_ex fd f b n)"
| "exec (Recv n f) fd = ret (my_recv fd n f)"
| "exec (Recvfrom n f a k) fd = ret (my_recvfrom fd n f a k)"
| "exec (Recvfrom_ex n f a k e el) fd = ret (my_recvfrom_ex fd n f a k e el)"
| "exec (Recvfrom_multi f b dl n t) fd = ret_opt (my_recvfrom_multi fd f b dl n t)"
| "exec (Getsockname a n) fd = ret (my_getsockname fd a n)"
| "exec (Getpeername a n) fd = ret (my_getpeername fd a n)"
| "exec (Setsockopt l opt v n) fd = ret_int (my_setsockopt fd l opt v n)"
| "exec (Getsockopt l opt v n) fd = ret (my_getsockopt fd l opt v n)"

fun native_call :: "fd_op \<Rightarrow> int \<Rightarrow> nsn_call" where
  "native_call (Bind a n) fd = Real_bind fd a n"
| "native_call (Connect a n) fd = Real_connect fd a n"
| "native_call (Listen n) fd = Real_listen fd n"
| "native_call (Accept a n) fd = Real_accept fd a n"
| "native_call (Shutdown h) fd = Real_shutdown fd h"
| "native_call (Send b f) fd = Real_send fd b f"
| "native_call (Sendto b f a n) fd = Real_sendto fd b f a n"
| "native_call (Sendto_multi b len f ds n) fd = Real_sendto_multi fd b len f ds n"
| "native_call (Sendto_multi_ex f b n) fd = Real_sendto_multi_ex fd f n"
| "native_call (Recv n f) fd = Real_recv fd n f"
| "native_call (Recvfrom n f a k) fd = Real_recvfrom fd n f a k"
| "native_call (Recvfrom_ex n f a k e el) fd = Real_recvfrom_ex fd n f a k e el"
| "native_call (Recvfrom_multi f b dl n t) fd = Real_recvfrom_multi fd f dl n t"
| "native_call (Getsockname a n) fd = Real_getsockname fd a n"
| "native_call (Getpeername a n) fd = Real_getpeername fd a n"
| "native_call (Setsockopt l opt v n) fd = Real_setsockopt fd l opt v n"
| "native_call (Getsockopt l opt v n) fd = Real_getsockopt fd l opt v n"

section \<open>Descriptors of the console\<close>

lemmas ret_runs = ret_def [THEN run_cong] ret_int_def [THEN run_cong] ret_opt_def [THEN run_cong]

lemma foreign_exec:
  assumes "is_foreign fd s"
  shows "run_state (exec op fd) s =
    (Some (r_ret (env s (trace s) (Nsn (native_call op fd)))),
     s\<lparr>errno := - 1, trace := trace s @ [Nsn (native_call op fd)]\<rparr>)"
  using assms by (cases op) (simp_all add: runs ret_runs)

section \<open>Descriptors of the adapter\<close>

text \<open>A call that concerns the lwIP socket \<open>l\<close> only, and opens or closes none.\<close>

fun sock_on :: "int \<Rightarrow> sock_call \<Rightarrow> bool" where
  "sock_on l (Lwip_socket a b c) = False"
| "sock_on l (Lwip_close f) = False"
| "sock_on l (Lwip_bind f a) = (f = l)"
| "sock_on l (Lwip_connect f a) = (f = l)"
| "sock_on l (Lwip_listen f n) = (f = l)"
| "sock_on l (Lwip_accept f b) = False"
| "sock_on l (Lwip_shutdown f h) = (f = l)"
| "sock_on l (Lwip_send f b fl) = (f = l)"
| "sock_on l (Lwip_sendto f b n fl a) = (f = l)"
| "sock_on l (Lwip_recv f n fl) = (f = l)"
| "sock_on l (Lwip_recvfrom f n fl b) = (f = l)"
| "sock_on l (Lwip_recvfrom_with_ttl f n fl b) = (f = l)"
| "sock_on l (Lwip_select n r w e t) = (n = l + 1 \<and> r = Some (fd_bit l) \<and> w = None \<and> e = None)"
| "sock_on l (Lwip_getsockname f) = (f = l)"
| "sock_on l (Lwip_getpeername f) = (f = l)"
| "sock_on l (Lwip_ioctl_FIONBIO f n) = (f = l)"
| "sock_on l (Lwip_ioctl_FIONREAD f) = (f = l)"
| "sock_on l (Lwip_fcntl_F_GETFL f) = (f = l)"
| "sock_on l (Lwip_setsockopt f a b c d) = (f = l)"
| "sock_on l (Lwip_getsockopt f a b c d) = (f = l)"

fun call_on :: "int \<Rightarrow> call \<Rightarrow> bool" where
  "call_on l (Sock c) = sock_on l c"
| "call_on l (Os c) = True"
| "call_on l (Lwip c) = (c = Netif_ip4_addr)"
| "call_on l c = False"

text \<open>\<open>table_kept\<close>: the descriptor table is as it was and the calls made concern \<open>l\<close> only.
  \<open>confined fd l m\<close>: so it is after \<open>m\<close>, from a state in which \<open>fd\<close> is owned and stands for \<open>l\<close>.\<close>

definition table_kept :: "int \<Rightarrow> 'z shim_scheme \<Rightarrow> 'z shim_scheme \<Rightarrow> bool" where
  "table_kept l s t \<longleftrightarrow> env t = env s \<and> shim_wf t = shim_wf s \<and> open_mask t = open_mask s \<and> mapped_fd t = mapped_fd s \<and>
     accepting_sockets t = accepting_sockets s \<and> (\<exists>cs. trace t = trace s @ cs \<and> list_all (call_on l) cs)"

lemma table_kept_trans: "table_kept l s t \<Longrightarrow> table_kept l t u \<Longrightarrow> table_kept l s u"
  unfolding table_kept_def by (metis append.assoc list_all_append)

lemma table_kept_fd:
  "table_kept l s t \<Longrightarrow> stack_fd fd t = stack_fd fd s \<and> is_foreign fd t = is_foreign fd s \<and> owned t = owned s"
  by (auto simp: table_kept_def stack_fd_def is_foreign_def shim_accepts_def owned_def)

definition confined :: "int \<Rightarrow> int \<Rightarrow> ('z shim_scheme, 'a) state \<Rightarrow> bool" where
  "confined fd l m \<longleftrightarrow>
     (\<forall>s. stack_fd fd s = l \<and> \<not> is_foreign fd s \<longrightarrow> wp m (\<lambda>_ t. table_kept l s t) s)"

named_theorems conf "introduction rules for confined"

lemma conf_return [conf]: "confined fd l (return x)"
  by (simp add: confined_def table_kept_def wp)

lemma conf_gets [conf]: "confined fd l (gets f)"
  by (simp add: confined_def table_kept_def wp)

lemma conf_bind [conf]:
  assumes "confined fd l m" and "\<And>x. confined fd l (k x)"
  shows "confined fd l (State_Monad.bind m k)"
  unfolding confined_def
proof (intro allI impI, elim conjE)
  fix s :: "'a shim_scheme" assume s: "stack_fd fd s = l" "\<not> is_foreign fd s"
  obtain x t where t: "run_state m s = (x, t)" by fastforce
  have a: "table_kept l s t"
    using assms(1) s t by (auto simp: confined_def wp_run_state)
  with assms(2) [of x] s have "wp (k x) (\<lambda>_ u. table_kept l t u) t"
    using table_kept_fd [OF a] by (simp add: confined_def)
  then have "wp (k x) (\<lambda>_ u. table_kept l s u) t"
    by (rule wp_mono) (rule table_kept_trans [OF a])
  then show "wp (State_Monad.bind m k) (\<lambda>_ u. table_kept l s u) s"
    by (simp add: wp_bind) (simp add: wp_run_state t)
qed

lemma conf_stack [conf]:
  assumes "confined fd l (k l)"
  shows "confined fd l (State_Monad.bind (gets (stack_fd fd)) k)"
  using assms by (simp add: confined_def wp)

lemma conf_foreign [conf]:
  assumes "confined fd l (k False)"
  shows "confined fd l (State_Monad.bind (gets (is_foreign fd)) k)"
  using assms by (simp add: confined_def wp)

lemma conf_if [conf]: "(b \<Longrightarrow> confined fd l m) \<Longrightarrow> (\<not> b \<Longrightarrow> confined fd l n) \<Longrightarrow> confined fd l (if b then m else n)"
  by simp

lemma conf_whenM [conf]: "(b \<Longrightarrow> confined fd l m) \<Longrightarrow> confined fd l (whenM b m)"
  by (simp add: whenM_def conf_return)

lemma conf_case_option [conf]:
  "confined fd l m \<Longrightarrow> (\<And>x. confined fd l (f x)) \<Longrightarrow> confined fd l (case z of None \<Rightarrow> m | Some x \<Rightarrow> f x)"
  by (cases z) simp_all

lemma conf_case_prod [conf]:
  "(\<And>a b. confined fd l (f a b)) \<Longrightarrow> confined fd l (case p of (a, b) \<Rightarrow> f a b)"
  by (cases p) simp

lemma conf_let [conf]: "confined fd l (f e) \<Longrightarrow> confined fd l (let x = e in f x)"
  by simp

lemma conf_set_errno [conf]: "confined fd l (set_errno e)"
  by (simp add: confined_def table_kept_def set_errno_def shim_wf_def wp)

lemma conf_fail [conf]: "confined fd l (fail e)"
  unfolding fail_def by (intro conf)

lemma conf_ext [conf]: "call_on l c \<Longrightarrow> confined fd l (ext c)"
  by (simp add: confined_def table_kept_def shim_wf_def wp)

lemma conf_sock [conf]: "sock_on l c \<Longrightarrow> confined fd l (sock c)"
  unfolding sock_def by (intro conf) simp

lemma conf_ax_net_ip4 [conf]: "confined fd l ax_net_ip4"
  by (simp add: confined_def table_kept_def shim_wf_def ax_net_ip4_def lwip_val_def lwip_def wp)

lemma conf_modify [conf]:
  "(\<And>s. env (f s) = env s \<and> shim_wf (f s) = shim_wf s \<and> open_mask (f s) = open_mask s \<and>
      mapped_fd (f s) = mapped_fd s \<and> accepting_sockets (f s) = accepting_sockets s \<and>
      trace (f s) = trace s) \<Longrightarrow> confined fd l (modify f)"
  by (simp add: confined_def table_kept_def wp)

lemma conf_ret [conf]:
  "confined fd l m \<Longrightarrow> confined fd l (ret m)"
  "confined fd l n \<Longrightarrow> confined fd l (ret_int n)"
  "confined fd l p \<Longrightarrow> confined fd l (ret_opt p)"
  unfolding ret_def ret_int_def ret_opt_def by (intro conf; assumption)+

lemma conf_connect: "confined fd l (my_connect fd a n)"
  unfolding my_connect_def by (intro conf | simp)+

lemma conf_listen: "confined fd l (my_listen fd n)"
  unfolding my_listen_def by (intro conf | simp)+

lemma conf_shutdown: "confined fd l (my_shutdown fd n)"
  unfolding my_shutdown_def by (intro conf | simp)+

lemma conf_send: "confined fd l (my_send fd b n)"
  unfolding my_send_def by (intro conf | simp)+

lemma conf_sendto: "confined fd l (my_sendto fd b f a n)"
  unfolding my_sendto_def by (intro conf | simp)+

lemma conf_recv: "confined fd l (my_recv fd n f)"
  unfolding my_recv_def by (intro conf | simp)+

lemma conf_recvfrom: "confined fd l (my_recvfrom fd n f a k)"
  unfolding my_recvfrom_def by (intro conf | simp)+

lemma conf_recvfrom_ex: "confined fd l (my_recvfrom_ex fd n f a k e el)"
  unfolding my_recvfrom_ex_def by (intro conf | simp)+

lemma conf_local_name: "confined fd l (local_name l a)"
  unfolding local_name_def by (intro conf | simp)+

lemma conf_getsockname: "confined fd l (my_getsockname fd a k)"
  unfolding my_getsockname_def by (intro conf conf_local_name | simp)+

lemma conf_getpeername: "confined fd l (my_getpeername fd a k)"
  unfolding my_getpeername_def by (intro conf | simp)+

lemma conf_lwip_set [conf]: "confined fd l (lwip_set fd lv opt v n)"
  unfolding lwip_set_def by (intro conf | simp)+

lemma conf_lwip_get [conf]: "confined fd l (lwip_get fd lv opt v n)"
  unfolding lwip_get_def by (intro conf | simp)+

lemma conf_compat_set_int [conf]: "confined fd l (compat_set_int v n)"
  unfolding compat_set_int_def by (intro conf)

lemma conf_compat_get_int [conf]: "confined fd l (compat_get_int v n x)"
  unfolding compat_get_int_def by (cases v; cases n) (intro conf | simp)+

lemma conf_store [conf]: "confined fd l (store fd f)"
  unfolding store_def upd_compat_def by (intro conf) (simp add: shim_wf_def)

lemma conf_set_flag [conf]: "confined fd l (set_flag fd opt v)"
  unfolding set_flag_def compat_flag_set_def upd_compat_def by (intro conf) (simp add: shim_wf_def)

lemma conf_get_fail [conf]: "confined fd l (get_fail e v n)"
  unfolding get_fail_def by (intro conf)

lemma conf_with_int [conf]: "(\<And>v. confined fd l (k v)) \<Longrightarrow> confined fd l (with_int v n k)"
  unfolding with_int_def by (intro conf) simp_all

lemma conf_set_nbio [conf]: "confined fd l (set_nbio fd on)"
  unfolding set_nbio_def set_nonblocking_def by (intro conf | simp)+

lemma conf_setters [conf]:
  "confined fd l (set_sndbuf fd v)" "confined fd l (set_rcvbuf fd v)"
  "confined fd l (set_maxseg fd v)" "confined fd l (set_linger fd ov n)"
  unfolding set_sndbuf_def set_rcvbuf_def set_maxseg_def set_linger_def by (intro conf | simp)+

lemma conf_getters [conf]:
  "confined fd l (get_nonblock fd v n)" "confined fd l (get_rxdata fd v n)"
  "confined fd l (get_txdata fd v n)" "confined fd l (get_myaddr v n)"
  "confined fd l (get_compat fd f v n)" "confined fd l (get_linger fd v n)"
  "confined fd l (get_mapped fd opt v n)"
  unfolding get_nonblock_def get_rxdata_def get_txdata_def get_myaddr_def get_compat_def get_linger_def
    get_mapped_def
  by (intro conf | simp)+

lemma conf_setsockopt: "confined fd l (my_setsockopt fd lv opt v n)"
  unfolding my_setsockopt_def set_socket_opt_def set_ip_opt_def set_tcp_opt_def
  by (intro conf | simp only: if_False)+

lemma conf_getsockopt: "confined fd l (my_getsockopt fd lv opt v n)"
  unfolding my_getsockopt_def get_socket_opt_def get_ip_opt_def get_tcp_opt_def
  by (intro conf | simp only: if_False)+

lemma conf_send_each: "confined fd l (send_each fd b len f ds)"
  by (induction ds) (auto intro!: conf split: option.splits)

lemma conf_sx_send: "confined fd l (sx_send fd f k i off tot b)"
  by (induction k arbitrary: i off tot b) (simp add: conf, simp only: sx_send.simps, (intro conf | simp)+)

lemma conf_recv_wait [conf]: "confined fd l (recv_wait l d)"
  unfolding recv_wait_def by (intro conf | simp)+

lemma conf_rm_recv: "confined fd l (rm_recv l f dl d k i b)"
  by (induction k arbitrary: i b)
     (simp add: conf, simp only: rm_recv.simps, (intro conf | simp split: wait_result.split | intro conjI impI)+)

lemma conf_sendto_multi: "confined fd l (my_sendto_multi fd b len f ds n)"
  unfolding my_sendto_multi_def by (intro conf conf_send_each | simp)+

lemma conf_sx_checked [conf]: "confined fd l (sx_checked fd f b n)"
  unfolding sx_checked_def
  by (cases "scan_lens (sx_lens b) 0 n 0"; simp only: scan.case) (intro conf conf_sx_send)+

lemma conf_sendto_multi_ex: "confined fd l (my_sendto_multi_ex fd f bp n)"
  unfolding my_sendto_multi_ex_def by (intro conf | simp only: if_False)+

lemma conf_rm_deadline [conf]: "confined fd l (rm_deadline t)"
  unfolding rm_deadline_def by (intro conf | simp only: call_on.simps)+

lemma conf_rm_checked [conf]: "confined fd l (rm_checked fd f b dl n t)"
  unfolding rm_checked_def by (intro conf conf_rm_recv)

lemma conf_recvfrom_multi: "confined fd l (my_recvfrom_multi fd f bp dl n t)"
  unfolding my_recvfrom_multi_def by (intro conf | simp only: if_False)+

lemma conf_ftp [conf]: "confined fd l (ftp_rewrite_bind_to_ax fd a)"
  unfolding ftp_rewrite_bind_to_ax_def by (intro conf | simp add: shim_wf_def)+

lemma conf_bind_call:
  assumes "\<And>l'. sockaddr_to_lwip a n = Some l' \<Longrightarrow> \<not> native_port (sin_port l')"
  shows "confined fd l (my_bind fd a n)"
proof (cases "sockaddr_to_lwip a n")
  case None
  show ?thesis unfolding my_bind_def None option.case by (intro conf | simp only: if_False)+
next
  case (Some l')
  have np: "native_port (sin_port l') = False" using assms [OF Some] by simp
  show ?thesis unfolding my_bind_def Some option.case np if_False by (intro conf | simp only: if_False sock_on.simps)+
qed

lemmas conf_calls =
  conf_connect conf_listen conf_shutdown conf_send conf_sendto conf_sendto_multi conf_sendto_multi_ex
  conf_recv conf_recvfrom conf_recvfrom_ex conf_recvfrom_multi conf_getsockname conf_getpeername
  conf_setsockopt conf_getsockopt

fun stays :: "fd_op \<Rightarrow> bool" where
  "stays (Accept a n) = False"
| "stays (Bind a n) = (case sockaddr_to_lwip a n of None \<Rightarrow> True | Some l \<Rightarrow> \<not> native_port (sin_port l))"
| "stays op = True"

lemma conf_exec: "stays op \<Longrightarrow> confined fd l (exec op fd)"
  by (cases op) (auto intro!: conf_ret conf_calls conf_bind_call split: option.splits)

section \<open>Properties\<close>



text \<open>C17. A call on a descriptor the shim owns, other than accepting and than binding to the
  reserved port 4299, makes no nsysnet call at all and concerns no lwIP socket but the one
  behind the descriptor, which it neither closes nor replaces.\<close>

theorem owned_confined:
  assumes "\<not> is_foreign fd s" and "stays op" and "run_state (exec op fd) s = (r, t)"
  shows "owned t = owned s \<and>
    (\<exists>cs. trace t = trace s @ cs \<and> list_all (call_on (the (owned s (nat fd)))) cs)"
proof -
  have "table_kept (stack_fd fd s) s t"
    using wpD [OF assms(3), of "\<lambda>_. table_kept (stack_fd fd s) s"] conf_exec [OF assms(2)] assms(1)
    by (auto simp: confined_def)
  then show ?thesis
    using stack_fd_owned [OF assms(1)] by (auto simp: table_kept_def intro!: owned_cong)
qed

theorem owned_confined_witness:
  "\<exists>cs. trace (snd (run_state (exec (Listen 5) 7) (shim_one (\<lambda>_ _. resp0)))) = cs \<and> list_all (call_on 2) cs"
proof -
  let ?s = "shim_one (\<lambda>_ _. resp0)"
  have "\<not> is_foreign 7 ?s" "owned ?s 7 = Some 2" "trace ?s = []"
    by (simp_all add: shim_start nth_list_update)
  with owned_confined [of 7 ?s "Listen 5" "fst (run_state (exec (Listen 5) 7) ?s)" "snd (run_state (exec (Listen 5) 7) ?s)"]
  show ?thesis by auto
qed

end
