(* ===== verification/Shim_Live.thy ===== *)
theory Shim_Live
  imports Shim_Routing
begin

text \<open>
  The descriptor table against the sockets lwIP has open. \<open>live\<close> replays the calls made so far
  and keeps the list of open lwIP sockets; the only fact used of lwIP is that it never hands
  out a number that is still open.
\<close>

fun live_step :: "resp \<Rightarrow> call \<Rightarrow> int list \<Rightarrow> int list" where
  "live_step r (Sock (Lwip_socket d t p)) xs = (if r_ret r \<ge> 0 then r_ret r # xs else xs)"
| "live_step r (Sock (Lwip_accept f b)) xs = (if r_ret r \<ge> 0 then r_ret r # xs else xs)"
| "live_step r (Sock (Lwip_close f)) xs = (if r_ret r = 0 then remove1 f xs else xs)"
| "live_step r c xs = xs"

fun live_rev :: "(call list \<Rightarrow> call \<Rightarrow> resp) \<Rightarrow> call list \<Rightarrow> int list" where
  "live_rev e [] = []"
| "live_rev e (c # h) = live_step (e (rev h) c) c (live_rev e h)"

definition live_after :: "(call list \<Rightarrow> call \<Rightarrow> resp) \<Rightarrow> call list \<Rightarrow> int list" where
  "live_after e h = live_rev e (rev h)"

definition live :: "'z shim_scheme \<Rightarrow> int list" where
  "live s = live_after (env s) (trace s)"

fun opens :: "call \<Rightarrow> bool" where
  "opens (Sock (Lwip_socket d t p)) = True"
| "opens (Sock (Lwip_accept f b)) = True"
| "opens c = False"

fun closes :: "call \<Rightarrow> bool" where
  "closes (Sock (Lwip_close f)) = True"
| "closes c = False"

definition lwip_fresh :: "(call list \<Rightarrow> call \<Rightarrow> resp) \<Rightarrow> bool" where
  "lwip_fresh e \<longleftrightarrow> (\<forall>h c. opens c \<and> r_ret (e h c) \<ge> 0 \<longrightarrow> r_ret (e h c) \<notin> set (live_after e h))"

definition table_ok :: "'z shim_scheme \<Rightarrow> bool" where
  "table_ok s \<longleftrightarrow> shim_wf s \<and> lwip_fresh (env s) \<and> distinct (live s) \<and>
     inj_on (owned s) (dom (owned s)) \<and> ran (owned s) \<subseteq> set (live s)"

section \<open>What calls do to the open sockets\<close>

lemma live_after_snoc [simp]: "live_after e (h @ [c]) = live_step (e h c) c (live_after e h)"
  by (simp add: live_after_def)

lemma live_neutral: "\<not> opens c \<Longrightarrow> \<not> closes c \<Longrightarrow> live_step r c xs = xs"
  by (cases "(r, c, xs)" rule: live_step.cases) auto

lemma call_on_neutral: "call_on l c \<Longrightarrow> \<not> opens c \<and> \<not> closes c"
  by (cases "(l, c)" rule: call_on.cases; cases c rule: opens.cases; cases c rule: closes.cases) auto

lemma live_after_on: "list_all (call_on l) cs \<Longrightarrow> live_after e (h @ cs) = live_after e h"
proof (induction cs rule: rev_induct)
  case (snoc c cs)
  then have "live_after e ((h @ cs) @ [c]) = live_after e (h @ cs)"
    by (simp only: live_after_snoc) (auto intro: live_neutral dest: call_on_neutral)
  with snoc show ?case by simp
qed simp

text \<open>The part of the state the invariant reads.\<close>

definition tview where
  "tview s = (env s, live s, open_mask s, mapped_fd s, shim_wf s)"

lemma tview_table_ok: "tview t = tview s \<Longrightarrow> table_ok t = table_ok s \<and> owned t = owned s"
  using owned_cong [of t s] by (simp add: tview_def table_ok_def)

lemma table_kept_tview: "table_kept l s t \<Longrightarrow> tview t = tview s"
  by (auto simp: table_kept_def tview_def live_def live_after_on)

lemma tview_ext [preserves]: "\<not> opens c \<Longrightarrow> \<not> closes c \<Longrightarrow> preserves tview (ext c)"
  by (rule preservesI) (simp add: wp tview_def live_def live_neutral shim_wf_def)

lemma tview_set_errno [preserves]: "preserves tview (set_errno e)"
  by (rule preservesI) (simp add: set_errno_def wp tview_def live_def shim_wf_def)

lemma tview_sock [preserves]: "\<not> opens (Sock c) \<Longrightarrow> \<not> closes (Sock c) \<Longrightarrow> preserves tview (sock c)"
  unfolding sock_def by (intro preserves)

lemma tview_nsn [preserves]: "preserves tview (nsn c)"
  unfolding nsn_def by (intro preserves) simp_all

lemma tview_native [preserves]: "preserves tview (native c)"
  unfolding native_def by (intro preserves)

lemma tview_lwip_opt [preserves]: "preserves tview (lwip_opt l opt v)"
  unfolding lwip_opt_def by (intro preserves) simp_all

lemma tview_native_defaults [preserves]: "preserves tview (native_defaults l ty)"
  unfolding native_defaults_def by (intro preserves)

lemma tview_cas [preserves]: "preserves tview (cas_activity a b)"
  unfolding cas_activity_def
  by (rule preservesI) (simp add: wp tview_def live_def shim_wf_def)

lemma length_detach [simp]: "length (detach_relay fd rs) = length rs"
  by (induction rs) simp_all

lemma tview_detach [preserves]: "preserves tview (nssl_relay_detach_public_fd fd)"
  unfolding nssl_relay_detach_public_fd_def
  by (rule preservesI) (simp add: wp tview_def live_def shim_wf_def)

lemma tview_forget [preserves]: "preserves tview (forget_public_fd fd)"
  unfolding forget_public_fd_def
  by (rule preservesI) (simp add: wp tview_def live_def shim_wf_def)

lemma keeps_tview: "preserves tview m \<Longrightarrow> keeps table_ok m"
  unfolding keeps_def using tview_table_ok by (blast intro: wp_preserves)

section \<open>Opening\<close>

text \<open>An lwIP socket that has just been opened and is not in the table yet.\<close>

definition fresh_sock :: "int \<Rightarrow> 'z shim_scheme \<Rightarrow> bool" where
  "fresh_sock l s \<longleftrightarrow> table_ok s \<and> l \<in> set (live s) \<and> l \<notin> ran (owned s)"

lemma fresh_tview: "tview t = tview s \<Longrightarrow> fresh_sock l t = fresh_sock l s"
  using tview_table_ok [of t s] by (simp add: fresh_sock_def tview_def)

lemma open_fresh:
  assumes "table_ok s" and "opens (Sock c)"
  shows "wp (sock c) (\<lambda>r t. if r_ret r \<ge> 0 then fresh_sock (r_ret r) t else table_ok t) s"
proof -
  define r where "r = env s (trace s) (Sock c)"
  let ?t = "s\<lparr>trace := trace s @ [Sock c]\<rparr>"
  have lv: "live ?t = (if r_ret r \<ge> 0 then r_ret r # live s else live s)"
    using assms(2) by (cases c) (auto simp: live_def r_def)
  have new: "r_ret r \<notin> set (live s)" if "r_ret r \<ge> 0"
    using assms that by (auto simp: table_ok_def lwip_fresh_def r_def live_def)
  have own: "owned ?t = owned s" by (rule owned_cong) simp_all
  have t: "if r_ret r \<ge> 0 then fresh_sock (r_ret r) ?t else table_ok ?t"
    using assms(1) lv new own by (auto simp: fresh_sock_def table_ok_def shim_wf_def)
  have "tview (?t\<lparr>errno := e\<rparr>) = tview ?t" for e
    by (simp add: tview_def live_def shim_wf_def)
  with t show ?thesis
    using tview_table_ok [of "?t\<lparr>errno := e\<rparr>" ?t for e] fresh_tview [of "?t\<lparr>errno := e\<rparr>" ?t for e]
    by (auto simp: sock_def set_errno_def wp r_def split: option.splits)
qed

lemma wp_sock_close:
  "wp (sock (Lwip_close l)) (\<lambda>r t. env t = env s \<and> owned t = owned s \<and> shim_wf t = shim_wf s \<and>
      accepting_sockets t = accepting_sockets s \<and> open_mask t = open_mask s \<and>
      live t = (if r_ret r = 0 then remove1 l (live s) else live s)) s"
  by (auto simp: sock_def set_errno_def wp live_def shim_wf_def intro!: owned_cong split: option.splits)

lemma close_fresh:
  assumes "fresh_sock l s"
  shows "wp (sock (Lwip_close l)) (\<lambda>_ t. table_ok t) s"
  using wp_sock_close by (rule wp_mono) (use assms in \<open>auto simp: fresh_sock_def table_ok_def\<close>)

lemma track_ok:
  assumes "fresh_sock l s" and "n < 32"
  shows "table_ok (track n l s)"
proof -
  have s: "shim_wf s" "inj_on (owned s) (dom (owned s))" "l \<notin> ran (owned s)"
    using assms(1) by (simp_all add: fresh_sock_def table_ok_def)
  have "ran ((owned s)(n := None)) \<subseteq> ran (owned s)" by (auto simp: ran_def)
  then have "inj_on (owned (track n l s)) (dom (owned (track n l s)))"
    using s ft.inj_enter [OF s(1) assms(2) s(2)] by blast
  moreover have "ran (owned (track n l s)) \<subseteq> insert l (ran (owned s))"
    by (auto simp: ft.look_enter [OF s(1) assms(2)] ran_def)
  ultimately show ?thesis
    using assms ft.ok_enter [OF s(1) assms(2)]
    by (auto simp: fresh_sock_def table_ok_def live_def track_def compat_state_reset_def split: if_splits)
qed

lemma reserve_ok:
  assumes "fresh_sock l s"
  shows "wp (reserve_fd l ty p) (\<lambda>_ t. table_ok t) s"
proof -
  have pre: "wp m (\<lambda>_ t. fresh_sock l t) u" if "fresh_sock l u" "preserves tview m"
    for m :: "('a shim_scheme, 'b) state" and u
    using that fresh_tview by (auto intro: wp_preserves)
  have post: "wp m (\<lambda>_ t. table_ok t) u" if "table_ok u" "preserves tview m"
    for m :: "('a shim_scheme, unit) state" and u
    using that tview_table_ok by (auto intro: wp_preserves)
  show ?thesis
    unfolding reserve_fd_def Let_def
  proof (rule wp_bind_I [OF pre [OF assms]])
    fix r t assume t: "fresh_sock l (t :: 'a shim_scheme)"
    show "wp (if r_ret r < 0 \<or> r_ret r \<ge> 32
        then do { whenM (r_ret r \<ge> 0) (do { nsn (Real_socketclose (r_ret r)); return () });
                  sock (Lwip_close l); set_errno EMFILE; return None }
        else do { track_fd (r_ret r) l; return (Some (r_ret r)) }) (\<lambda>_ t. table_ok t) t"
    proof (cases "r_ret r < 0 \<or> r_ret r \<ge> 32")
      case False
      then have "nat (r_ret r) < 32" by linarith
      with False show ?thesis using track_ok [OF t] by (simp add: track_fd_def wp)
    next
      case True
      have "wp (do { whenM (r_ret r \<ge> 0) (do { nsn (Real_socketclose (r_ret r)); return () });
                  sock (Lwip_close l); set_errno EMFILE; return (None :: int option) }) (\<lambda>_ t. table_ok t) t"
        by (rule wp_bind_I [OF pre [OF t]], intro preserves, rule wp_bind_I, erule close_fresh,
            rule wp_bind_I, erule post, intro preserves, simp add: wp)
      with True show ?thesis by simp
    qed
  qed (intro preserves)
qed

lemma keeps_after_open:
  assumes "opens (Sock c)" and "\<And>r t. r_ret r \<ge> 0 \<Longrightarrow> fresh_sock (r_ret r) t \<Longrightarrow> wp (k r) (\<lambda>_ u. table_ok u) t"
    and "\<And>r t. r_ret r < 0 \<Longrightarrow> table_ok t \<Longrightarrow> wp (k r) (\<lambda>_ u. table_ok u) t"
  shows "keeps table_ok (State_Monad.bind (sock c) k)"
  unfolding keeps_def
proof (intro allI impI)
  fix s :: "'a shim_scheme" assume "table_ok s"
  from open_fresh [OF this assms(1)] show "wp (State_Monad.bind (sock c) k) (\<lambda>_ u. table_ok u) s"
    by (rule wp_bind_I) (use assms(2,3) in \<open>auto split: if_splits\<close>)
qed

lemma finish_fresh: "s \<ge> 0 \<Longrightarrow> fresh_sock s t \<Longrightarrow> wp (finish_socket ty p s) (\<lambda>_ u. table_ok u) t"
proof -
  assume s: "s \<ge> 0" "fresh_sock s t"
  have rest: "wp (case fd of None \<Rightarrow> return (- 1) | Some fd \<Rightarrow> do { cas_activity 0 1; return fd })
      (\<lambda>_ u. table_ok u) v" if "table_ok v" for fd and v :: "'a shim_scheme"
    using keeps_tview [of "case fd of None \<Rightarrow> return (- 1) | Some fd \<Rightarrow> do { cas_activity 0 1; return fd }"] that
    by (auto simp: keeps_def intro!: preserves)
  have "wp (do { native_defaults s ty; fd \<leftarrow> reserve_fd s (ty AND 0xF) p;
      (case fd of None \<Rightarrow> return (- 1) | Some fd \<Rightarrow> do { cas_activity 0 1; return fd }) }) (\<lambda>_ u. table_ok u) t"
    by (rule wp_bind_I [where R = "\<lambda>_ u. fresh_sock s u"], rule wp_preserves [OF tview_native_defaults],
        use s fresh_tview in blast, rule wp_bind_I, erule reserve_ok, erule rest)
  with s show ?thesis by (simp add: finish_socket_def whenM_def)
qed

lemma finish_closed: "s < 0 \<Longrightarrow> table_ok t \<Longrightarrow> wp (finish_socket ty p s) (\<lambda>_ u. table_ok u) t"
  by (simp add: finish_socket_def wp)

lemma keeps_open_lwip:
  "keeps table_ok (State_Monad.bind (open_lwip d ty p) (finish_socket ty p))"
proof -
  have assoc: "State_Monad.bind (open_lwip d ty p) (finish_socket ty p) =
    do { r \<leftarrow> sock (Lwip_socket d ty p);
         if r_ret r < 0 \<and> ty AND NOT 0xF \<noteq> 0
         then do { r2 \<leftarrow> sock (Lwip_socket d (ty AND 0xF) p); finish_socket ty p (r_ret r2) }
         else finish_socket ty p (r_ret r) }"
    by (rule state.expand) (simp add: open_lwip_def fun_eq_iff run_if case_prod_beta)
  have retry: "keeps table_ok (do { r2 \<leftarrow> sock (Lwip_socket d (ty AND 0xF) p); finish_socket ty p (r_ret r2) })"
    by (rule keeps_after_open) (simp_all add: finish_fresh finish_closed)
  show ?thesis
    unfolding assoc
    by (rule keeps_after_open) (use retry in \<open>auto simp: finish_fresh finish_closed keeps_def\<close>)
qed

lemma keeps_socket [keeps]: "keeps table_ok (my_socket d ty p)"
  unfolding my_socket_def ax_net_stack_ready_def
  by (intro keeps keeps_open_lwip keeps_tview [OF tview_native] keeps_tview [OF tview_set_errno]
        keeps_tview [OF preserves_gets])

section \<open>Closing\<close>

text \<open>Taking a descriptor out of the table after its lwIP socket was closed, or was not.\<close>

lemma untrack_ok:
  assumes "table_ok s" and "owned s n = Some l" and "env t = env s" and "shim_wf t = shim_wf s"
    and "owned t = owned s" and "live t = live s \<or> live t = remove1 l (live s)"
  shows "table_ok (untrack n t)"
proof -
  have s: "shim_wf s" "inj_on (owned s) (dom (owned s))" "distinct (live s)" "ran (owned s) \<subseteq> set (live s)"
    using assms(1) by (simp_all add: table_ok_def)
  have n: "n < 32" by (rule ft.look_size [OF assms(2)])
  have wf: "shim_wf t" using assms(4) s(1) by simp
  have own: "owned (untrack n t) = (owned s)(n := None)"
    using ft.look_leave [OF wf n] assms(5) by simp
  have "l \<notin> ran ((owned s)(n := None))"
    using s(2) assms(2) by (auto simp: ran_def inj_on_def dom_def split: if_splits)
  moreover have "ran ((owned s)(n := None)) \<subseteq> ran (owned s)" by (auto simp: ran_def)
  ultimately have "ran ((owned s)(n := None)) \<subseteq> set (live t)"
    using s(3,4) assms(6) by auto
  moreover have "inj_on (owned (untrack n t)) (dom (owned (untrack n t)))"
    using ft.inj_leave [OF wf n] s(2) assms(5) by simp
  moreover have "distinct (live t)" using s(3) assms(6) by auto
  ultimately show ?thesis
    using own ft.ok_leave [OF wf n] assms(1,3)
    by (simp add: table_ok_def) (simp add: untrack_def live_def)
qed

lemma wp_close_untrack:
  assumes "table_ok s" and "\<not> is_foreign fd s"
  shows "wp (sock (Lwip_close (stack_fd fd s))) (\<lambda>r t. table_ok (untrack (nat fd) t) \<and>
     (r_ret r \<noteq> 0 \<longrightarrow> table_ok t)) s"
  using wp_sock_close
proof (rule wp_mono, elim conjE, intro conjI impI)
  fix r t
  assume t: "env t = env s" "owned t = owned s" "shim_wf t = shim_wf s"
    "live t = (if r_ret r = 0 then remove1 (stack_fd fd s) (live s) else live s)"
  show "table_ok (untrack (nat fd) t)"
    by (rule untrack_ok [OF assms(1) stack_fd_owned [OF assms(2)] t(1,3,2)]) (simp add: t(4))
  show "table_ok t" if "r_ret r \<noteq> 0"
    using assms(1) t that by (simp add: table_ok_def)
qed

lemma keeps_pass [keeps]:
  "keeps table_ok (native c)" "keeps table_ok (nsn c)" "keeps table_ok (set_errno e)"
  "keeps table_ok (fail e)" "keeps table_ok (gets f)" "keeps table_ok (nssl_relay_detach_public_fd fd)"
  "keeps table_ok (forget_public_fd fd)"
  unfolding fail_def by (rule keeps_tview, intro preserves)+

text \<open>On an owned descriptor.\<close>

definition mine :: "int \<Rightarrow> 'z shim_scheme \<Rightarrow> bool" where
  "mine fd s \<longleftrightarrow> table_ok s \<and> \<not> is_foreign fd s"

lemma keeps_own:
  assumes "keeps table_ok (k True)" and "\<And>s. mine fd s \<Longrightarrow> wp (k False) (\<lambda>_. table_ok) s"
  shows "keeps table_ok (State_Monad.bind (gets (is_foreign fd)) k)"
  unfolding keeps_def
proof (intro allI impI)
  fix s :: "'a shim_scheme" assume "table_ok s"
  then show "wp (State_Monad.bind (gets (is_foreign fd)) k) (\<lambda>_. table_ok) s"
    using assms by (cases "is_foreign fd s") (simp_all add: mine_def keeps_def wp)
qed

lemma wp_own_errno:
  assumes "mine fd s" and "\<And>t. mine fd t \<Longrightarrow> wp m Q t"
  shows "wp (do { set_errno e; m }) Q s"
proof -
  have "tview (s\<lparr>errno := e\<rparr>) = tview s" by (simp add: tview_def live_def shim_wf_def)
  from tview_table_ok [OF this] have "mine fd (s\<lparr>errno := e\<rparr>)"
    using assms(1) by (simp add: mine_def foreign_owned)
  with assms(2) show ?thesis by (simp add: set_errno_def wp)
qed

lemma wp_keeps: "keeps I m \<Longrightarrow> I s \<Longrightarrow> wp m (\<lambda>_. I) s"
  by (rule keepsD)

lemma wp_close_own:
  assumes "mine fd s"
  shows "wp (close_own fd) (\<lambda>_. table_ok) s"
proof -
  have "wp (sock (Lwip_close (stack_fd fd s))) (\<lambda>r t. wp (do { whenM (r_ret r = 0)
      (do { untrack_fd fd; nsn (Real_socketclose fd); return () }); return (r_ret r) }) (\<lambda>_. table_ok) t) s"
    by (rule wp_mono [OF wp_close_untrack])
       (use assms in \<open>auto simp: mine_def untrack_fd_def wp intro!: wp_keeps keeps_pass\<close>)
  then show ?thesis by (simp add: close_own_def wp)
qed

lemma keeps_socketclose [keeps]: "keeps table_ok (my_socketclose fd)"
  unfolding my_socketclose_def
  by (rule keeps_own) (auto simp only: if_True if_False intro!: keeps wp_own_errno wp_close_own)

lemma wp_bind_reserved:
  assumes "mine fd s"
  shows "wp (bind_reserved fd a n) (\<lambda>_. table_ok) s"
proof -
  have "wp (sock (Lwip_close (stack_fd fd s))) (\<lambda>r t. wp (do { untrack_fd fd; r \<leftarrow> native (Real_bind fd a n);
      return (r_ret r) }) (\<lambda>_. table_ok) t) s"
    by (rule wp_mono [OF wp_close_untrack])
       (use assms in \<open>auto simp: mine_def untrack_fd_def wp intro!: wp_keeps keeps_pass\<close>)
  then show ?thesis by (simp add: bind_reserved_def wp)
qed

lemma keeps_bind_call: "\<not> stays (Bind a n) \<Longrightarrow> keeps table_ok (my_bind fd a n)"
  unfolding my_bind_def
  by (rule keeps_own)
     (auto intro!: keeps wp_own_errno wp_bind_reserved split: option.splits)

lemma wp_finish_accept:
  assumes "r_ret r \<ge> 0" and "fresh_sock (r_ret r) t"
  shows "wp (finish_accept a n r) (\<lambda>_. table_ok) t"
proof -
  have o: "wp (lwip_opt (r_ret r) opt v) (\<lambda>_. fresh_sock (r_ret r)) u" if "fresh_sock (r_ret r) u"
    for opt v and u :: "'a shim_scheme"
    by (rule wp_preserves [OF tview_lwip_opt]) (use that fresh_tview in blast)
  have "\<not> r_ret r < 0" using assms(1) by simp
  then show ?thesis
    unfolding finish_accept_def
    by (simp only: if_False, rule_tac wp_bind_I [OF o [OF assms(2)]], rule_tac wp_bind_I, erule_tac o,
        rule_tac wp_bind_I, erule_tac reserve_ok) (simp add: wp split: option.split)
qed

lemma keeps_accept_own [keeps]: "keeps table_ok (accept_own l a n)"
  unfolding accept_own_def
  by (rule keeps_after_open) (simp_all add: wp_finish_accept, simp add: finish_accept_def wp)

lemma keeps_accept [keeps]: "keeps table_ok (my_accept fd a n)"
  unfolding my_accept_def by (intro keeps)

lemma table_ok_mono:
  "table_ok s \<Longrightarrow> env t = env s \<Longrightarrow> live t = live s \<Longrightarrow> open_mask t = open_mask s \<Longrightarrow>
     mapped_fd t = mapped_fd s \<Longrightarrow> (shim_wf s \<Longrightarrow> shim_wf t) \<Longrightarrow> table_ok t"
  using owned_cong [of t s] by (simp add: table_ok_def)

lemma keeps_close_owned:
  "keeps (\<lambda>s. table_ok s \<and> open_mask s = 0) (close_owned m i)"
proof -
  have "wp (sock (Lwip_close l)) (\<lambda>_ t. table_ok t \<and> open_mask t = 0) s"
    if "table_ok s \<and> open_mask s = 0" for l and s :: "'a shim_scheme"
    using wp_sock_close by (rule wp_mono) (use that in \<open>auto simp: table_ok_def owned_def ran_def\<close>)
  then show ?thesis by (simp add: close_owned_def keeps_def wp)
qed

lemma keeps_close_table [keeps]: "keeps table_ok (close_table m)"
proof -
  have "wp (for_each [0..<32] (close_owned m)) (\<lambda>_. table_ok) (s\<lparr>open_mask := 0\<rparr>)" if "table_ok s"
    for s :: "'a shim_scheme"
  proof -
    have "table_ok (s\<lparr>open_mask := 0\<rparr>)"
      using that by (simp add: table_ok_def shim_wf_def live_def owned_def ran_def inj_on_def dom_def)
    then have "wp (for_each [0..<32] (close_owned m)) (\<lambda>_ t. table_ok t \<and> open_mask t = 0) (s\<lparr>open_mask := 0\<rparr>)"
      by (intro wp_for_each) (auto intro: keepsD [OF keeps_close_owned])
    then show ?thesis by (rule wp_mono) simp
  qed
  then show ?thesis by (simp add: close_table_def keeps_def wp)
qed

lemma keeps_socketclose_all [keeps]: "keeps table_ok my_socketclose_all"
proof -
  have "keeps table_ok (modify (\<lambda>s. s\<lparr>ftp_restart_mask := 0, nssl_public_mask := 0,
      nssl_connection_by_fd := replicate 32 (- 1)\<rparr>))"
    by (auto simp: keeps_def wp live_def shim_wf_def elim!: table_ok_mono)
  then show ?thesis
    unfolding my_socketclose_all_def by (intro keeps)
qed

section \<open>Sequences of calls\<close>

datatype shim_op = Socket int int int | Close int | Close_all | On int fd_op

fun run_shim :: "shim_op \<Rightarrow> ('z shim_scheme, int option) state" where
  "run_shim (Socket d t p) = ret_int (my_socket d t p)"
| "run_shim (Close fd) = ret_int (my_socketclose fd)"
| "run_shim Close_all = ret_int my_socketclose_all"
| "run_shim (On fd op) = exec op fd"

definition run_all :: "shim_op list \<Rightarrow> 'z shim_scheme \<Rightarrow> 'z shim_scheme" where
  "run_all ops s = fold (\<lambda>op t. snd (run_state (run_shim op) t)) ops s"

lemma keeps_exec: "keeps table_ok (exec op fd)"
proof (cases "stays op")
  case False
  then show ?thesis
    by (cases op) (auto simp: ret_def ret_int_def intro!: keeps keeps_bind_call)
next
  case True
  show ?thesis
    unfolding keeps_def
  proof (intro allI impI)
    fix s :: "'a shim_scheme" assume s: "table_ok s"
    show "wp (exec op fd) (\<lambda>_. table_ok) s"
    proof (cases "is_foreign fd s")
      case True
      with s foreign_exec [OF True, of op] show ?thesis
        by (auto simp: wp_run_state live_def live_neutral shim_wf_def elim!: table_ok_mono)
    next
      case False
      then have "wp (exec op fd) (\<lambda>_. table_kept (stack_fd fd s) s) s"
        using conf_exec [OF True] by (auto simp: confined_def)
      then show ?thesis
        by (rule wp_mono) (use s tview_table_ok [OF table_kept_tview] in blast)
    qed
  qed
qed

lemma keeps_run_shim: "keeps table_ok (run_shim op)"
  by (cases op) (auto simp: ret_int_def intro!: keeps keeps_exec)

lemma table_ok_run_all: "table_ok s \<Longrightarrow> table_ok (run_all ops s)"
  unfolding run_all_def
  by (induction ops arbitrary: s) (use keeps_run_shim in \<open>auto simp: keeps_def wp_run_state\<close>)

section \<open>Properties\<close>

text \<open>C18. Whatever sequence of socket calls titles make, on descriptors of either stack, every
  descriptor the shim routes to lwIP stands for a socket lwIP has open, and no two of them
  stand for the same one: traffic is never sent into a closed or a reused lwIP socket.\<close>

theorem no_dangling_descriptor:
  assumes "table_ok s"
  shows "(\<forall>n l. owned (run_all ops s) n = Some l \<longrightarrow> l \<in> set (live (run_all ops s))) \<and>
    (\<forall>m n l. owned (run_all ops s) m = Some l \<and> owned (run_all ops s) n = Some l \<longrightarrow> m = n)"
proof -
  have t: "table_ok (run_all ops s)" by (rule table_ok_run_all [OF assms])
  then have "inj_on (owned (run_all ops s)) (dom (owned (run_all ops s)))" "ran (owned (run_all ops s)) \<subseteq> set (live (run_all ops s))"
    by (simp_all add: table_ok_def)
  then show ?thesis by (auto simp: ran_def inj_on_def dom_def)
qed

text \<open>An lwIP that numbers its sockets in the order it opens them.\<close>

definition counting :: "call list \<Rightarrow> call \<Rightarrow> resp" where
  "counting h c = resp0\<lparr>r_ret := (if opens c then int (length (filter opens h)) else 7)\<rparr>"

lemma live_counting: "x \<in> set (live_after counting h) \<Longrightarrow> x < int (length (filter opens h))"
proof (induction h rule: rev_induct)
  case (snoc c h)
  then show ?case
    by (cases c rule: opens.cases) (auto simp: counting_def split: if_splits dest: notin_set_remove1)
qed (simp add: live_after_def)

lemma counting_fresh: "lwip_fresh counting"
  using live_counting by (fastforce simp: lwip_fresh_def counting_def)

lemma table_ok_init: "table_ok (shim_init counting)"
  by (simp add: table_ok_def shim_start shim_wf_def counting_fresh live_def live_after_def ran_def inj_on_def dom_def)

theorem no_dangling_descriptor_witness:
  "owned (run_all [Socket 2 1 0] (shim_init counting)) 7 = Some 0 \<and>
   0 \<in> set (live (run_all [Socket 2 1 0] (shim_init counting)))"
proof -
  have "owned (run_all [Socket 2 1 0] (shim_init counting)) 7 = Some 0"
    by (simp add: run_all_def runs ret_runs shim_start counting_def resp0_def ax_net_stack_ready_def Let_def)
  with no_dangling_descriptor [OF table_ok_init, of "[Socket 2 1 0]"] show ?thesis by blast
qed

end
