(* ===== verification/Shim_Select.thy ===== *)
theory Shim_Select
  imports Shim_Multi
begin

text \<open>
  \<open>select\<close> of the shim. A set of descriptors of one stack goes to that stack; a mixed set is
  polled on both, 2 ms apart. The polling loop takes fuel; None means that it is still polling.
\<close>

section \<open>One pass over lwIP\<close>

definition has :: "u32 \<Rightarrow> nat \<Rightarrow> bool" where
  "has m i \<longleftrightarrow> m AND bitm i \<noteq> 0"

definition fd_isset :: "int \<Rightarrow> u32 \<Rightarrow> bool" where
  "fd_isset fd m \<longleftrightarrow> fd_ok fd \<and> has m (nat fd)"

definition lw_nfds :: "'z shim_scheme \<Rightarrow> nat \<Rightarrow> u32 \<Rightarrow> int" where
  "lw_nfds s nfds want =
     fold (\<lambda>i ln. if has want i \<and> stack_fd (int i) s \<ge> ln then stack_fd (int i) s + 1 else ln) [0..<nfds] 0"

definition lw_set :: "'z shim_scheme \<Rightarrow> nat \<Rightarrow> u32 \<Rightarrow> u32 \<Rightarrow> u32" where
  "lw_set s nfds want m =
     fold (\<lambda>i acc. if has want i \<and> has m i then acc OR fd_bit (stack_fd (int i) s) else acc) [0..<nfds] 0"

definition pub_set :: "'z shim_scheme \<Rightarrow> nat \<Rightarrow> u32 \<Rightarrow> u32 \<Rightarrow> u32" where
  "pub_set s nfds want m =
     fold (\<lambda>i acc. if has want i \<and> fd_isset (stack_fd (int i) s) m then acc OR bitm i else acc) [0..<nfds] 0"

type_synonym fdsets = "u32 option \<times> u32 option \<times> u32 option"

definition lwip_select_bits :: "nat \<Rightarrow> u32 \<Rightarrow> fdsets \<Rightarrow> timeval option \<Rightarrow> ('z shim_scheme, int \<times> fdsets) state" where
  "lwip_select_bits nfds want sets tv = do {
     s \<leftarrow> gets id;
     let (r, w, e) = sets;
     let lw = map_option (lw_set s nfds want);
     res \<leftarrow> sock (Lwip_select (lw_nfds s nfds want) (lw r) (lw w) (lw e) tv);
     let (lr, lw', le) = r_sets res;
     if r_ret res \<ge> 0 then return (r_ret res,
       (map_option (\<lambda>_. pub_set s nfds want lr) r, map_option (\<lambda>_. pub_set s nfds want lw') w,
        map_option (\<lambda>_. pub_set s nfds want le) e))
     else return (r_ret res, sets) }"

section \<open>select\<close>

definition zero_sets :: "fdsets \<Rightarrow> fdsets" where
  "zero_sets sets = (case sets of (r, w, e) \<Rightarrow>
     (map_option (\<lambda>_. 0) r, map_option (\<lambda>_. 0) w, map_option (\<lambda>_. 0) e))"

definition mask_sets :: "u32 \<Rightarrow> fdsets \<Rightarrow> fdsets" where
  "mask_sets m sets = (case sets of (r, w, e) \<Rightarrow>
     (map_option (\<lambda>x. x AND m) r, map_option (\<lambda>x. x AND m) w, map_option (\<lambda>x. x AND m) e))"

definition join :: "bool \<Rightarrow> u32 option \<Rightarrow> bool \<Rightarrow> u32 option \<Rightarrow> u32" where
  "join n a l b = (if n then (case a of None \<Rightarrow> 0 | Some x \<Rightarrow> x) else 0) OR
     (if l then (case b of None \<Rightarrow> 0 | Some x \<Rightarrow> x) else 0)"

definition join_sets :: "fdsets \<Rightarrow> bool \<Rightarrow> fdsets \<Rightarrow> bool \<Rightarrow> fdsets \<Rightarrow> fdsets" where
  "join_sets sets n ns l ls = (case (sets, ns, ls) of ((r, w, e), (nr, nw, ne), (lr, lw, le)) \<Rightarrow>
     (map_option (\<lambda>_. join n nr l lr) r, map_option (\<lambda>_. join n nw l lw) w,
      map_option (\<lambda>_. join n ne l le) e))"

definition native_select :: "int \<Rightarrow> fdsets \<Rightarrow> timeval option \<Rightarrow> ('z shim_scheme, int \<times> fdsets) state" where
  "native_select nfds sets tv = (case sets of (r, w, e) \<Rightarrow> do {
     res \<leftarrow> nsn (Real_select nfds r w e tv);
     let (nr, nw, ne) = r_sets res;
     return (r_ret res, (map_option (\<lambda>_. nr) r, map_option (\<lambda>_. nw) w, map_option (\<lambda>_. ne) e)) })"

text \<open>One round on a mixed set: \<open>Inr\<close> is a result, \<open>Inl\<close> means that neither stack had any.\<close>

definition poll_both :: "nat \<Rightarrow> u32 \<Rightarrow> u32 \<Rightarrow> fdsets \<Rightarrow> ('z shim_scheme, unit + (int \<times> fdsets)) state" where
  "poll_both nfds want nat_fds sets = do {
     (rc_n, ns) \<leftarrow> native_select (int nfds) (mask_sets nat_fds sets) (Some (0, 0));
     if rc_n < 0 then do { set_errno (- 1); return (Inr (- 1, sets)) }
     else do {
       (rc_l, ls) \<leftarrow> lwip_select_bits nfds (want AND NOT nat_fds) (mask_sets (NOT nat_fds) sets) (Some (0, 0));
       if rc_l < 0 then return (Inr (- 1, sets))
       else if rc_n > 0 \<or> rc_l > 0 then
         return (Inr ((if rc_n > 0 then rc_n else 0) + (if rc_l > 0 then rc_l else 0),
                      join_sets sets (rc_n > 0) ns (rc_l > 0) ls))
       else return (Inl ()) } }"

fun select_mixed :: "nat \<Rightarrow> nat \<Rightarrow> u32 \<Rightarrow> u32 \<Rightarrow> fdsets \<Rightarrow> int option \<Rightarrow> ('z shim_scheme, (int \<times> fdsets) option) state" where
  "select_mixed 0 nfds want nat_fds sets deadline = return None"
| "select_mixed (Suc fuel) nfds want nat_fds sets deadline = do {
     p \<leftarrow> poll_both nfds want nat_fds sets;
     (case p of Inr res \<Rightarrow> return (Some res)
      | Inl _ \<Rightarrow> do {
          late \<leftarrow> (case deadline of None \<Rightarrow> return False
                    | Some d \<Rightarrow> do { now \<leftarrow> ext (Os OSGetTime); return (r_ret now \<ge> d) });
          if late then return (Some (0, zero_sets sets))
          else do {
            ticks \<leftarrow> ext (Os (OSMillisecondsToTicks 2));
            ext (Os (OSSleepTicks (r_ret ticks)));
            select_mixed fuel nfds want nat_fds sets deadline } }) }"

definition select_deadline :: "timeval option \<Rightarrow> ('z shim_scheme, int option) state" where
  "select_deadline timeout = (case timeout of None \<Rightarrow> return None
     | Some (sec, usec) \<Rightarrow> do {
         now \<leftarrow> ext (Os OSGetTime);
         ticks \<leftarrow> ext (Os (OSMillisecondsToTicks (nat sec * 1000 + nat usec div 1000)));
         return (Some (r_ret now + r_ret ticks)) })"

definition bits_of :: "u32 option \<Rightarrow> u32" where
  "bits_of x = (case x of None \<Rightarrow> 0 | Some m \<Rightarrow> m)"

definition wanted :: "int \<Rightarrow> fdsets \<Rightarrow> u32" where
  "wanted nfds sets = (case sets of (r, w, e) \<Rightarrow>
     ((bits_of r OR bits_of w) OR bits_of e) AND (if nfds = 32 then - 1 else bitm (nat nfds) - 1))"

definition my_select ::
  "nat \<Rightarrow> int \<Rightarrow> fdsets \<Rightarrow> timeval option \<Rightarrow> ('z shim_scheme, (int \<times> fdsets) option) state" where
  "my_select fuel nfds sets timeout =
     (if nfds < 0 \<or> nfds > 32 \<or> bad_timeval timeout
      then do { r \<leftarrow> fail EINVAL; return (Some (r, sets)) }
      else do {
        restart \<leftarrow> gets (\<lambda>s. wanted nfds sets AND ftp_restart_mask s);
        if restart \<noteq> 0 then do {
          modify (\<lambda>s. s\<lparr>ftp_restart_mask := ftp_restart_mask s AND NOT restart\<rparr>);
          r \<leftarrow> fail EBADF;
          return (Some (r, zero_sets sets)) }
        else do {
          nat_fds \<leftarrow> gets (\<lambda>s. wanted nfds sets AND NOT (open_mask s));
          if nat_fds = wanted nfds sets then do {
            set_errno (- 1);
            r \<leftarrow> native_select nfds sets timeout;
            return (Some r) }
          else do {
            set_errno 0;
            if nat_fds = 0 then do {
              r \<leftarrow> lwip_select_bits (nat nfds) (wanted nfds sets) sets timeout;
              return (Some r) }
            else do {
              deadline \<leftarrow> select_deadline timeout;
              select_mixed fuel (nat nfds) (wanted nfds sets) nat_fds sets deadline } } } })"

lemmas [runs] =
  lwip_select_bits_def [THEN run_cong] native_select_def [THEN run_cong] poll_both_def [THEN run_cong]
  select_deadline_def [THEN run_cong] my_select_def [THEN run_cong]

section \<open>Translating descriptor sets\<close>

lemma bit_fold_or:
  "bit (fold (\<lambda>i acc. if P i then acc OR g i else acc) [0..<n] (a :: u32)) j \<longleftrightarrow>
     bit a j \<or> (\<exists>i < n. P i \<and> bit (g i) j)"
  by (induction n) (auto simp: bit_or_iff less_Suc_eq)

lemma has_bit: "i < 32 \<Longrightarrow> has m i \<longleftrightarrow> bit m i"
  by (simp add: has_def and_bitm_eq_0)

lemma bit_lw_set:
  assumes "nfds \<le> 32"
  shows "bit (lw_set s nfds want m) j \<longleftrightarrow>
    j < 32 \<and> (\<exists>i < nfds. bit want i \<and> bit m i \<and> stack_fd (int i) s = int j)"
  using assms by (auto simp: lw_set_def bit_fold_or fd_bit_def bit_bitm has_bit fd_ok_def split: if_splits)

lemma bit_pub_set:
  assumes "nfds \<le> 32"
  shows "bit (pub_set s nfds want m) i \<longleftrightarrow>
    i < nfds \<and> bit want i \<and> fd_ok (stack_fd (int i) s) \<and> bit m (nat (stack_fd (int i) s))"
  using assms by (auto simp: pub_set_def bit_fold_or bit_bitm has_bit fd_isset_def fd_ok_def)

lemma bit_wanted:
  assumes "0 \<le> nfds" and "nfds \<le> 32"
  shows "bit (wanted nfds (r, w, e)) i \<longleftrightarrow>
    i < nat nfds \<and> (bit (bits_of r) i \<or> bit (bits_of w) i \<or> bit (bits_of e) i)"
proof -
  have "bit ((if nfds = 32 then - 1 else bitm (nat nfds) - 1) :: u32) i \<longleftrightarrow> i < nat nfds" if "i < 32" for i
  proof (cases "nfds = 32")
    case False
    then have "(bitm (nat nfds) - 1 :: u32) = mask (nat nfds)"
      by (simp add: bitm_def mask_eq_exp_minus_1)
    with False that show ?thesis by (simp add: bit_mask_iff)
  qed (use that in simp)
  moreover have "i < nat nfds \<Longrightarrow> i < 32" using assms by linarith
  ultimately show ?thesis
    by (auto simp: wanted_def bit_and_iff bit_or_iff dest: bit32_less)
qed

section \<open>Leaving the polling loop\<close>

text \<open>What is used of the clock: every sleep moves it forward.\<close>

definition sleeps :: "call list \<Rightarrow> nat" where
  "sleeps h = length (filter (\<lambda>c. case c of Os (OSSleepTicks n) \<Rightarrow> True | _ \<Rightarrow> False) h)"

definition clock_ok :: "(call list \<Rightarrow> call \<Rightarrow> resp) \<Rightarrow> bool" where
  "clock_ok e \<longleftrightarrow> (\<forall>h. int (sleeps h) \<le> r_ret (e h (Os OSGetTime)))"

lemma sleeps_append [simp]: "sleeps (xs @ ys) = sleeps xs + sleeps ys"
  by (simp add: sleeps_def)

definition clock_view where "clock_view s = (env s, sleeps (trace s))"

lemma pres_ext: "sleeps [c] = 0 \<Longrightarrow> preserves clock_view (ext c)"
  by (rule preservesI) (simp add: wp clock_view_def)

lemma pres_set_errno: "preserves clock_view (set_errno e)"
  by (rule preservesI) (simp add: set_errno_def wp clock_view_def)

lemma pres_sock: "preserves clock_view (sock c)"
  unfolding sock_def by (intro preserves pres_ext pres_set_errno) (simp add: sleeps_def)

lemma pres_poll_both: "preserves clock_view (poll_both nfds want nat_fds sets)"
  unfolding poll_both_def native_select_def lwip_select_bits_def nsn_def Let_def
  by (intro preserves pres_ext pres_sock pres_set_errno) (simp add: sleeps_def)

lemma select_mixed_stops:
  assumes "clock_ok (env s)" and "0 < fuel" and "d - int (sleeps (trace s)) < int fuel"
  shows "\<exists>r t. run_state (select_mixed fuel nfds want nat_fds sets (Some d)) s = (Some r, t)"
  using assms
proof (induction fuel arbitrary: s)
  case (Suc fuel)
  obtain p t where p: "run_state (poll_both nfds want nat_fds sets) s = (p, t)" by fastforce
  then have v: "env t = env s" "sleeps (trace t) = sleeps (trace s)"
    using preserves_run [OF pres_poll_both, of nfds want nat_fds sets s] by (simp_all add: clock_view_def)
  show ?case
  proof (cases p)
    case (Inr r)
    with p show ?thesis by (cases r) simp
  next
    case (Inl u)
    let ?now = "r_ret (env t (trace t) (Os OSGetTime))"
    show ?thesis
    proof (cases "d \<le> ?now")
      case True
      with p Inl show ?thesis by (cases "zero_sets sets") simp
    next
      case False
      moreover have "int (sleeps (trace t)) \<le> ?now"
        using Suc.prems(1) v(1) by (simp add: clock_ok_def)
      ultimately have lt: "0 < fuel" "d - (int (sleeps (trace s)) + 1) < int fuel"
        using Suc.prems(3) v(2) by simp_all
      define h where "h = trace t @ [Os OSGetTime, Os (OSMillisecondsToTicks 2)]"
      let ?t = "t\<lparr>trace := h @ [Os (OSSleepTicks (r_ret (env t (trace t @ [Os OSGetTime]) (Os (OSMillisecondsToTicks 2)))))]\<rparr>"
      have "sleeps (trace ?t) = sleeps (trace s) + 1"
        using v(2) by (simp add: h_def) (simp add: sleeps_def)
      with lt Suc.IH [of ?t] Suc.prems(1) v(1) have "\<exists>r u. run_state (select_mixed fuel nfds want nat_fds sets (Some d)) ?t = (Some r, u)"
        by simp
      with p Inl False show ?thesis by (simp add: h_def)
    qed
  qed
qed simp

section \<open>Properties\<close>



text \<open>C22. A \<open>select\<close> with a timeout on descriptors of both stacks returns: if every sleep moves
  the clock forward, the polling ends within as many rounds as there are ticks to the deadline.\<close>

theorem select_mixed_returns:
  assumes "clock_ok (env s)" and "nat d < fuel"
  shows "\<exists>n sets' t. run_state (select_mixed fuel nfds want nat_fds sets (Some d)) s = (Some (n, sets'), t)"
  using select_mixed_stops [OF assms(1), of fuel d nfds want nat_fds sets] assms(2) by force

definition sleepy_clock :: "call list \<Rightarrow> call \<Rightarrow> resp" where
  "sleepy_clock h c = resp0\<lparr>r_ret := (if c = Os OSGetTime then int (sleeps h) else 0)\<rparr>"

theorem select_mixed_returns_witness:
  "\<exists>n sets' t. run_state (select_mixed 10 16 0x81 1 (Some 0x81, None, None) (Some 5)) (shim_one sleepy_clock) =
     (Some (n, sets'), t)"
proof (rule select_mixed_returns)
  show "clock_ok (env (shim_one sleepy_clock))"
    by (simp add: shim_start clock_ok_def sleepy_clock_def)
qed simp

text \<open>After the shim has stopped accepting, every other call treats all descriptors as
  nsysnet's; \<open>select\<close> alone still looks at the table, and still calls lwIP for a descriptor
  that was routed there.\<close>

theorem select_ignores_quiesce:
  assumes "\<not> accepting_sockets s" and "fd < 32" and "bit (open_mask s) fd" and "ftp_restart_mask s = 0"
  shows "is_foreign (int fd) s \<and>
    (\<exists>ln lr t. snd (run_state (my_select fuel 32 (Some (bitm fd), None, None) (Some (0, 0))) s) = t \<and>
       trace t = trace s @ [Sock (Lwip_select ln lr None None (Some (0, 0)))])"
proof -
  have w: "wanted 32 (Some (bitm fd), None, None) = bitm fd"
    by (simp add: wanted_def bits_of_def)
  have "bitm fd \<noteq> 0"
    using assms(2) bit_bitm [of fd fd] by auto
  moreover have "bitm fd AND NOT (open_mask s) = 0"
    using assms(3) by (auto intro!: bit_word_eqI simp: bit_and_iff bit_not_iff bit_bitm)
  ultimately have "\<exists>ln lr. trace (snd (run_state (my_select fuel 32 (Some (bitm fd), None, None) (Some (0, 0))) s)) =
      trace s @ [Sock (Lwip_select ln lr None None (Some (0, 0)))]"
    using assms(4)
    by (auto simp: my_select_def bad_timeval_def w lwip_select_bits_def sock_def set_errno_def Let_def case_prod_beta
        split: option.splits)
  with assms(1) show ?thesis by (simp add: is_foreign_def shim_accepts_def)
qed

theorem select_ignores_quiesce_witness:
  "\<exists>ln lr t. snd (run_state (my_select 1 32 (Some (bitm 7), None, None) (Some (0, 0)))
       ((shim_one (\<lambda>_ _. resp0))\<lparr>accepting_sockets := False\<rparr>)) = t \<and>
     trace t = [Sock (Lwip_select ln lr None None (Some (0, 0)))]"
proof -
  let ?s = "(shim_one (\<lambda>_ _. resp0))\<lparr>accepting_sockets := False\<rparr>"
  have "\<not> accepting_sockets ?s" "bit (open_mask ?s) 7" "ftp_restart_mask ?s = 0" "trace ?s = []"
    by (simp_all add: shim_start)
  with select_ignores_quiesce [of ?s 7 1] show ?thesis by auto
qed

end
