(* ===== verification/Ptr_Dns.thy ===== *)
theory Ptr_Dns
  imports Prelude
begin

text \<open>
  The DNS codec of the reverse lookup in \<^verbatim>\<open>aroma_module/nsysnet_shim.c\<close>: encoding a name into a
  query, skipping and decoding possibly compressed names, and finding the PTR record of a
  response. Names are C strings, here the bytes before the terminator; a packet is the array it
  lies in, with its length beside. A result None is the C result - 1.
\<close>

abbreviation (input) "DOT \<equiv> (46 :: u8)"
abbreviation (input) "PTR_DNS_PACKET_MAX \<equiv> (512 :: nat)"

definition ptr_dns_get16 :: "bytes \<Rightarrow> nat \<Rightarrow> u16" where
  "ptr_dns_get16 p i = push_bit 8 (ucast (p ! i)) OR ucast (p ! (i + 1))"

definition ptr_dns_put16 :: "nat \<Rightarrow> u16 \<Rightarrow> bytes \<Rightarrow> bytes" where
  "ptr_dns_put16 i v p = (p[i := ucast (drop_bit 8 v)])[i + 1 := ucast v]"

section \<open>Encoding\<close>

function encode_labels :: "bytes \<Rightarrow> nat \<Rightarrow> nat \<Rightarrow> bytes \<Rightarrow> (bytes \<times> nat) option" where
  "encode_labels packet capacity pos cur =
     (if cur = [] then Some (packet, pos)
      else let lab = takeWhile (\<lambda>c. c \<noteq> DOT) cur; rest = dropWhile (\<lambda>c. c \<noteq> DOT) cur; n = length lab in
        if n = 0 \<or> n > 63 \<or> pos + 1 + n \<ge> capacity then None
        else let packet' = memcpy_at (pos + 1) lab (packet[pos := of_nat n]) in
          (case rest of [] \<Rightarrow> Some (packet', pos + 1 + n)
           | _ # cur' \<Rightarrow> encode_labels packet' capacity (pos + 1 + n) cur'))"
  by auto
termination
proof (relation "measure (\<lambda>(_, _, _, cur). length cur)", simp)
  fix packet :: bytes and capacity pos :: nat and cur x xa xb xc cur' x21
  assume "xa = dropWhile (\<lambda>c. c \<noteq> DOT) cur" "xa = x21 # cur'"
  then have "length (x21 # cur') \<le> length cur" by (metis length_dropWhile_le)
  then show "((xc, capacity, pos + 1 + xb, cur'), packet, capacity, pos, cur) \<in> measure (\<lambda>(_, _, _, cur). length cur)"
    by simp
qed

declare encode_labels.simps [simp del]

definition ptr_dns_encode_name :: "bytes \<Rightarrow> nat \<Rightarrow> nat \<Rightarrow> bytes \<Rightarrow> (bytes \<times> nat) option" where
  "ptr_dns_encode_name packet capacity offset name = (case encode_labels packet capacity offset name of
     None \<Rightarrow> None
   | Some (p, pos) \<Rightarrow> if pos \<ge> capacity then None else Some (p[pos := 0], pos + 1))"

section \<open>Skipping and decoding\<close>

text \<open>What the bytes at \<open>pos\<close> are: the end of the name, a jump, a label of some length, or
  nothing legal inside the packet.\<close>

datatype dns_item = Item_bad | Item_end | Item_jump nat | Item_label nat bytes

definition jump_target :: "bytes \<Rightarrow> nat \<Rightarrow> nat" where
  "jump_target packet pos =
     unat (push_bit 8 (ucast ((packet ! pos) AND 0x3f)) OR ucast (packet ! (pos + 1)) :: u16)"

definition read_item :: "bytes \<Rightarrow> nat \<Rightarrow> nat \<Rightarrow> dns_item" where
  "read_item packet packet_len pos =
     (if pos \<ge> packet_len then Item_bad
      else let c = packet ! pos in
        if c = 0 then Item_end
        else if c AND 0xc0 = 0xc0 then
          (if pos + 1 \<ge> packet_len then Item_bad else Item_jump (jump_target packet pos))
        else if c AND 0xc0 \<noteq> 0 \<or> c > 63 \<or> pos + 1 + unat c > packet_len then Item_bad
        else Item_label (unat c) (slice (pos + 1) (unat c) packet))"

text \<open>The first argument counts the rounds left of \<open>for (labels = 0; labels < 128; labels++)\<close>.\<close>

fun skip_labels :: "nat \<Rightarrow> bytes \<Rightarrow> nat \<Rightarrow> nat \<Rightarrow> nat option" where
  "skip_labels 0 packet packet_len pos = None"
| "skip_labels (Suc k) packet packet_len pos = (case read_item packet packet_len pos of
     Item_bad \<Rightarrow> None
   | Item_end \<Rightarrow> Some (pos + 1)
   | Item_jump t \<Rightarrow> Some (pos + 2)
   | Item_label n lab \<Rightarrow> skip_labels k packet packet_len (pos + 1 + n))"

definition ptr_dns_skip_name :: "bytes \<Rightarrow> nat \<Rightarrow> nat \<Rightarrow> nat option" where
  "ptr_dns_skip_name packet packet_len offset = skip_labels 128 packet packet_len offset"

text \<open>Append a label to what is in the caller's array of \<open>out_len\<close> bytes, which must keep room
  for the terminator.\<close>

definition put_label :: "bytes \<Rightarrow> nat \<Rightarrow> nat \<Rightarrow> bytes \<Rightarrow> bytes option" where
  "put_label out out_len n lab =
     (if out \<noteq> [] \<and> length out + 1 \<ge> out_len then None
      else let dotted = (if out \<noteq> [] then out @ [DOT] else out) in
        if length dotted + n \<ge> out_len then None else Some (dotted @ lab))"

fun decode_labels :: "nat \<Rightarrow> bytes \<Rightarrow> nat \<Rightarrow> nat \<Rightarrow> bytes \<Rightarrow> nat \<Rightarrow> nat \<Rightarrow> bytes option" where
  "decode_labels 0 packet packet_len pos out out_len jumps = None"
| "decode_labels (Suc k) packet packet_len pos out out_len jumps = (case read_item packet packet_len pos of
     Item_bad \<Rightarrow> None
   | Item_end \<Rightarrow> Some out
   | Item_jump t \<Rightarrow>
       if jumps + 1 > 32 \<or> t \<ge> packet_len then None
       else decode_labels k packet packet_len t out out_len (jumps + 1)
   | Item_label n lab \<Rightarrow> (case put_label out out_len n lab of None \<Rightarrow> None
       | Some out' \<Rightarrow> decode_labels k packet packet_len (pos + 1 + n) out' out_len jumps))"

definition ptr_dns_decode_name :: "bytes \<Rightarrow> nat \<Rightarrow> nat \<Rightarrow> nat \<Rightarrow> bytes option" where
  "ptr_dns_decode_name packet packet_len offset out_len =
     (if out_len = 0 then None else decode_labels 128 packet packet_len offset [] out_len 0)"

section \<open>Queries and responses\<close>

text \<open>The query for a reverse name: the 512-byte array and the length used.\<close>

definition ptr_query :: "u16 \<Rightarrow> bytes \<Rightarrow> (bytes \<times> nat) option" where
  "ptr_query qid reverse_name =
     (let q = ptr_dns_put16 4 1 (ptr_dns_put16 2 0x0100 (ptr_dns_put16 0 qid (replicate PTR_DNS_PACKET_MAX 0))) in
      case ptr_dns_encode_name q PTR_DNS_PACKET_MAX 12 reverse_name of
        None \<Rightarrow> None
      | Some (q', n) \<Rightarrow> if n + 4 > PTR_DNS_PACKET_MAX then None
          else Some (ptr_dns_put16 (n + 2) 1 (ptr_dns_put16 n 12 q'), n + 4))"

fun skip_questions :: "nat \<Rightarrow> bytes \<Rightarrow> nat \<Rightarrow> nat \<Rightarrow> nat option" where
  "skip_questions 0 packet packet_len offset = Some offset"
| "skip_questions (Suc k) packet packet_len offset =
     (case ptr_dns_skip_name packet packet_len offset of None \<Rightarrow> None
      | Some off \<Rightarrow> if off + 4 > packet_len then None else skip_questions k packet packet_len (off + 4))"

fun find_ptr :: "nat \<Rightarrow> bytes \<Rightarrow> nat \<Rightarrow> nat \<Rightarrow> nat \<Rightarrow> bytes option" where
  "find_ptr 0 packet packet_len offset out_len = None"
| "find_ptr (Suc k) packet packet_len offset out_len =
     (case ptr_dns_skip_name packet packet_len offset of None \<Rightarrow> None
      | Some off \<Rightarrow>
          if off + 10 > packet_len then None
          else let rdlen = unat (ptr_dns_get16 packet (off + 8)); data = off + 10 in
            if data + rdlen > packet_len then None
            else (case (if ptr_dns_get16 packet off = 12 \<and> ptr_dns_get16 packet (off + 2) = 1
                        then ptr_dns_decode_name packet packet_len data out_len else None) of
                    Some name \<Rightarrow> Some name
                  | None \<Rightarrow> find_ptr k packet packet_len (data + rdlen) out_len))"

definition ptr_response :: "u16 \<Rightarrow> bytes \<Rightarrow> nat \<Rightarrow> nat \<Rightarrow> bytes option" where
  "ptr_response qid packet packet_len out_len =
     (if packet_len < 12 then None
      else if ptr_dns_get16 packet 0 \<noteq> qid then None
      else let flags = ptr_dns_get16 packet 2 in
        if flags AND 0x8000 = 0 \<or> flags AND 0x0200 \<noteq> 0 \<or> flags AND 0x000f \<noteq> 0 then None
        else (case skip_questions (unat (ptr_dns_get16 packet 4)) packet packet_len 12 of
                None \<Rightarrow> None
              | Some off \<Rightarrow> find_ptr (unat (ptr_dns_get16 packet 6)) packet packet_len off out_len))"

section \<open>Decoding stays inside\<close>

text \<open>Two packets that agree on the first \<open>n\<close> bytes.\<close>

definition same_upto :: "nat \<Rightarrow> bytes \<Rightarrow> bytes \<Rightarrow> bool" where
  "same_upto n p q \<longleftrightarrow> (\<forall>i < n. p ! i = q ! i) \<and> n \<le> length p \<and> n \<le> length q"

lemma same_nth: "same_upto n p q \<Longrightarrow> i < n \<Longrightarrow> p ! i = q ! i"
  by (simp add: same_upto_def)

lemma same_slice: "same_upto n p q \<Longrightarrow> i + k \<le> n \<Longrightarrow> slice i k p = slice i k q"
  by (rule nth_equalityI) (auto simp: same_upto_def slice_def)

lemma same_get16: "same_upto n p q \<Longrightarrow> i + 1 < n \<Longrightarrow> ptr_dns_get16 p i = ptr_dns_get16 q i"
  using same_nth [of n p q i] same_nth [of n p q "i + 1"] by (simp add: ptr_dns_get16_def)

lemma same_item:
  assumes "same_upto n p q"
  shows "read_item p n pos = read_item q n pos"
proof (cases "pos < n")
  case True
  have c: "p ! pos = q ! pos" by (rule same_nth [OF assms True])
  have j: "jump_target p pos = jump_target q pos" if "pos + 1 < n"
    using c same_nth [OF assms that] by (simp add: jump_target_def)
  have l: "slice (pos + 1) k p = slice (pos + 1) k q" if "pos + 1 + k \<le> n" for k
    by (rule same_slice [OF assms that])
  show ?thesis
    using j l [of "unat (q ! pos)"]
    by (cases "pos + 1 < n"; cases "pos + 1 + unat (q ! pos) \<le> n") (simp_all add: read_item_def Let_def c)
qed (simp add: read_item_def)

lemma same_skip: "same_upto n p q \<Longrightarrow> skip_labels k p n pos = skip_labels k q n pos"
proof (induction k arbitrary: pos)
  case (Suc k)
  show ?case unfolding skip_labels.simps same_item [OF Suc.prems] Suc.IH [OF Suc.prems] ..
qed simp

lemma same_decode: "same_upto n p q \<Longrightarrow> decode_labels k p n pos out ol j = decode_labels k q n pos out ol j"
proof (induction k arbitrary: pos out j)
  case (Suc k)
  show ?case unfolding decode_labels.simps same_item [OF Suc.prems] Suc.IH [OF Suc.prems] ..
qed simp

lemma same_skip_name: "same_upto n p q \<Longrightarrow> ptr_dns_skip_name p n off = ptr_dns_skip_name q n off"
  by (simp add: ptr_dns_skip_name_def same_skip)

lemma same_decode_name: "same_upto n p q \<Longrightarrow> ptr_dns_decode_name p n off ol = ptr_dns_decode_name q n off ol"
  by (simp add: ptr_dns_decode_name_def same_decode)

lemma same_questions: "same_upto n p q \<Longrightarrow> skip_questions k p n off = skip_questions k q n off"
proof (induction k arbitrary: off)
  case (Suc k)
  show ?case unfolding skip_questions.simps same_skip_name [OF Suc.prems] Suc.IH [OF Suc.prems] ..
qed simp

lemma same_find: "same_upto n p q \<Longrightarrow> find_ptr k p n off ol = find_ptr k q n off ol"
proof (induction k arbitrary: off)
  case (Suc k)
  show ?case
  proof (cases "ptr_dns_skip_name q n off")
    case None
    then show ?thesis by (simp add: same_skip_name [OF Suc.prems])
  next
    case (Some x)
    have "ptr_dns_get16 p (x + i) = ptr_dns_get16 q (x + i)" if "x + 10 \<le> n" "i \<le> 8" for i
      by (rule same_get16 [OF Suc.prems]) (use that in simp)
    from this [of 0] this [of 2] this [of 8] Some show ?thesis
      unfolding find_ptr.simps same_skip_name [OF Suc.prems] same_decode_name [OF Suc.prems] Suc.IH [OF Suc.prems]
      by (cases "x + 10 \<le> n") (simp_all add: Let_def)
  qed
qed simp

lemma same_response: "same_upto n p q \<Longrightarrow> ptr_response i p n ol = ptr_response i q n ol"
proof (cases "n < 12")
  case False
  assume pq: "same_upto n p q"
  have "ptr_dns_get16 p i = ptr_dns_get16 q i" if "i \<le> 10" for i
    by (rule same_get16 [OF pq]) (use that False in simp)
  from this [of 0] this [of 2] this [of 4] this [of 6] show ?thesis
    unfolding ptr_response_def same_questions [OF pq] same_find [OF pq] by (simp add: Let_def split: option.split)
qed (simp add: ptr_response_def)

lemma item_label_length: "n \<le> length p \<Longrightarrow> read_item p n pos = Item_label k lab \<Longrightarrow> length lab = k"
  by (auto simp: read_item_def Let_def split: if_splits)

lemma put_label_bound: "put_label out ol n lab = Some r \<Longrightarrow> length lab = n \<Longrightarrow> length r < ol"
  by (auto simp: put_label_def Let_def split: if_splits)

lemma decode_labels_bound:
  "decode_labels k p n pos out ol j = Some r \<Longrightarrow> length out < ol \<Longrightarrow> n \<le> length p \<Longrightarrow> length r < ol"
proof (induction k arbitrary: pos out j)
  case (Suc k)
  then show ?case
    by (auto split: dns_item.splits if_splits option.splits dest: item_label_length put_label_bound)
qed simp

lemma find_ptr_bound: "find_ptr k p n off ol = Some r \<Longrightarrow> n \<le> length p \<Longrightarrow> length r < ol"
  by (induction k arbitrary: off)
     (auto simp: Let_def ptr_dns_decode_name_def split: option.splits if_splits dest: decode_labels_bound)

section \<open>Encoding and decoding\<close>

text \<open>The name of a list of labels, and the labels on the wire.\<close>

fun join_dots :: "bytes list \<Rightarrow> bytes" where
  "join_dots [] = []"
| "join_dots [l] = l"
| "join_dots (l # ls) = l @ DOT # join_dots ls"

definition wire :: "bytes list \<Rightarrow> bytes" where
  "wire ls = concat (map (\<lambda>l. of_nat (length l) # l) ls)"

definition valid_label :: "bytes \<Rightarrow> bool" where
  "valid_label l \<longleftrightarrow> l \<noteq> [] \<and> length l \<le> 63 \<and> DOT \<notin> set l"

lemma wire_simps [simp]: "wire [] = []" "wire (l # ls) = of_nat (length l) # l @ wire ls"
  by (simp_all add: wire_def)

lemma memcpy_one: "pos < length p \<Longrightarrow> p[pos := x] = memcpy_at pos [x] p"
  by (simp add: memcpy_at_def upd_conv_take_nth_drop)

lemma memcpy_memcpy:
  "pos + length a + length b \<le> length p \<Longrightarrow> memcpy_at (pos + length a) b (memcpy_at pos a p) = memcpy_at pos (a @ b) p"
  by (cases a) (auto simp: memcpy_at_def min_def add.commute add.left_commute)

lemma memcpy_nil [simp]: "memcpy_at pos [] p = p"
  by (simp add: memcpy_at_def)

lemma encode_labels_wire:
  assumes "list_all valid_label ls" and "length packet = cap" and "pos + length (wire ls) < cap"
  shows "encode_labels packet cap pos (join_dots ls) = Some (memcpy_at pos (wire ls) packet, pos + length (wire ls))"
  using assms
proof (induction ls arbitrary: packet pos rule: join_dots.induct)
  case 1
  then show ?case by (simp add: encode_labels.simps [of _ _ _ "[]"])
next
  case (2 l)
  then have l: "l \<noteq> []" "length l \<le> 63" "takeWhile (\<lambda>c. c \<noteq> DOT) l = l" "dropWhile (\<lambda>c. c \<noteq> DOT) l = []"
    by (auto simp: valid_label_def takeWhile_eq_all_conv)
  have "memcpy_at (pos + 1) l (packet[pos := of_nat (length l)]) = memcpy_at pos (of_nat (length l) # l) packet"
    using 2 memcpy_memcpy [of pos "[of_nat (length l)]" l packet] by (simp add: memcpy_one)
  with 2 l(1,2) show ?case
    unfolding join_dots.simps encode_labels.simps [of _ _ _ l] l(3,4) Let_def by simp
next
  case (3 l l' ls)
  then have v: "l \<noteq> []" "length l \<le> 63" "DOT \<notin> set l"
    by (auto simp: valid_label_def)
  then have l: "takeWhile (\<lambda>c. c \<noteq> DOT) (l @ DOT # x) = l" "dropWhile (\<lambda>c. c \<noteq> DOT) (l @ DOT # x) = DOT # x" for x
    by (auto simp: takeWhile_append dropWhile_append)
  let ?p = "memcpy_at pos (of_nat (length l) # l) packet"
  have m: "memcpy_at (pos + 1) l (packet[pos := of_nat (length l)]) = ?p"
    using 3 memcpy_memcpy [of pos "[of_nat (length l)]" l packet] by (simp add: memcpy_one)
  have lp: "length ?p = cap" using 3 by (simp add: length_memcpy_at)
  have "encode_labels ?p cap (pos + 1 + length l) (join_dots (l' # ls)) =
      Some (memcpy_at (pos + 1 + length l) (wire (l' # ls)) ?p, pos + 1 + length l + length (wire (l' # ls)))"
    by (rule "3.IH") (use 3 lp in simp_all)
  moreover have "memcpy_at (pos + 1 + length l) (wire (l' # ls)) ?p = memcpy_at pos (wire (l # l' # ls)) packet"
    using 3 memcpy_memcpy [of pos "of_nat (length l) # l" "wire (l' # ls)" packet] by simp
  ultimately show ?case
    using 3 v m unfolding join_dots.simps encode_labels.simps [of _ _ _ "l @ DOT # x" for x] l Let_def by simp
qed

lemma small_label_byte:
  assumes "0 < n" and "n \<le> 63"
  shows "(of_nat n :: u8) \<noteq> 0" "(of_nat n :: u8) AND 0xc0 = 0" "\<not> (of_nat n :: u8) > 63" "unat (of_nat n :: u8) = n"
proof -
  show u: "unat (of_nat n :: u8) = n" using assms by (simp add: unat_of_nat take_bit_eq_mod)
  show "(of_nat n :: u8) \<noteq> 0" using u assms(1) by auto
  show "\<not> (of_nat n :: u8) > 63" using u assms(2) by (simp add: word_less_nat_alt)
  have "(of_nat n :: u8) = take_bit 6 (of_nat n)"
    using u assms(2) by (intro word_unat_eq_iff [THEN iffD2]) (simp add: unsigned_take_bit_eq take_bit_nat_eq_self)
  moreover have "take_bit 6 w AND push_bit 6 3 = 0" for w :: u8
    by (auto intro!: bit_word_eqI simp: bit_simps simp del: push_bit_numeral)
  then have "take_bit 6 w AND 0xc0 = 0" for w :: u8 by simp
  ultimately show "(of_nat n :: u8) AND 0xc0 = 0" by metis
qed

text \<open>\<open>at p pos bs\<close>: the bytes \<open>bs\<close> stand in \<open>p\<close> from \<open>pos\<close> on.\<close>

definition at :: "bytes \<Rightarrow> nat \<Rightarrow> bytes \<Rightarrow> bool" where
  "at p pos bs \<longleftrightarrow> slice pos (length bs) p = bs"

lemma at_Cons: "at p pos (b # bs) \<longleftrightarrow> pos < length p \<and> p ! pos = b \<and> at p (pos + 1) bs"
  by (cases "pos < length p") (auto simp: at_def slice_def Cons_nth_drop_Suc [symmetric])

lemma at_append: "at p pos (a @ b) \<longleftrightarrow> at p pos a \<and> at p (pos + length a) b"
proof (induction a arbitrary: pos)
  case Nil
  then show ?case by (simp add: at_def slice_def)
next
  case (Cons x a)
  then show ?case by (simp add: at_Cons)
qed

lemma at_memcpy: "pos + length bs \<le> length p \<Longrightarrow> at (memcpy_at pos bs p) pos bs"
  by (simp add: at_def slice_def memcpy_at_def)

definition out_join :: "bytes \<Rightarrow> bytes list \<Rightarrow> bytes" where
  "out_join out ls = (if ls = [] then out else if out = [] then join_dots ls else out @ DOT # join_dots ls)"

lemma out_join_Cons: "l \<noteq> [] \<Longrightarrow> out_join out (l # ls) = out_join (if out = [] then l else out @ DOT # l) ls"
  by (cases ls) (auto simp: out_join_def)

lemma item_of_label:
  assumes "valid_label l" and "at p pos (of_nat (length l) # l)" and "pos + 1 + length l \<le> n"
  shows "read_item p n pos = Item_label (length l) l"
proof -
  have "0 < length l" "length l \<le> 63" using assms(1) by (auto simp: valid_label_def)
  note b = small_label_byte [OF this]
  have c: "p ! pos = of_nat (length l)" "slice (pos + 1) (length l) p = l"
    using assms(2) by (simp_all add: at_Cons) (simp add: at_def)
  show ?thesis
    using assms(3) b c by (simp add: read_item_def Let_def)
qed

lemma length_out_join_le: "length out \<le> length (out_join out ls)"
  by (simp add: out_join_def)

lemma decode_labels_wire:
  assumes "list_all valid_label ls" and "at p pos (wire ls @ [0])" and "pos + length (wire ls) < n"
    and "length ls < k" and "length (out_join out ls) < ol"
  shows "decode_labels k p n pos out ol j = Some (out_join out ls)"
  using assms
proof (induction ls arbitrary: k pos out)
  case Nil
  then obtain k' where "k = Suc k'" by (cases k) auto
  with Nil show ?case by (simp add: at_Cons read_item_def out_join_def)
next
  case (Cons l ls)
  obtain k' where k: "k = Suc k'" using Cons.prems(4) by (cases k) auto
  have at: "at p pos (of_nat (length l) # l)" "at p (pos + 1 + length l) (wire ls @ [0])"
    using Cons.prems(2) by (simp_all add: at_Cons at_append)
  have item: "read_item p n pos = Item_label (length l) l"
    by (rule item_of_label) (use Cons.prems at in simp_all)
  have ne: "l \<noteq> []" using Cons.prems(1) by (simp add: valid_label_def)
  let ?o = "if out = [] then l else out @ DOT # l"
  have "length ?o < ol"
    using Cons.prems(5) length_out_join_le [of ?o ls] out_join_Cons [OF ne, of out ls] by simp
  then have put: "put_label out ol (length l) l = Some ?o"
    by (auto simp: put_label_def split: if_splits)
  have "decode_labels k' p n (pos + 1 + length l) ?o ol j = Some (out_join ?o ls)"
    by (rule Cons.IH) (use Cons.prems at k out_join_Cons [OF ne, of out ls] in simp_all)
  with k item put out_join_Cons [OF ne, of out ls] show ?case by simp
qed

lemma skip_labels_wire:
  assumes "list_all valid_label ls" and "at p pos (wire ls @ [0])" and "pos + length (wire ls) < n" and "length ls < k"
  shows "skip_labels k p n pos = Some (pos + length (wire ls) + 1)"
  using assms
proof (induction ls arbitrary: k pos)
  case Nil
  then obtain k' where "k = Suc k'" by (cases k) auto
  with Nil show ?case by (simp add: at_Cons read_item_def)
next
  case (Cons l ls)
  obtain k' where k: "k = Suc k'" using Cons.prems(4) by (cases k) auto
  have at: "at p pos (of_nat (length l) # l)" "at p (pos + 1 + length l) (wire ls @ [0])"
    using Cons.prems(2) by (simp_all add: at_Cons at_append)
  have "read_item p n pos = Item_label (length l) l"
    by (rule item_of_label) (use Cons.prems at in simp_all)
  with Cons.IH [of "pos + 1 + length l" k'] Cons.prems at k show ?case by simp
qed

section \<open>Properties\<close>

text \<open>C23. Encoding a name of legal labels into a query and decoding it where it was written gives
  the name back; the bytes after it are where the record continues, which is also where skipping
  the name leads.\<close>

theorem dns_name_roundtrip:
  assumes "list_all valid_label ls" and "length ls < 128" and "length packet = cap"
    and "off + length (wire ls) < cap" and "length (join_dots ls) < out_len"
  shows "\<exists>p n. ptr_dns_encode_name packet cap off (join_dots ls) = Some (p, n) \<and> length p = cap \<and> n \<le> cap \<and>
    ptr_dns_decode_name p n off out_len = Some (join_dots ls) \<and> ptr_dns_skip_name p n off = Some n"
proof -
  let ?w = "wire ls" and ?m = "memcpy_at off (wire ls) packet"
  let ?p = "memcpy_at off (?w @ [0]) packet"
  have "?m[off + length ?w := 0] = ?p"
    using assms(3,4) memcpy_memcpy [of off ?w "[0]" packet] by (simp add: memcpy_one)
  then have e: "ptr_dns_encode_name packet cap off (join_dots ls) = Some (?p, off + length ?w + 1)"
    using encode_labels_wire [OF assms(1,3,4)] assms(4) by (simp add: ptr_dns_encode_name_def)
  have at: "at ?p off (?w @ [0])"
    by (rule at_memcpy) (use assms(3,4) in simp)
  have "skip_labels 128 ?p (off + length ?w + 1) off = Some (off + length ?w + 1)"
    by (rule skip_labels_wire [OF assms(1) at]) (use assms(2) in simp_all)
  moreover have "decode_labels 128 ?p (off + length ?w + 1) off [] out_len 0 = Some (out_join [] ls)"
    using assms at by (intro decode_labels_wire) (simp_all add: out_join_def)
  ultimately show ?thesis
    using e assms(3-5) by (auto simp: ptr_dns_decode_name_def ptr_dns_skip_name_def out_join_def)
qed

theorem dns_name_roundtrip_witness:
  "\<exists>p n. ptr_dns_encode_name (replicate 64 0) 64 12 [52, 46, 97, 98] = Some (p, n) \<and>
     ptr_dns_decode_name p n 12 32 = Some [52, 46, 97, 98]"
  using dns_name_roundtrip [of "[[52], [97, 98]]" "replicate 64 0" 64 12 32]
  by (auto simp: valid_label_def)

text \<open>C24. Parsing a response reads no byte beyond the length received, whatever compression
  pointers and record lengths it contains (the result is the same for any two arrays that agree
  up to that length), and a name it returns fits the caller's array with its terminator.\<close>

theorem dns_response_bounds:
  assumes "same_upto n p q"
  shows "ptr_response qid p n out_len = ptr_response qid q n out_len \<and>
    (\<forall>name. ptr_response qid p n out_len = Some name \<longrightarrow> length name < out_len)"
proof -
  have "length name < out_len" if "ptr_response qid p n out_len = Some name" for name
    using that assms
    by (auto simp: ptr_response_def same_upto_def Let_def split: if_splits option.splits dest: find_ptr_bound)
  then show ?thesis using same_response [OF assms] by blast
qed

theorem dns_response_bounds_witness:
  "\<forall>x. ptr_response 7 [0, 7, 0x80, 0, 0, 0, 0, 1, 0, 0, 0, 0, 0xc0, 12] 14 256 =
     ptr_response 7 [0, 7, 0x80, 0, 0, 0, 0, 1, 0, 0, 0, 0, 0xc0, 12, x] 14 256"
  using dns_response_bounds [of 14 "[0, 7, 0x80, 0, 0, 0, 0, 1, 0, 0, 0, 0, 0xc0, 12]"]
  by (auto simp: same_upto_def nth_append [of "[0, 7, 0x80, 0, 0, 0, 0, 1, 0, 0, 0, 0, 0xc0, 12]" "[x]" for x, simplified])

end
