(* ===== verification/Shim_Dns.thy ===== *)
theory Shim_Dns
  imports Shim_State Ptr_Dns
begin

text \<open>
  Name resolution of the shim: host names, reverse lookup, \<open>getaddrinfo\<close> in its synchronous and
  asynchronous forms, and the names and numbers around them. A list of \<open>struct nsn_addrinfo\<close> is
  the list of its nodes with their addresses; a NULL name is None.

  The table of asynchronous lookups is guarded by a spin lock in the code, so that each use of it
  is one step here; lwIP's callback \<open>async_dns_found\<close> is an operation of its own, which may come
  at any time.
\<close>

section \<open>State\<close>

datatype async_dns_state = ASYNC_DNS_FREE | ASYNC_DNS_PENDING | ASYNC_DNS_READY | ASYNC_DNS_FAILED | ASYNC_DNS_CLAIMED

record async_dns_slot =
  as_state :: async_dns_state
  as_ticket :: u32
  as_name :: bytes

record dns = shim +
  h_errno :: int
  ai_owned :: "u32 list"
  async_dns_slots :: "async_dns_slot list"
  async_dns_ticket_counter :: u32

definition dns_wf :: "'z dns_scheme \<Rightarrow> bool" where
  "dns_wf s \<longleftrightarrow> length (ai_owned s) = 8 \<and> length (async_dns_slots s) = 8"

abbreviation (input) "NSN_EAI_FAIL \<equiv> (4 :: int)"
abbreviation (input) "NSN_EAI_FAMILY \<equiv> (5 :: int)"
abbreviation (input) "NSN_EAI_MEMORY \<equiv> (6 :: int)"
abbreviation (input) "NSN_EAI_NONAME \<equiv> (8 :: int)"
abbreviation (input) "NSN_EAI_SERVICE \<equiv> (9 :: int)"
abbreviation (input) "NSN_EAI_INPROGRESS \<equiv> (15 :: int)"
abbreviation (input) "ERR_INPROGRESS \<equiv> (- 5 :: int)"
abbreviation (input) "DNS_MAX_NAME_LENGTH \<equiv> (256 :: nat)"

definition dns :: "dns_call \<Rightarrow> ('z drv_scheme, resp) state" where
  "dns c = ext (Dns c)"

definition nsd :: "nsd_call \<Rightarrow> ('z drv_scheme, resp) state" where
  "nsd c = ext (Nsd c)"

text \<open>\<open>shim_accepts() && ax_net_stack_ready()\<close>.\<close>

definition dns_ours :: "'z shim_scheme \<Rightarrow> bool" where
  "dns_ours s \<longleftrightarrow> shim_accepts s \<and> initialized s"

section \<open>Host names\<close>

definition ascii :: "string \<Rightarrow> bytes" where
  "ascii cs = map of_char cs"

definition dns_rewrite_name :: "bytes option \<Rightarrow> bytes option" where
  "dns_rewrite_name name = (case name of None \<Rightarrow> None
     | Some n \<Rightarrow> if n = ascii ''nncs1.app.nintendowifi.net'' then Some (ascii ''nncs1.app.pretendo.cc'')
         else if n = ascii ''nncs2.app.nintendowifi.net'' then Some (ascii ''nncs2.app.pretendo.cc'')
         else Some n)"

definition h_errno_to_nsn :: "int \<Rightarrow> int" where
  "h_errno_to_nsn e = (if e = 210 then 1 else if e = 213 then 2 else if e = 212 then 3 else if e = 211 then 4 else e)"

text \<open>The result is the address of the \<open>struct hostent\<close>, 0 for NULL; lwIP leaves its
  \<open>h_errno\<close> in \<open>r_val\<close>.\<close>

definition my_gethostbyname :: "bytes option \<Rightarrow> ('z dns_scheme, int) state" where
  "my_gethostbyname name = do {
     ours \<leftarrow> gets dns_ours;
     if \<not> ours then do { r \<leftarrow> nsd (Real_gethostbyname name); return (r_ret r) }
     else do {
       r \<leftarrow> dns (Lwip_gethostbyname (dns_rewrite_name name));
       whenM (r_ret r = 0) (modify (\<lambda>s. s\<lparr>h_errno := h_errno_to_nsn (sint (r_val r))\<rparr>));
       return (r_ret r) } }"

section \<open>Reverse lookup\<close>

definition fd_in :: "int \<Rightarrow> u32" where
  "fd_in fd = (if fd_ok fd then bitm (nat fd) else 0)"

definition dns_sockaddr :: "u32 \<Rightarrow> sockaddr_in" where
  "dns_sockaddr server = sin0\<lparr>sin_family := AF_INET, sin_port := 53, sin_addr := server\<rparr>"

text \<open>Send the query, wait and receive: the bytes received, None on any failure. The socket is
  closed on every way out.\<close>

definition ptr_exchange :: "bytes \<Rightarrow> nat \<Rightarrow> u32 \<Rightarrow> ('z shim_scheme, bytes option) state" where
  "ptr_exchange query query_len server = do {
     r \<leftarrow> sock (Lwip_socket 2 SOCK_DGRAM 17);
     let fd = r_ret r;
     if fd < 0 then return None
     else do {
       s \<leftarrow> sock (Lwip_sendto fd (take query_len query) (int query_len) 0 (Some (dns_sockaddr server)));
       if r_ret s \<noteq> int query_len then do { sock (Lwip_close fd); return None }
       else do {
         w \<leftarrow> sock (Lwip_select (fd + 1) (Some (fd_in fd)) None None (Some (0, 750000)));
         if r_ret w \<le> 0 then do { sock (Lwip_close fd); return None }
         else do {
           d \<leftarrow> sock (Lwip_recvfrom fd 512 0 False);
           sock (Lwip_close fd);
           if r_ret d < 12 then return None else return (Some (take (nat (r_ret d)) (r_data d))) } } } }"

text \<open>\<open>salt\<close> stands for the addresses of two stack objects that are mixed into the query id.\<close>

definition ptr_dns_query_server :: "u16 \<Rightarrow> u32 \<Rightarrow> bytes \<Rightarrow> nat \<Rightarrow> ('z shim_scheme, bytes option) state" where
  "ptr_dns_query_server salt server reverse_name result_len =
     (if server = 0 then return None
      else do {
        t \<leftarrow> ext (Os OSGetTime);
        let qid = word_of_int (r_ret t) XOR salt;
        (case ptr_query qid reverse_name of None \<Rightarrow> return None
         | Some (query, n) \<Rightarrow> do {
             d \<leftarrow> ptr_exchange query n server;
             (case d of None \<Rightarrow> return None
              | Some p \<Rightarrow> return (ptr_response qid p (length p) result_len)) }) })"

fun decimal :: "nat \<Rightarrow> bytes" where
  "decimal n = (if n < 10 then [48 + of_nat n] else decimal (n div 10) @ [48 + of_nat (n mod 10)])"

declare decimal.simps [simp del]

definition reverse_name :: "bytes \<Rightarrow> bytes" where
  "reverse_name b = join_dots [decimal (unat (b ! 3)), decimal (unat (b ! 2)), decimal (unat (b ! 1)),
     decimal (unat (b ! 0)), ascii ''in-addr'', ascii ''arpa'']"

definition dns_server :: "nat \<Rightarrow> ('z drv_scheme, u32) state" where
  "dns_server i = do {
     ext (Lwip Lock_tcpip_core);
     r \<leftarrow> dns (Dns_getserver i);
     ext (Lwip Unlock_tcpip_core);
     return (if r_ret r \<noteq> 0 then r_val r else 0) }"

fun ptr_try :: "u16 \<Rightarrow> bytes \<Rightarrow> nat \<Rightarrow> nat list \<Rightarrow> ('z shim_scheme, bytes option) state" where
  "ptr_try salt name result_len [] = return None"
| "ptr_try salt name result_len (i # is) = do {
     server \<leftarrow> dns_server i;
     if server = 0 then ptr_try salt name result_len is
     else do {
       r \<leftarrow> ptr_dns_query_server salt server name result_len;
       (case r of Some n \<Rightarrow> return (Some n) | None \<Rightarrow> ptr_try salt name result_len is) } }"

definition ptr_dns_lookup_ipv4 :: "u16 \<Rightarrow> bytes \<Rightarrow> nat \<Rightarrow> ('z shim_scheme, bytes option) state" where
  "ptr_dns_lookup_ipv4 salt addr result_len =
     (if length (reverse_name addr) \<ge> 64 then return None
      else ptr_try salt (reverse_name addr) result_len [0, 1])"

text \<open>The host name of the \<open>struct hostent\<close> returned, None for NULL; a native result is the
  pointer nsysnet returned. That the name lies in a static array, which the next call overwrites,
  is not modelled.\<close>

definition my_gethostbyaddr ::
  "u16 \<Rightarrow> bytes option \<Rightarrow> u32 \<Rightarrow> int \<Rightarrow> ('z dns_scheme, int + bytes option) state" where
  "my_gethostbyaddr salt addr len type = do {
     ours \<leftarrow> gets dns_ours;
     if \<not> ours then do { r \<leftarrow> nsd (Real_gethostbyaddr addr len type); return (Inl (r_ret r)) }
     else (case addr of None \<Rightarrow> return (Inr None)
       | Some a \<Rightarrow>
           if len \<noteq> 4 \<or> type \<noteq> NSN_AF_INET then return (Inr None)
           else do {
             saved_errno \<leftarrow> gets errno;
             saved_h_errno \<leftarrow> gets h_errno;
             r \<leftarrow> ptr_dns_lookup_ipv4 salt a 256;
             modify (\<lambda>s. s\<lparr>h_errno := saved_h_errno, errno := saved_errno\<rparr>);
             return (Inr r) }) }"

section \<open>getaddrinfo\<close>

fun swap_first :: "u32 \<Rightarrow> u32 \<Rightarrow> u32 list \<Rightarrow> u32 list option" where
  "swap_first old new [] = None"
| "swap_first old new (x # xs) =
     (if x = old then Some (new # xs) else map_option (\<lambda>ys. x # ys) (swap_first old new xs))"

definition ai_remember :: "u32 \<Rightarrow> ('z dns_scheme, bool) state" where
  "ai_remember head = do {
     t \<leftarrow> gets (\<lambda>s. swap_first 0 head (ai_owned s));
     (case t of None \<Rightarrow> return False
      | Some xs \<Rightarrow> do { modify (\<lambda>s. s\<lparr>ai_owned := xs\<rparr>); return True }) }"

definition ai_is_ours :: "u32 \<Rightarrow> ('z dns_scheme, bool) state" where
  "ai_is_ours head =
     (if head = 0 then return False
      else do {
        t \<leftarrow> gets (\<lambda>s. swap_first head 0 (ai_owned s));
        (case t of None \<Rightarrow> return False
         | Some xs \<Rightarrow> do { modify (\<lambda>s. s\<lparr>ai_owned := xs\<rparr>); return True }) })"

definition eai_to_nsn :: "int \<Rightarrow> int" where
  "eai_to_nsn e = (if e = 200 then NSN_EAI_NONAME else if e = 201 then NSN_EAI_SERVICE
     else if e = 203 then NSN_EAI_MEMORY else if e = 204 then NSN_EAI_FAMILY else NSN_EAI_FAIL)"

definition ai_flags_to_lwip :: "int \<Rightarrow> int" where
  "ai_flags_to_lwip f =
     (if f AND 0x01 \<noteq> 0 then 0x01 else 0) OR (if f AND 0x02 \<noteq> 0 then 0x02 else 0) OR
     (if f AND 0x04 \<noteq> 0 then 0x04 else 0) OR (if f AND 0x08 \<noteq> 0 then 0x10 else 0) OR
     (if f AND 0x10 \<noteq> 0 then 0x20 else 0) OR (if f AND 0x20 \<noteq> 0 then 0x40 else 0)"

text \<open>One node in a fresh block at some address; \<open>garbage\<close> is what the block's length field held.\<close>

definition convert_ai :: "lw_addrinfo \<Rightarrow> u32 \<Rightarrow> nsn_addrinfo" where
  "convert_ai la garbage = (case sockaddr_to_nsn (Some nsn0) (Some garbage) (la_addr la) 16 of (a, n, _) \<Rightarrow>
     \<lparr>na_flags = la_flags la, na_family = la_family la, na_socktype = la_socktype la,
      na_protocol = la_protocol la, na_addrlen = the n, na_canonname = la_canonname la, na_addr = the a\<rparr>)"

definition ai_size :: "lw_addrinfo \<Rightarrow> nat" where
  "ai_size la = 32 + 16 + (case la_canonname la of None \<Rightarrow> 0 | Some n \<Rightarrow> length n + 1)"

text \<open>Convert the list; False when a block could not be allocated, with what was built so far.\<close>

fun build_ai :: "lw_addrinfo list \<Rightarrow> ('z drv_scheme, bool \<times> (u32 \<times> nsn_addrinfo) list) state" where
  "build_ai [] = return (True, [])"
| "build_ai (la # las) = do {
     r \<leftarrow> ext (Os (Os_malloc (ai_size la)));
     if r_val r = 0 then return (False, [])
     else do {
       (ok, rest) \<leftarrow> build_ai las;
       return (ok, (r_val r, convert_ai la (r_len r)) # rest) } }"

definition ai_head :: "(u32 \<times> nsn_addrinfo) list \<Rightarrow> u32" where
  "ai_head ais = (case ais of [] \<Rightarrow> 0 | (a, _) # _ \<Rightarrow> a)"

definition free_all :: "(u32 \<times> nsn_addrinfo) list \<Rightarrow> ('z drv_scheme, unit) state" where
  "free_all ais = for_each ais (\<lambda>(a, _). do { ext (Os (Os_free a)); return () })"

type_synonym ai_out = "int \<times> (u32 \<times> nsn_addrinfo) list"

definition finish_ai :: "bool \<times> (u32 \<times> nsn_addrinfo) list \<Rightarrow> ('z dns_scheme, ai_out) state" where
  "finish_ai built = (case built of (ok, ais) \<Rightarrow> do {
     kept \<leftarrow> (if ok then ai_remember (ai_head ais) else return False);
     dns Lwip_freeaddrinfo;
     if kept then return (0, ais)
     else do { free_all ais; return (NSN_EAI_MEMORY, []) } })"

text \<open>\<open>*res\<close> is the list returned; \<open>res\<close> says whether the pointer \<open>res\<close> is not NULL.\<close>

definition shim_getaddrinfo_sync ::
  "bytes option \<Rightarrow> bytes option \<Rightarrow> ai_hints option \<Rightarrow> bool \<Rightarrow> ('z dns_scheme, ai_out) state" where
  "shim_getaddrinfo_sync node service hints res =
     (if \<not> res then return (NSN_EAI_FAIL, [])
      else do {
        r \<leftarrow> dns (Lwip_getaddrinfo (dns_rewrite_name node) service
               (map_option (\<lambda>h. h\<lparr>h_flags := ai_flags_to_lwip (h_flags h)\<rparr>) hints));
        if r_ret r \<noteq> 0 then return (eai_to_nsn (r_ret r), [])
        else do { b \<leftarrow> build_ai (r_ais r); finish_ai b } })"

definition native_ai :: "nsd_call \<Rightarrow> ('z drv_scheme, ai_out) state" where
  "native_ai c = do { r \<leftarrow> nsd c; return (r_ret r, r_nais r) }"

definition my_getaddrinfo :: "bytes option \<Rightarrow> bytes option \<Rightarrow> ai_hints option \<Rightarrow> bool \<Rightarrow> ('z dns_scheme, ai_out) state" where
  "my_getaddrinfo node service hints res = do {
     ours \<leftarrow> gets dns_ours;
     if \<not> ours then native_ai (Real_getaddrinfo node service hints res)
     else shim_getaddrinfo_sync node service hints res }"

definition my_getaddrinfo_rs :: "bytes option \<Rightarrow> bytes option \<Rightarrow> ai_hints option \<Rightarrow> bool \<Rightarrow> ('z dns_scheme, ai_out) state" where
  "my_getaddrinfo_rs node service hints res = do {
     ours \<leftarrow> gets dns_ours;
     if \<not> ours then native_ai (Real_getaddrinfo_rs node service hints res)
     else shim_getaddrinfo_sync node service hints res }"

definition my_freeaddrinfo :: "(u32 \<times> nsn_addrinfo) list \<Rightarrow> ('z dns_scheme, unit) state" where
  "my_freeaddrinfo res = do {
     mine \<leftarrow> ai_is_ours (ai_head res);
     if \<not> mine then do { nsd (Real_freeaddrinfo (ai_head res)); return () }
     else free_all res }"

section \<open>Asynchronous getaddrinfo\<close>

definition async_dns_new_ticket :: "('z dns_scheme, u32) state" where
  "async_dns_new_ticket = do {
     c \<leftarrow> gets async_dns_ticket_counter;
     modify (\<lambda>s. s\<lparr>async_dns_ticket_counter := c + 1\<rparr>);
     let t = c AND 0x0fffffff;
     return (if t = 0 then 1 else t) }"

fun find_slot :: "bytes \<Rightarrow> nat \<Rightarrow> async_dns_slot list \<Rightarrow> nat option" where
  "find_slot name i [] = None"
| "find_slot name i (x # xs) =
     (if as_state x \<noteq> ASYNC_DNS_FREE \<and> as_state x \<noteq> ASYNC_DNS_CLAIMED \<and> as_name x = name then Some i
      else find_slot name (Suc i) xs)"

fun free_slot_from :: "nat \<Rightarrow> async_dns_slot list \<Rightarrow> nat option" where
  "free_slot_from i [] = None"
| "free_slot_from i (x # xs) = (if as_state x = ASYNC_DNS_FREE then Some i else free_slot_from (Suc i) xs)"

definition async_dns_find_locked :: "bytes \<Rightarrow> 'z dns_scheme \<Rightarrow> nat option" where
  "async_dns_find_locked name s = find_slot name 0 (async_dns_slots s)"

definition token_of :: "u32 \<Rightarrow> nat \<Rightarrow> u32" where
  "token_of ticket i = push_bit 4 ticket OR of_nat (i + 1)"

definition async_dns_claim_locked :: "bytes \<Rightarrow> ('z dns_scheme, (nat \<times> u32) option) state" where
  "async_dns_claim_locked name =
     (if length name \<ge> DNS_MAX_NAME_LENGTH + 1 then return None
      else do {
        f \<leftarrow> gets (\<lambda>s. free_slot_from 0 (async_dns_slots s));
        (case f of None \<Rightarrow> return None
         | Some i \<Rightarrow> do {
             t \<leftarrow> async_dns_new_ticket;
             modify (\<lambda>s. s\<lparr>async_dns_slots := (async_dns_slots s)[i := \<lparr>as_state = ASYNC_DNS_PENDING, as_ticket = t, as_name = name\<rparr>]\<rparr>);
             return (Some (i, token_of t i)) }) })"

definition free_async :: "nat \<Rightarrow> 'z dns_scheme \<Rightarrow> 'z dns_scheme" where
  "free_async i s = s\<lparr>async_dns_slots := (async_dns_slots s)[i := (async_dns_slots s ! i)\<lparr>as_state := ASYNC_DNS_FREE, as_ticket := 0\<rparr>]\<rparr>"

definition async_dns_release_if_ticket :: "nat \<Rightarrow> u32 \<Rightarrow> ('z dns_scheme, unit) state" where
  "async_dns_release_if_ticket slot ticket = do {
     t \<leftarrow> gets (\<lambda>s. as_ticket (async_dns_slots s ! slot));
     whenM (slot < 8 \<and> t = ticket) (modify (free_async slot)) }"

text \<open>lwIP's callback: \<open>found\<close> is whether it was given an address.\<close>

definition async_dns_found :: "bool \<Rightarrow> u32 \<Rightarrow> ('z dns_scheme, unit) state" where
  "async_dns_found found token = (let raw_index = unat (token AND 0xf); slot = raw_index - 1; ticket = drop_bit 4 token in
     if raw_index = 0 \<or> raw_index > 8 then return ()
     else do {
       x \<leftarrow> gets (\<lambda>s. async_dns_slots s ! slot);
       if as_ticket x \<noteq> ticket then return ()
       else whenM (as_state x = ASYNC_DNS_PENDING)
              (modify (\<lambda>s. s\<lparr>async_dns_slots := (async_dns_slots s)[slot :=
                 x\<lparr>as_state := (if found then ASYNC_DNS_READY else ASYNC_DNS_FAILED)\<rparr>]\<rparr>)) })"

definition async_dns_raw_error_to_nsn :: "int \<Rightarrow> int" where
  "async_dns_raw_error_to_nsn err = (if err = ERR_MEM then NSN_EAI_MEMORY else NSN_EAI_FAIL)"

definition async_poll ::
  "nat \<Rightarrow> bytes option \<Rightarrow> bytes option \<Rightarrow> ai_hints option \<Rightarrow> bool \<Rightarrow> ('z dns_scheme, ai_out) state" where
  "async_poll slot node service hints res = do {
     st \<leftarrow> gets (\<lambda>s. as_state (async_dns_slots s ! slot));
     if st = ASYNC_DNS_PENDING then return (NSN_EAI_INPROGRESS, [])
     else do {
       modify (free_async slot);
       if st = ASYNC_DNS_FAILED then return (NSN_EAI_NONAME, [])
       else shim_getaddrinfo_sync node service hints res } }"

definition async_start ::
  "bytes \<Rightarrow> bytes option \<Rightarrow> bytes option \<Rightarrow> ai_hints option \<Rightarrow> bool \<Rightarrow> ('z dns_scheme, ai_out) state" where
  "async_start name node service hints res = do {
     c \<leftarrow> async_dns_claim_locked name;
     (case c of None \<Rightarrow> return (NSN_EAI_MEMORY, [])
      | Some (slot, token) \<Rightarrow> do {
          ext (Lwip Lock_tcpip_core);
          r \<leftarrow> dns (Dns_gethostbyname name token);
          ext (Lwip Unlock_tcpip_core);
          if r_ret r = ERR_INPROGRESS then return (NSN_EAI_INPROGRESS, [])
          else do {
            async_dns_release_if_ticket slot (drop_bit 4 token);
            if r_ret r = ERR_OK then shim_getaddrinfo_sync node service hints res
            else return (async_dns_raw_error_to_nsn (r_ret r), []) } }) }"

definition shim_getaddrinfo_async ::
  "bytes option \<Rightarrow> bytes option \<Rightarrow> ai_hints option \<Rightarrow> bool \<Rightarrow> ('z dns_scheme, ai_out) state" where
  "shim_getaddrinfo_async node service hints res = (if \<not> res then return (NSN_EAI_FAIL, [])
   else case dns_rewrite_name node of
     None \<Rightarrow> shim_getaddrinfo_sync node service hints res
   | Some name \<Rightarrow>
       if name = [] then return (NSN_EAI_NONAME, [])
       else do {
         existing \<leftarrow> gets (async_dns_find_locked name);
         (case existing of Some i \<Rightarrow> async_poll i node service hints res
          | None \<Rightarrow> async_start name node service hints res) })"

definition my_getaddrinfo_async :: "bytes option \<Rightarrow> bytes option \<Rightarrow> ai_hints option \<Rightarrow> bool \<Rightarrow> ('z dns_scheme, ai_out) state" where
  "my_getaddrinfo_async node service hints res = do {
     ours \<leftarrow> gets dns_ours;
     if \<not> ours then native_ai (Real_getaddrinfo_async node service hints res)
     else shim_getaddrinfo_async node service hints res }"

definition my_getaddrinfo_async_rs :: "bytes option \<Rightarrow> bytes option \<Rightarrow> ai_hints option \<Rightarrow> bool \<Rightarrow> ('z dns_scheme, ai_out) state" where
  "my_getaddrinfo_async_rs node service hints res = do {
     ours \<leftarrow> gets dns_ours;
     if \<not> ours then native_ai (Real_getaddrinfo_async_rs node service hints res)
     else shim_getaddrinfo_async node service hints res }"

definition async_dns_reset_all :: "('z dns_scheme, unit) state" where
  "async_dns_reset_all = modify (\<lambda>s. s\<lparr>async_dns_slots :=
     map (\<lambda>x. \<lparr>as_state = ASYNC_DNS_FREE, as_ticket = 0, as_name = []\<rparr>) (async_dns_slots s)\<rparr>)"

definition my_dns_abort_by_hname :: "bytes option \<Rightarrow> ('z dns_scheme, int) state" where
  "my_dns_abort_by_hname hostname = do {
     ours \<leftarrow> gets dns_ours;
     if \<not> ours then do { r \<leftarrow> nsd (Real_dns_abort_by_hname hostname); return (r_ret r) }
     else return 0 }"

section \<open>Names of addresses and errors\<close>

definition dotted :: "u32 \<Rightarrow> bytes" where
  "dotted ip = join_dots (map (\<lambda>b. decimal (unat b)) (be32_bytes ip))"

text \<open>\<open>hostlen\<close> and \<open>servlen\<close> are None where the buffer is NULL; the texts written are returned.\<close>

definition my_getnameinfo ::
  "nsn_sockaddr option \<Rightarrow> u32 \<Rightarrow> u32 option \<Rightarrow> u32 option \<Rightarrow> int \<Rightarrow>
     ('z dns_scheme, int \<times> bytes option \<times> bytes option) state" where
  "my_getnameinfo addr addrlen hostlen servlen flags = do {
     accepts \<leftarrow> gets shim_accepts;
     if \<not> accepts then do {
       r \<leftarrow> nsd (Real_getnameinfo addr addrlen hostlen servlen flags);
       return (r_ret r, map_option (\<lambda>_. r_data r) hostlen, map_option (\<lambda>_. r_extra r) servlen) }
     else if addrlen < 16 then return (NSN_EAI_FAMILY, None, None)
     else (case addr of None \<Rightarrow> return (NSN_EAI_FAMILY, None, None)
       | Some a \<Rightarrow>
           if nsn_family a \<noteq> 2 then return (NSN_EAI_FAMILY, None, None)
           else if flags AND 4 \<noteq> 0 then return (NSN_EAI_NONAME, None, None)
           else let host = dotted (nsn_addr a); serv = decimal (unat (nsn_ntohs (nsn_port a))) in
             if (case hostlen of None \<Rightarrow> False | Some n \<Rightarrow> length host \<ge> unat n)
             then return (12, map_option (\<lambda>n. take (unat n - 1) host) hostlen, None)
             else if (case servlen of None \<Rightarrow> False | Some n \<Rightarrow> length serv \<ge> unat n)
             then return (12, map_option (\<lambda>_. host) hostlen, map_option (\<lambda>n. take (unat n - 1) serv) servlen)
             else return (0, map_option (\<lambda>_. host) hostlen, map_option (\<lambda>_. serv) servlen)) }"

definition my_get_h_errno :: "('z dns_scheme, int) state" where
  "my_get_h_errno = do {
     accepts \<leftarrow> gets shim_accepts;
     if \<not> accepts then do { r \<leftarrow> nsd Real_get_h_errno; return (r_ret r) } else gets h_errno }"

definition gai_text :: "int \<Rightarrow> string" where
  "gai_text e =
     (if e = 0 then ''success'' else if e = 1 then ''address family not supported''
      else if e = 2 then ''temporary failure in name resolution'' else if e = 3 then ''invalid flags''
      else if e = 4 then ''non-recoverable failure in name resolution''
      else if e = 5 then ''address family not supported'' else if e = 6 then ''out of memory''
      else if e = 7 then ''no address associated with name'' else if e = 8 then ''name or service not known''
      else if e = 9 then ''service not supported for socket type''
      else if e = 10 then ''socket type not supported'' else if e = 11 then ''system error''
      else if e = 12 then ''invalid hints'' else if e = 13 then ''unsupported protocol''
      else if e = 14 then ''buffer overflow'' else ''unknown error'')"

definition my_gai_strerror :: "int \<Rightarrow> ('z dns_scheme, bytes) state" where
  "my_gai_strerror e = do {
     accepts \<leftarrow> gets shim_accepts;
     if \<not> accepts then do { r \<leftarrow> nsd (Real_gai_strerror e); return (r_data r) }
     else return (ascii (gai_text e)) }"

lemmas [runs] =
  dns_def [THEN run_cong] nsd_def [THEN run_cong] my_gethostbyname_def [THEN run_cong]
  ptr_exchange_def [THEN run_cong] ptr_dns_query_server_def [THEN run_cong] dns_server_def [THEN run_cong]
  ptr_dns_lookup_ipv4_def [THEN run_cong] my_gethostbyaddr_def [THEN run_cong]
  ai_remember_def [THEN run_cong] ai_is_ours_def [THEN run_cong] free_all_def [THEN run_cong]
  finish_ai_def [THEN run_cong] shim_getaddrinfo_sync_def [THEN run_cong] native_ai_def [THEN run_cong]
  my_getaddrinfo_def [THEN run_cong] my_getaddrinfo_rs_def [THEN run_cong] my_freeaddrinfo_def [THEN run_cong]
  async_dns_new_ticket_def [THEN run_cong] async_dns_claim_locked_def [THEN run_cong]
  async_dns_release_if_ticket_def [THEN run_cong] async_dns_found_def [THEN run_cong]
  async_poll_def [THEN run_cong] async_start_def [THEN run_cong] shim_getaddrinfo_async_def [THEN run_cong]
  my_getaddrinfo_async_def [THEN run_cong] my_getaddrinfo_async_rs_def [THEN run_cong]
  async_dns_reset_all_def [THEN run_cong] my_dns_abort_by_hname_def [THEN run_cong]
  my_getnameinfo_def [THEN run_cong] my_get_h_errno_def [THEN run_cong] my_gai_strerror_def [THEN run_cong]

end
