(* ===== verification/Dns_Props.thy ===== *)
theory Dns_Props
  imports Shim_Dns
begin

text \<open>
  Properties of the shim's name resolution: who frees an address list.
\<close>

section \<open>Address lists\<close>

text \<open>The blocks allocated and freed in a stretch of calls.\<close>

definition frees :: "(u32 \<times> nsn_addrinfo) list \<Rightarrow> call list" where
  "frees ais = map (\<lambda>(a, _). Os (Os_free a)) ais"

lemma run_free_all: "run_state (free_all ais) s = ((), s\<lparr>trace := trace s @ frees ais\<rparr>)"
  unfolding free_all_def frees_def by (induction ais arbitrary: s) auto

lemma swap_first_back:
  assumes "swap_first a b xs = Some ys" and "b \<notin> set xs"
  shows "swap_first b a ys = Some xs"
  using assms by (induction xs arbitrary: ys) (auto split: if_splits)

lemma swap_first_None: "swap_first a b xs = None \<longleftrightarrow> a \<notin> set xs"
  by (induction xs) auto

lemma run_ai_is_ours:
  "run_state (ai_is_ours h) s =
     (case (if h = 0 then None else swap_first h 0 (ai_owned s)) of
        None \<Rightarrow> (False, s) | Some xs \<Rightarrow> (True, s\<lparr>ai_owned := xs\<rparr>))"
  by (simp add: runs split: option.split)

lemma run_ai_remember:
  "run_state (ai_remember h) s = (case swap_first 0 h (ai_owned s) of
     None \<Rightarrow> (False, s) | Some xs \<Rightarrow> (True, s\<lparr>ai_owned := xs\<rparr>))"
  by (simp add: runs split: option.split)

text \<open>Every block \<open>build_ai\<close> allocates is in the list it returns.\<close>

fun block_of :: "resp \<Rightarrow> call \<Rightarrow> u32 list" where
  "block_of r (Os (Os_malloc n)) = (if r_val r = 0 then [] else [r_val r])"
| "block_of r c = []"

abbreviation blocks :: "(call list \<Rightarrow> call \<Rightarrow> resp) \<Rightarrow> call list \<Rightarrow> call list \<Rightarrow> u32 list" where
  "blocks \<equiv> collect block_of"

lemma blocks_frees [simp]: "blocks e h (frees ais) = []"
  by (induction ais arbitrary: h) (auto simp: frees_def)

lemma build_ai_blocks:
  "run_state (build_ai las) s = ((ok, ais), t) \<Longrightarrow>
     \<exists>cs. t = s\<lparr>trace := trace s @ cs\<rparr> \<and> blocks (env s) (trace s) cs = map fst ais"
proof (induction las arbitrary: s ok ais t)
  case Nil
  then show ?case by (auto intro!: exI [of _ "[]"])
next
  case (Cons la las)
  let ?c = "Os (Os_malloc (ai_size la))" and ?a = "r_val (env s (trace s) (Os (Os_malloc (ai_size la))))"
  let ?s = "s\<lparr>trace := trace s @ [Os (Os_malloc (ai_size la))]\<rparr>"
  show ?case
  proof (cases "?a = 0")
    case True
    with Cons.prems show ?thesis by (auto intro!: exI [of _ "[?c]"])
  next
    case False
    obtain ok' rest u where r: "run_state (build_ai las) ?s = ((ok', rest), u)" by (metis prod.exhaust)
    from Cons.IH [OF this] obtain cs where cs: "u = ?s\<lparr>trace := trace ?s @ cs\<rparr>"
        "blocks (env s) (trace s @ [?c]) cs = map fst rest" by auto
    with Cons.prems r False show ?thesis by (auto intro!: exI [of _ "?c # cs"])
  qed
qed

text \<open>What \<open>finish_ai\<close> and \<open>shim_getaddrinfo_sync\<close> do, by their result.\<close>

lemma finish_result:
  assumes "run_state (finish_ai (ok, ais)) s = ((e, out), t)"
  shows "env t = env s \<and>
    (e = 0 \<and> out = ais \<and> swap_first 0 (ai_head ais) (ai_owned s) = Some (ai_owned t) \<and>
       trace t = trace s @ [Dns Lwip_freeaddrinfo] \<or>
     e = NSN_EAI_MEMORY \<and> out = [] \<and> ai_owned t = ai_owned s \<and>
       trace t = trace s @ [Dns Lwip_freeaddrinfo] @ frees ais)"
  using assms
  by (cases ok; cases "swap_first 0 (ai_head ais) (ai_owned s)")
     (auto simp: finish_ai_def run_ai_remember run_free_all dns_def)

definition sync_ok :: "'z dns_scheme \<Rightarrow> int \<Rightarrow> (u32 \<times> nsn_addrinfo) list \<Rightarrow> 'z dns_scheme \<Rightarrow> bool" where
  "sync_ok s e ais t \<longleftrightarrow> (\<exists>cs. trace t = trace s @ cs \<and> env t = env s \<and>
     (if e = 0 then blocks (env s) (trace s) cs = map fst ais \<and>
        swap_first 0 (ai_head ais) (ai_owned s) = Some (ai_owned t)
      else ais = [] \<and> ai_owned t = ai_owned s \<and>
        (\<exists>cs' xs. cs = cs' @ frees xs \<and> blocks (env s) (trace s) cs = map fst xs)))"

lemma sync_okI:
  assumes "trace t = trace s @ cs" and "env t = env s" and "blocks (env s) (trace s) cs = map fst ais"
    and "swap_first 0 (ai_head ais) (ai_owned s) = Some (ai_owned t)"
  shows "sync_ok s 0 ais t"
  unfolding sync_ok_def using assms by auto

lemma sync_errI:
  assumes "trace t = trace s @ cs @ frees xs" and "env t = env s"
    and "blocks (env s) (trace s) cs = map fst xs" and "ai_owned t = ai_owned s" and "e \<noteq> 0"
  shows "sync_ok s e [] t"
  unfolding sync_ok_def
proof (intro exI conjI)
  show "trace t = trace s @ (cs @ frees xs)" using assms by simp
qed (use assms in \<open>auto simp: collect_append\<close>)

lemma eai_nonzero: "eai_to_nsn e \<noteq> 0"
  by (simp add: eai_to_nsn_def)

definition ai_query :: "bytes option \<Rightarrow> bytes option \<Rightarrow> ai_hints option \<Rightarrow> call" where
  "ai_query node service hints = Dns (Lwip_getaddrinfo (dns_rewrite_name node) service
     (map_option (\<lambda>h. h\<lparr>h_flags := ai_flags_to_lwip (h_flags h)\<rparr>) hints))"

lemma block_of_query [simp]: "block_of r (ai_query node service hints) = []"
  by (simp add: ai_query_def)

lemma run_sync:
  "run_state (shim_getaddrinfo_sync node service hints True) s =
     (let r = env s (trace s) (ai_query node service hints); u = s\<lparr>trace := trace s @ [ai_query node service hints]\<rparr> in
      if r_ret r \<noteq> 0 then ((eai_to_nsn (r_ret r), []), u)
      else (case run_state (build_ai (r_ais r)) u of (b, v) \<Rightarrow> run_state (finish_ai b) v))"
  unfolding shim_getaddrinfo_sync_def dns_def ai_query_def [symmetric] run_bind run_state_ext Let_def prod.case run_if
  by (simp only: run_state_return not_True_eq_False if_False)
lemma sync_result:
  assumes "run_state (shim_getaddrinfo_sync node service hints True) s = ((e, ais), t)"
  shows "sync_ok s e ais t"
proof -
  let ?c = "ai_query node service hints"
  let ?r = "env s (trace s) ?c" and ?s = "s\<lparr>trace := trace s @ [?c]\<rparr>"
  show ?thesis
  proof (cases "r_ret ?r = 0")
    case False
    have "run_state (shim_getaddrinfo_sync node service hints True) s = ((eai_to_nsn (r_ret ?r), []), ?s)"
      using False by (simp add: run_sync)
    with assms have eq: "e = eai_to_nsn (r_ret ?r)" "ais = []" "t = ?s" by simp_all
    show ?thesis
      unfolding eq by (rule sync_errI [where cs = "[?c]" and xs = "[]"]) (simp_all add: eai_nonzero frees_def)
  next
    case True
    obtain ok xs u where b: "run_state (build_ai (r_ais ?r)) ?s = ((ok, xs), u)" by (metis prod.exhaust)
    from build_ai_blocks [OF b] obtain cs where u: "u = ?s\<lparr>trace := trace ?s @ cs\<rparr>"
        "blocks (env s) (trace s @ [?c]) cs = map fst xs" by auto
    have f: "run_state (finish_ai (ok, xs)) u = ((e, ais), t)"
      unfolding assms [symmetric] using True b by (simp add: run_sync)
    let ?cs = "?c # cs @ [Dns Lwip_freeaddrinfo]"
    have bl: "blocks (env s) (trace s) ?cs = map fst xs" using u(2) by (simp)
    from finish_result [OF f] show ?thesis
    proof (elim conjE disjE)
      assume "e = 0" "ais = xs" "env t = env u" "swap_first 0 (ai_head xs) (ai_owned u) = Some (ai_owned t)"
        "trace t = trace u @ [Dns Lwip_freeaddrinfo]"
      then show ?thesis using u(1) bl by (simp add: sync_okI [where cs = ?cs])
    next
      assume "e = NSN_EAI_MEMORY" "ais = []" "env t = env u" "ai_owned t = ai_owned u"
        "trace t = trace u @ [Dns Lwip_freeaddrinfo] @ frees xs"
      then show ?thesis using u(1) bl by (simp add: sync_errI [where cs = ?cs and xs = xs])
    qed
  qed
qed

lemma blocks_nonzero: "0 \<notin> set (blocks e h cs)"
proof (induction cs arbitrary: h)
  case (Cons c cs)
  have "0 \<notin> set (block_of (e h c) c)" by (induction "e h c" c rule: block_of.induct) auto
  with Cons.IH show ?case by simp
qed simp

lemma run_my_getaddrinfo:
  "dns_ours s \<Longrightarrow> run_state (my_getaddrinfo node service hints res) s = run_state (shim_getaddrinfo_sync node service hints res) s"
  by (simp add: my_getaddrinfo_def)

lemma run_freeaddrinfo:
  "run_state (my_freeaddrinfo ais) s = (case (if ai_head ais = 0 then None else swap_first (ai_head ais) 0 (ai_owned s)) of
     None \<Rightarrow> ((), s\<lparr>trace := trace s @ [Nsd (Real_freeaddrinfo (ai_head ais))]\<rparr>)
   | Some xs \<Rightarrow> ((), s\<lparr>ai_owned := xs, trace := trace s @ frees ais\<rparr>))"
  by (simp add: my_freeaddrinfo_def run_ai_is_ours run_free_all nsd_def split: option.split)


definition dns_init :: "(call list \<Rightarrow> call \<Rightarrow> resp) \<Rightarrow> dns" where
  "dns_init e = shim.extend ((shim_init e)\<lparr>initialized := True\<rparr>)
     (dns.fields 0 (replicate 8 0) (replicate 8 \<lparr>as_state = ASYNC_DNS_FREE, as_ticket = 0, as_name = []\<rparr>) 1)"

lemma dns_init_simps [simp]:
  "env (dns_init e) = e" "trace (dns_init e) = []" "ai_owned (dns_init e) = replicate 8 0"
  "async_dns_slots (dns_init e) = replicate 8 \<lparr>as_state = ASYNC_DNS_FREE, as_ticket = 0, as_name = []\<rparr>"
  "async_dns_ticket_counter (dns_init e) = 1" "dns_ours (dns_init e)" "dns_wf (dns_init e)"
  by (simp_all add: dns_init_def dns.defs shim.defs shim_init_def net_init_def net.defs dns_ours_def shim_accepts_def dns_wf_def)

definition la0 :: lw_addrinfo where
  "la0 = \<lparr>la_flags = 0, la_family = 2, la_socktype = 1, la_protocol = 6, la_addr = sin0, la_canonname = None\<rparr>"

definition ai_env :: "call list \<Rightarrow> call \<Rightarrow> resp" where
  "ai_env h c = (case c of Os (Os_malloc n) \<Rightarrow> resp0\<lparr>r_val := of_nat (length h)\<rparr>
     | Dns (Lwip_getaddrinfo n s hs) \<Rightarrow> resp0\<lparr>r_ret := 0, r_ais := [la0, la0]\<rparr> | _ \<Rightarrow> resp0)"


end
