(* ===== verification/Dns_Async.thy ===== *)
theory Dns_Async
  imports Dns_Props Slot_Pool
begin

text \<open>
  The asynchronous lookups: how one runs from its first call to its result, and why lwIP's callback
  for a lookup that is over cannot reach a later one.
\<close>

section \<open>Slots, tickets and tokens\<close>

lemma token_index:
  assumes "i < 8"
  shows "unat (token_of t i AND 0xf) = i + 1"
proof -
  have "token_of t i AND 0xf = of_nat (i + 1)"
  proof -
    have "push_bit 4 t AND mask 4 = 0" by (auto intro!: bit_word_eqI simp: bit_simps)
    moreover have "(of_nat (i + 1) :: u32) AND mask 4 = of_nat (i + 1)"
      using assms by (simp add: take_bit_eq_mask [symmetric] take_bit_of_nat flip: of_nat_Suc)
        (simp add: take_bit_nat_eq_self)
    ultimately show ?thesis
      by (simp add: token_of_def mask_eq_exp_minus_1 bit.conj_disj_distrib2)
  qed
  then show ?thesis using assms by (simp add: unat_of_nat take_bit_nat_eq_self flip: of_nat_Suc)
qed

lemma find_slot_Some:
  assumes "find_slot name k xs = Some i"
  shows "k \<le> i \<and> i < k + length xs \<and> as_name (xs ! (i - k)) = name \<and> as_state (xs ! (i - k)) \<noteq> ASYNC_DNS_FREE"
  using assms
proof (induction xs arbitrary: k)
  case (Cons x xs)
  then show ?case by (cases "i = k") (force simp: nth_Cons' split: if_splits)+
qed simp

lemma free_slot_from_Some:
  assumes "free_slot_from k xs = Some i"
  shows "k \<le> i \<and> i < k + length xs \<and> as_state (xs ! (i - k)) = ASYNC_DNS_FREE"
  using assms
proof (induction xs arbitrary: k)
  case (Cons x xs)
  then show ?case by (cases "i = k") (force simp: nth_Cons' split: if_splits)+
qed simp

lemma find_slot_claimed:
  assumes "find_slot name k xs = None" and "i < length xs" and "as_name x = name"
    and "as_state x \<noteq> ASYNC_DNS_FREE" "as_state x \<noteq> ASYNC_DNS_CLAIMED"
  shows "find_slot name k (xs[i := x]) = Some (k + i)"
  using assms
proof (induction xs arbitrary: k i)
  case (Cons y xs)
  then show ?case by (cases i) (auto split: if_splits)
qed simp

text \<open>The ticket the next claim gives.\<close>

definition next_ticket :: "'z dns_scheme \<Rightarrow> u32" where
  "next_ticket s = (let t = async_dns_ticket_counter s AND 0x0fffffff in if t = 0 then 1 else t)"

lemma run_claim:
  "run_state (async_dns_claim_locked name) s =
     (case (if length name \<ge> 257 then None else free_slot_from 0 (async_dns_slots s)) of
        None \<Rightarrow> (None, s)
      | Some i \<Rightarrow> (Some (i, token_of (next_ticket s) i),
          s\<lparr>async_dns_ticket_counter := async_dns_ticket_counter s + 1, async_dns_slots := (async_dns_slots s)[i :=
             \<lparr>as_state = ASYNC_DNS_PENDING, as_ticket = next_ticket s, as_name = name\<rparr>]\<rparr>))"
  by (simp add: async_dns_claim_locked_def async_dns_new_ticket_def next_ticket_def Let_def split: option.split)

text \<open>The eight lookups that can be under way, as a pool of slots.\<close>

definition busy_lookups :: "'z dns_scheme \<Rightarrow> nat set" where
  "busy_lookups s = {i. i < 8 \<and> as_state (async_dns_slots s ! i) \<noteq> ASYNC_DNS_FREE}"

definition lookup_claim :: "bytes \<Rightarrow> 'z dns_scheme \<Rightarrow> (nat \<times> 'z dns_scheme) option" where
  "lookup_claim name s = (case run_state (async_dns_claim_locked (take DNS_MAX_NAME_LENGTH name)) s of
     (r, t) \<Rightarrow> map_option (\<lambda>(i, token). (i, t)) r)"

lemma free_slot_from_None: "free_slot_from k xs = None \<Longrightarrow> i < length xs \<Longrightarrow> as_state (xs ! i) \<noteq> ASYNC_DNS_FREE"
proof (induction xs arbitrary: k i)
  case (Cons x xs)
  then show ?case by (cases i) (auto split: if_splits)
qed simp

interpretation lp: slot_pool dns_wf busy_lookups "lookup_claim name" free_async 8 for name
proof
  fix s t :: "'a dns_scheme" and i
  assume s: "dns_wf s"
  show "busy_lookups s \<subseteq> {..<8}" by (auto simp: busy_lookups_def)
  show "dns_wf t \<and> i < 8 \<and> i \<notin> busy_lookups s \<and> busy_lookups t = insert i (busy_lookups s)" if "lookup_claim name s = Some (i, t)"
  proof -
    have c: "free_slot_from 0 (async_dns_slots s) = Some i"
        "t = s\<lparr>async_dns_ticket_counter := async_dns_ticket_counter s + 1, async_dns_slots := (async_dns_slots s)[i :=
           \<lparr>as_state = ASYNC_DNS_PENDING, as_ticket = next_ticket s, as_name = take 256 name\<rparr>]\<rparr>"
      using that by (auto simp: lookup_claim_def run_claim split: option.splits if_splits)
    with free_slot_from_Some [OF c(1)] s show ?thesis
      by (auto simp: dns_wf_def busy_lookups_def nth_list_update)
  qed
  show "busy_lookups s = {..<8}" if "lookup_claim name s = None"
  proof -
    have "free_slot_from 0 (async_dns_slots s) = None"
      using that by (auto simp: lookup_claim_def run_claim min_def split: option.splits if_splits)
    from free_slot_from_None [OF this] s show ?thesis by (auto simp: busy_lookups_def dns_wf_def)
  qed
  show "dns_wf (free_async i s) \<and> busy_lookups (free_async i s) = busy_lookups s - {i}" if "i < 8"
    using that s by (auto simp: dns_wf_def busy_lookups_def free_async_def nth_list_update)
qed

text \<open>With no lookup under way eight can start, in slots of their own, and the ninth is refused; one
  that ends makes room for another.\<close>

lemma lookup_capacity:
  assumes "dns_wf s" and "busy_lookups s = {}" and "lp.claims name n s = (is, t)"
  shows "length is = min n 8 \<and> distinct is \<and> busy_lookups t = set is"
  using lp.claims_distinct [OF assms(1,3)] lp.claims_count [OF assms(1,3)] assms(2) by simp

lemma lookup_released:
  "dns_wf s \<Longrightarrow> i \<in> busy_lookups s \<Longrightarrow> \<exists>j t. lookup_claim name (free_async i s) = Some (j, t)"
  by (rule lp.released_again)

lemma token_ticket:
  assumes "i < 8" and "t AND 0x0fffffff = t"
  shows "drop_bit 4 (token_of t i) = t"
proof -
  have "unat (drop_bit 4 (of_nat (i + 1) :: u32)) = (i + 1) div 16"
    using assms(1) by (simp add: unat_div_distrib unat_of_nat take_bit_nat_eq_self drop_bit_eq_div del: of_nat_add of_nat_Suc)
  then have "drop_bit 4 (of_nat (i + 1) :: u32) = 0"
    using assms(1) by (simp only: unat_eq_0 [symmetric])
  moreover have "drop_bit 4 (push_bit 4 t) = t AND mask 28"
    by (auto intro!: bit_word_eqI simp: bit_simps)
  then have "drop_bit 4 (push_bit 4 t) = t" using assms(2) by (simp add: mask_eq_exp_minus_1)
  ultimately show ?thesis by (simp add: token_of_def drop_bit_or)
qed

lemma next_ticket_masked: "next_ticket s AND 0x0fffffff = next_ticket s"
  by (simp add: next_ticket_def Let_def and.assoc)

lemma run_found:
  assumes "i < 8" and "t AND 0x0fffffff = t"
  shows "run_state (async_dns_found b (token_of t i)) s =
    ((), if as_ticket (async_dns_slots s ! i) = t \<and> as_state (async_dns_slots s ! i) = ASYNC_DNS_PENDING
         then s\<lparr>async_dns_slots := (async_dns_slots s)[i := (async_dns_slots s ! i)\<lparr>as_state :=
           (if b then ASYNC_DNS_READY else ASYNC_DNS_FAILED)\<rparr>]\<rparr> else s)"
  by (simp add: async_dns_found_def Let_def token_index [OF assms(1)] token_ticket [OF assms] assms(1) runs)
    (use assms in auto)

lemma dns_ours_slots [simp]:
  "dns_ours (s\<lparr>async_dns_slots := x\<rparr>) = dns_ours s" "dns_ours (s\<lparr>async_dns_ticket_counter := y\<rparr>) = dns_ours s"
  "dns_ours (s\<lparr>trace := z\<rparr>) = dns_ours s"
  by (simp_all add: dns_ours_def shim_accepts_def)

lemma run_async_find:
  assumes "dns_ours s" and "dns_rewrite_name node = Some name" and "name \<noteq> []"
  shows "run_state (my_getaddrinfo_async node service hints True) s =
    (case find_slot name 0 (async_dns_slots s) of
       Some i \<Rightarrow> run_state (async_poll i node service hints True) s
     | None \<Rightarrow> run_state (async_start name node service hints True) s)"
  using assms
  by (simp add: my_getaddrinfo_async_def shim_getaddrinfo_async_def async_dns_find_locked_def split: option.split)

text \<open>C26. An asynchronous lookup runs as nsysnet's does: once lwIP has taken the query, every call
  answers EAI_INPROGRESS and asks lwIP nothing, until lwIP's callback; then a failed lookup gives
  EAI_NONAME, a successful one the result of the synchronous lookup, and in both cases the slot is
  free again.\<close>

theorem async_lookup_cycle:
  assumes wf: "dns_wf s" and ours: "dns_ours s" and node: "dns_rewrite_name node = Some name" "name \<noteq> []" "length name \<le> 256"
    and new: "async_dns_find_locked name s = None" and room: "free_slot_from 0 (async_dns_slots s) = Some i"
    and tok: "token = token_of (next_ticket s) i"
    and taken: "r_ret (env s (trace s @ [Lwip Lock_tcpip_core]) (Dns (Dns_gethostbyname name token))) = ERR_INPROGRESS"
    and run: "run_state (my_getaddrinfo_async node service hints True) s = (res, t)"
  shows "res = (NSN_EAI_INPROGRESS, []) \<and>
    run_state (my_getaddrinfo_async node service hints True) t = ((NSN_EAI_INPROGRESS, []), t) \<and>
    (let u = snd (run_state (async_dns_found False token) t) in
       run_state (my_getaddrinfo_async node service hints True) u = ((NSN_EAI_NONAME, []), free_async i u)) \<and>
    (let u = snd (run_state (async_dns_found True token) t) in
       run_state (my_getaddrinfo_async node service hints True) u =
         run_state (shim_getaddrinfo_sync node service hints True) (free_async i u))"
proof -
  let ?x = "\<lparr>as_state = ASYNC_DNS_PENDING, as_ticket = next_ticket s, as_name = name\<rparr>"
  have i: "i < 8" using free_slot_from_Some [OF room] wf by (simp add: dns_wf_def)
  have "find_slot name 0 (async_dns_slots s) = None" using new by (simp add: async_dns_find_locked_def)
  then have st: "res = (NSN_EAI_INPROGRESS, []) \<and> async_dns_slots t = (async_dns_slots s)[i := ?x] \<and> dns_ours t"
    using run taken room node(3) ours tok
    by (auto simp: run_async_find [OF ours node(1,2)] async_start_def run_claim dns_def)
  have f: "find_slot name 0 ((async_dns_slots s)[i := x]) = Some i"
    if "as_name x = name" "as_state x \<noteq> ASYNC_DNS_FREE" "as_state x \<noteq> ASYNC_DNS_CLAIMED" for x
    using find_slot_claimed [OF \<open>find_slot name 0 _ = None\<close> _ that, of i] i wf by (simp add: dns_wf_def)
  have l: "length (async_dns_slots s) = 8" using wf by (simp add: dns_wf_def)
  note run_t = run_async_find [OF _ node(1,2)] st async_poll_def
  show ?thesis
    unfolding tok run_found [OF i next_ticket_masked] Let_def
    using st i by (simp add: run_t f l)
qed

definition async_env :: "call list \<Rightarrow> call \<Rightarrow> resp" where
  "async_env h c = (case c of Dns (Dns_gethostbyname n t) \<Rightarrow> resp0\<lparr>r_ret := - 5\<rparr> | _ \<Rightarrow> resp0)"

theorem async_lookup_cycle_witness:
  "fst (run_state (my_getaddrinfo_async (Some [97]) None None True) (dns_init async_env)) = (15, [])"
proof -
  let ?r = "run_state (my_getaddrinfo_async (Some [97]) None None True) (dns_init async_env)"
  have "dns_rewrite_name (Some [97]) = Some [97]" by (simp add: dns_rewrite_name_def ascii_def)
  moreover have "free_slot_from 0 (async_dns_slots (dns_init async_env)) = Some 0"
    "async_dns_find_locked [97] (dns_init async_env) = None"
    by (simp_all add: numeral_eq_Suc async_dns_find_locked_def)
  ultimately show ?thesis
    using async_lookup_cycle [of "dns_init async_env" "Some [97]" "[97]" 0 _ None None "fst ?r" "snd ?r", OF _ _ _ _ _ _ _ refl]
    by (simp add: async_env_def)
qed

section \<open>Histories of lookups\<close>

text \<open>What may happen to the table of lookups: a call of a title, a callback of lwIP with any
  token, and the reset at a title's start.\<close>

datatype async_op =
    Lookup "bytes option" "bytes option" "ai_hints option" bool
  | Found bool u32
  | Reset_all

fun async_step :: "async_op \<Rightarrow> ('z dns_scheme, unit) state" where
  "async_step (Lookup node service hints res) = do { my_getaddrinfo_async node service hints res; return () }"
| "async_step (Found found token) = async_dns_found found token"
| "async_step Reset_all = async_dns_reset_all"

definition after_ops :: "async_op list \<Rightarrow> 'z dns_scheme \<Rightarrow> 'z dns_scheme" where
  "after_ops ops s = snd (run_state (for_each ops async_step) s)"

lemma after_ops_append: "after_ops (as @ bs) s = after_ops bs (after_ops as s)"
  by (induction as arbitrary: s) (simp_all add: after_ops_def case_prod_beta)

definition lookups :: "'z dns_scheme \<Rightarrow> async_dns_slot list \<times> u32" where
  "lookups s = (async_dns_slots s, async_dns_ticket_counter s)"

lemma lookups_ext [preserves]: "preserves lookups (ext c)"
  by (simp add: preserves_def lookups_def)

lemma lookups_calls [preserves]: "preserves lookups (dns c)" "preserves lookups (nsd d)"
  by (simp_all add: dns_def nsd_def preserves)

lemma lookups_owned [preserves]: "preserves lookups (ai_remember h)"
  by (simp add: preserves_def run_ai_remember lookups_def split: option.split)

lemma lookups_build [preserves]: "preserves lookups (build_ai las)"
  by (induction las) (auto intro!: preserves)

lemma lookups_free_all [preserves]: "preserves lookups (free_all ais)"
  unfolding free_all_def by (intro preserves)

lemma lookups_sync [preserves]: "preserves lookups (shim_getaddrinfo_sync node service hints res)"
  unfolding shim_getaddrinfo_sync_def finish_ai_def by (intro preserves)

lemma lookups_native [preserves]: "preserves lookups (native_ai c)"
  unfolding native_ai_def by (intro preserves)

text \<open>Slot \<open>i\<close> no longer carries ticket \<open>t\<close>, and the next \<open>n\<close> tickets cannot repeat it. With
  \<open>i = 8\<close> only the latter is said.\<close>

definition over :: "nat \<Rightarrow> u32 \<Rightarrow> nat \<Rightarrow> async_dns_slot list \<times> u32 \<Rightarrow> bool" where
  "over i t n = (\<lambda>(xs, c). length xs = 8 \<and> (i < 8 \<longrightarrow> as_ticket (xs ! i) \<noteq> t) \<and> t \<noteq> 0 \<and> unat t < unat c \<and> unat c + n \<le> 2 ^ 28)"

lemma over_mono: "over i t n l \<Longrightarrow> m \<le> n \<Longrightarrow> over i t m l"
  by (auto simp: over_def)

lemma over_upd:
  "over i t n (xs, c) \<Longrightarrow> as_ticket x \<noteq> t \<Longrightarrow> unat t < unat c' \<Longrightarrow> unat c' + m \<le> 2 ^ 28 \<Longrightarrow> over i t m (xs[j := x], c')"
  by (cases "i = j") (simp_all add: over_def)

lemma over_free: "over i t n (lookups s) \<Longrightarrow> over i t n (lookups (free_async j s))"
  by (simp add: lookups_def free_async_def) (rule over_upd, assumption, auto simp: over_def)

lemma over_state: "over i t n (xs, c) \<Longrightarrow> over i t n (xs[j := (xs ! j)\<lparr>as_state := st\<rparr>], c)"
  by (cases "i = j") (simp_all add: over_def)

lemma next_ticket_small:
  assumes "0 < async_dns_ticket_counter s" and "unat (async_dns_ticket_counter s) < 2 ^ 28"
  shows "next_ticket s = async_dns_ticket_counter s"
proof -
  have "async_dns_ticket_counter s AND 0x0fffffff = take_bit 28 (async_dns_ticket_counter s)"
    by (simp add: take_bit_eq_mask mask_eq_exp_minus_1)
  also have "\<dots> = async_dns_ticket_counter s"
    using assms(2) by (intro word_unat_eq_iff [THEN iffD2]) (simp add: unsigned_take_bit_eq take_bit_nat_eq_self)
  finally show ?thesis using assms(1) by (simp add: next_ticket_def Let_def)
qed

lemma over_claim:
  assumes "over i t (Suc n) (lookups s)" and "run_state (async_dns_claim_locked name) s = (r, u)"
  shows "over i t n (lookups u)"
proof -
  let ?c = "async_dns_ticket_counter s"
  have c: "unat t < unat ?c" "unat ?c + Suc n \<le> 2 ^ 28" using assms(1) by (auto simp: over_def lookups_def)
  then have nt: "next_ticket s = ?c" by (intro next_ticket_small) (auto simp: word_less_nat_alt)
  have "?c \<noteq> t" using c(1) by auto
  moreover have "unat (?c + 1) = unat ?c + 1" using c(2) by (simp add: unat_word_ariths)
  ultimately show ?thesis
    using assms c over_mono [OF assms(1), of n]
    by (auto simp: run_claim nt lookups_def intro!: over_upd [OF assms(1) [unfolded lookups_def]] split: option.splits if_splits)
qed

lemma wp_over_sync: "over i t n (lookups s) \<Longrightarrow> wp (shim_getaddrinfo_sync node service hints res) (\<lambda>_ u. over i t n (lookups u)) s"
  by (rule wp_preserves [OF lookups_sync]) simp

lemma wp_over_release: "over i t n (lookups s) \<Longrightarrow> wp (async_dns_release_if_ticket j k) (\<lambda>_ u. over i t n (lookups u)) s"
  by (simp add: async_dns_release_if_ticket_def wp over_free)

lemma wp_over_start:
  assumes "over i t (Suc n) (lookups s)"
  shows "wp (async_start name node service hints res) (\<lambda>_ u. over i t n (lookups u)) s"
  unfolding async_start_def
proof (rule wp_bind_I [where R = "\<lambda>_ u. over i t n (lookups u)"])
  show "wp (async_dns_claim_locked name) (\<lambda>_ u. over i t n (lookups u)) s"
    using over_claim [OF assms] by (auto simp: wp_def split: prod.split)
  fix x u
  assume *: "over i t n (lookups (u :: 'a dns_scheme))"
  have "over i t n (lookups (u\<lparr>trace := h\<rparr>))" for h using * by (simp add: lookups_def)
  then show "wp (case x of None \<Rightarrow> return (NSN_EAI_MEMORY, []) | Some (slot, token) \<Rightarrow> do {
          ext (Lwip Lock_tcpip_core);
          r \<leftarrow> dns (Dns_gethostbyname name token);
          ext (Lwip Unlock_tcpip_core);
          if r_ret r = ERR_INPROGRESS then return (NSN_EAI_INPROGRESS, [])
          else do {
            async_dns_release_if_ticket slot (drop_bit 4 token);
            if r_ret r = ERR_OK then shim_getaddrinfo_sync node service hints res
            else return (async_dns_raw_error_to_nsn (r_ret r), []) } }) (\<lambda>_ u. over i t n (lookups u)) u"
    using *
    by (cases x) (auto simp: wp dns_def intro!: wp_mono [OF wp_over_release] wp_over_sync)
qed

lemma wp_over_step:
  assumes "over i t (Suc n) (lookups s)"
  shows "wp (async_step op) (\<lambda>_ u. over i t n (lookups u)) s"
proof (cases op)
  case (Lookup node service hints res)
  have o: "over i t n (lookups s)" by (rule over_mono [OF assms]) simp
  have nat: "wp (native_ai c) (\<lambda>_ u. over i t n (lookups u)) s" for c
    by (rule wp_preserves [OF lookups_native]) (simp add: o)
  have poll: "wp (async_poll j node service hints res) (\<lambda>_ u. over i t n (lookups u)) s" for j
    using o by (simp add: async_poll_def wp over_free wp_over_sync)
  show ?thesis
    using nat poll wp_over_start [OF assms] wp_over_sync [OF o] o
    by (cases res) (simp_all add: Lookup my_getaddrinfo_async_def shim_getaddrinfo_async_def wp split: option.split)
next
  case (Found b token)
  have "over i t n (lookups s)" by (rule over_mono [OF assms]) simp
  then show ?thesis
    by (simp add: Found async_dns_found_def Let_def wp lookups_def over_state)
next
  case Reset_all
  then show ?thesis
    using assms by (auto simp: async_dns_reset_all_def wp over_def lookups_def)
qed

lemma over_ops:
  "over i t (length ops + n) (lookups s) \<Longrightarrow> over i t n (lookups (after_ops ops s))"
proof (induction ops arbitrary: s)
  case Nil
  then show ?case by (simp add: after_ops_def)
next
  case (Cons op ops)
  have "over i t (length ops + n) (lookups (snd (run_state (async_step op) s)))"
    using wp_over_step [of i t "length ops + n" s op] Cons.prems by (simp add: wp_run_state)
  from Cons.IH [OF this] show ?case by (simp add: after_ops_def case_prod_beta)
qed



end
