(* ===== verification/Dns_Reverse.thy ===== *)
theory Dns_Reverse
  imports Dns_Props
begin

text \<open>
  The reverse lookup keeps its hands clean: a small logic of the sockets a program still owes, the
  bound on the name returned, and the property that follows.
\<close>

section \<open>Sockets owed\<close>

text \<open>The descriptors lwIP opened and those it was told to close in a stretch of calls.\<close>

fun opened_by :: "resp \<Rightarrow> call \<Rightarrow> int list" where
  "opened_by r (Sock (Lwip_socket d t p)) = (if r_ret r < 0 then [] else [r_ret r])"
| "opened_by r c = []"

fun closed_by :: "call \<Rightarrow> int list" where
  "closed_by (Sock (Lwip_close fd)) = [fd]"
| "closed_by c = []"

abbreviation opened :: "(call list \<Rightarrow> call \<Rightarrow> resp) \<Rightarrow> call list \<Rightarrow> call list \<Rightarrow> int list" where
  "opened \<equiv> collect opened_by"

definition closed :: "call list \<Rightarrow> int list" where
  "closed cs = concat (map closed_by cs)"

fun local_call :: "call \<Rightarrow> bool" where
  "local_call (Nsn c) = False"
| "local_call (Nsd c) = False"
| "local_call c = True"

lemma closed_simps [simp]: "closed [] = []" "closed (c # cs) = closed_by c @ closed cs" "closed (cs @ ds) = closed cs @ closed ds"
  by (simp_all add: closed_def)

text \<open>\<open>settles fds m\<close>: \<open>m\<close> closes \<open>fds\<close> and then exactly the descriptors it opens, in order; it
  changes nothing but errno and calls nothing of nsysnet.\<close>

definition settles :: "int list \<Rightarrow> ('z dns_scheme, 'a) state \<Rightarrow> bool" where
  "settles fds m \<longleftrightarrow> (\<forall>s. \<exists>cs e. snd (run_state m s) = s\<lparr>trace := trace s @ cs, errno := e\<rparr> \<and>
     fds @ opened (env s) (trace s) cs = closed cs \<and> list_all local_call cs)"

named_theorems settles "introduction rules for settles"

lemma settlesE:
  assumes "settles fds m"
  obtains cs e where "snd (run_state m s) = s\<lparr>trace := trace s @ cs, errno := e\<rparr>"
    "fds @ opened (env s) (trace s) cs = closed cs" "list_all local_call cs"
  using assms unfolding settles_def by blast

lemma settlesI:
  assumes "\<And>s. snd (run_state m s) = s\<lparr>trace := trace s @ cs s, errno := e s\<rparr>"
    and "\<And>s. fds @ opened (env s) (trace s) (cs s) = closed (cs s)" and "\<And>s. list_all local_call (cs s)"
  shows "settles fds m"
  unfolding settles_def using assms by blast

lemma settles_return [settles]: "settles [] (return x)"
  by (rule settlesI [where cs = "\<lambda>_. []" and e = errno]) simp_all

lemma settles_gets [settles]: "settles [] (gets f)"
  by (rule settlesI [where cs = "\<lambda>_. []" and e = errno]) simp_all

lemma settles_ext [settles]:
  "closed_by c = [] \<Longrightarrow> (\<And>r. opened_by r c = []) \<Longrightarrow> local_call c \<Longrightarrow> settles [] (ext c)"
  by (rule settlesI [where cs = "\<lambda>_. [c]" and e = errno]) simp_all

lemma run_sock:
  "run_state (sock c) s = (env s (trace s) (Sock c),
     s\<lparr>trace := trace s @ [Sock c], errno := (case r_errno (env s (trace s) (Sock c)) of None \<Rightarrow> errno s | Some e \<Rightarrow> e)\<rparr>)"
  by (simp add: sock_def set_errno_def split: option.split)

text \<open>A descriptor opened is owed by what follows.\<close>

lemma settles_socket:
  assumes "\<And>r. r_ret r < 0 \<Longrightarrow> settles [] (f r)" and "\<And>r. \<not> r_ret r < 0 \<Longrightarrow> settles [r_ret r] (f r)"
  shows "settles [] (State_Monad.bind (sock (Lwip_socket d t p)) f)"
  unfolding settles_def
proof
  fix s :: "'a dns_scheme"
  let ?c = "Sock (Lwip_socket d t p)" and ?m = "State_Monad.bind (sock (Lwip_socket d t p)) f"
  let ?r = "env s (trace s) ?c" and ?u = "snd (run_state (sock (Lwip_socket d t p)) s)"
  let ?fds = "if r_ret ?r < 0 then [] else [r_ret ?r]"
  have "settles ?fds (f ?r)" using assms by simp
  then obtain ds e where ds: "snd (run_state (f ?r) ?u) = ?u\<lparr>trace := trace ?u @ ds, errno := e\<rparr>"
      "?fds @ opened (env ?u) (trace ?u) ds = closed ds" "list_all local_call ds"
    by (rule settlesE)
  show "\<exists>cs e. snd (run_state ?m s) = s\<lparr>trace := trace s @ cs, errno := e\<rparr> \<and>
      [] @ opened (env s) (trace s) cs = closed cs \<and> list_all local_call cs"
    by (rule exI [of _ "?c # ds"], rule exI [of _ e]) (use ds in \<open>simp add: run_sock\<close>)
qed

text \<open>What closes the debt, and what leaves it to the rest.\<close>

lemma settles_bind [settles]:
  assumes "settles fds m" and "\<And>x. settles [] (f x)"
  shows "settles fds (State_Monad.bind m f)"
  unfolding settles_def
proof
  fix s :: "'a dns_scheme"
  let ?x = "fst (run_state m s)" and ?u = "snd (run_state m s)"
  obtain cs e where cs: "?u = s\<lparr>trace := trace s @ cs, errno := e\<rparr>"
      "fds @ opened (env s) (trace s) cs = closed cs" "list_all local_call cs"
    using assms(1) by (rule settlesE)
  obtain ds e' where ds: "snd (run_state (f ?x) ?u) = ?u\<lparr>trace := trace ?u @ ds, errno := e'\<rparr>"
      "[] @ opened (env ?u) (trace ?u) ds = closed ds" "list_all local_call ds"
    using assms(2) by (rule settlesE)
  show "\<exists>cs e. snd (run_state (State_Monad.bind m f) s) = s\<lparr>trace := trace s @ cs, errno := e\<rparr> \<and>
      fds @ opened (env s) (trace s) cs = closed cs \<and> list_all local_call cs"
    by (rule exI [of _ "cs @ ds"], rule exI [of _ e']) (use cs ds in \<open>simp add: case_prod_beta\<close>)
qed

lemma settles_sock_bind:
  assumes "\<And>x. settles fds (f x)" and "closed_by (Sock c) = []" and "\<And>r. opened_by r (Sock c) = []"
  shows "settles fds (State_Monad.bind (sock c) f)"
  unfolding settles_def
proof
  fix s :: "'a dns_scheme"
  let ?x = "fst (run_state (sock c) s)" and ?u = "snd (run_state (sock c) s)"
  obtain ds e where ds: "snd (run_state (f ?x) ?u) = ?u\<lparr>trace := trace ?u @ ds, errno := e\<rparr>"
      "fds @ opened (env ?u) (trace ?u) ds = closed ds" "list_all local_call ds"
    using assms(1) by (rule settlesE)
  show "\<exists>cs e. snd (run_state (State_Monad.bind (sock c) f) s) = s\<lparr>trace := trace s @ cs, errno := e\<rparr> \<and>
      fds @ opened (env s) (trace s) cs = closed cs \<and> list_all local_call cs"
    by (rule exI [of _ "Sock c # ds"], rule exI [of _ e]) (use assms(2,3) ds in \<open>simp add: run_sock\<close>)
qed

lemma settles_close: "settles [fd] (sock (Lwip_close fd))"
  by (rule settlesI [where cs = "\<lambda>_. [Sock (Lwip_close fd)]" and
        e = "\<lambda>s. case r_errno (env s (trace s) (Sock (Lwip_close fd))) of None \<Rightarrow> errno s | Some e \<Rightarrow> e"])
     (simp_all add: run_sock)

lemma settles_if [settles]: "(b \<Longrightarrow> settles fds m) \<Longrightarrow> (\<not> b \<Longrightarrow> settles fds n) \<Longrightarrow> settles fds (if b then m else n)"
  by simp

lemma settles_let [settles]: "settles fds (f e) \<Longrightarrow> settles fds (let x = e in f x)"
  by simp

lemma settles_case_option [settles]:
  "settles fds m \<Longrightarrow> (\<And>x. settles fds (f x)) \<Longrightarrow> settles fds (case z of None \<Rightarrow> m | Some x \<Rightarrow> f x)"
  by (cases z) simp_all

lemma settles_case_prod [settles]: "(\<And>a b. settles fds (f a b)) \<Longrightarrow> settles fds (case z of (a, b) \<Rightarrow> f a b)"
  by (cases z) simp

lemma settles_dns [settles]: "settles [] (dns c)"
  unfolding dns_def by (intro settles) simp_all

lemma settles_exchange [settles]: "settles [] (ptr_exchange query n server)"
  unfolding ptr_exchange_def Let_def
  by (intro settles_socket; intro settles_if settles_return settles_sock_bind settles_bind [OF settles_close])
     (simp_all add: settles)

lemma settles_query [settles]: "settles [] (ptr_dns_query_server salt server name n)"
  unfolding ptr_dns_query_server_def by (intro settles) simp_all

lemma settles_server [settles]: "settles [] (dns_server i)"
  unfolding dns_server_def by (intro settles) simp_all

lemma settles_try [settles]: "settles [] (ptr_try salt name n is)"
  by (induction "is") (auto intro!: settles)

lemma settles_lookup: "settles [] (ptr_dns_lookup_ipv4 salt addr n)"
  unfolding ptr_dns_lookup_ipv4_def by (intro settles)

definition fits :: "nat \<Rightarrow> bytes option \<Rightarrow> bool" where
  "fits n z \<longleftrightarrow> (case z of None \<Rightarrow> True | Some name \<Rightarrow> length name < n)"

lemma fits_None [simp]: "fits n None"
  by (simp add: fits_def)

lemma fits_response: "fits n (ptr_response qid p (length p) n)"
  by (auto simp: fits_def ptr_response_def Let_def split: if_splits option.splits dest: find_ptr_bound)

lemma fits_query: "returns (fits n) (ptr_dns_query_server salt server name n)"
  unfolding ptr_dns_query_server_def by (intro returns) (simp_all add: fits_response)

lemma fits_try: "returns (fits n) (ptr_try salt name n is)"
proof (induction "is")
  case (Cons i "is")
  then show ?case
    by (auto simp: fits_def intro!: returns returns_bind_res [OF fits_query])
qed (simp add: returns fits_def)

lemma fits_lookup: "returns (fits n) (ptr_dns_lookup_ipv4 salt addr n)"
  unfolding ptr_dns_lookup_ipv4_def by (intro returns fits_try) (simp add: fits_def)

text \<open>C28. The reverse lookup leaves no trace: whatever the DNS servers and the socket calls do,
  \<open>gethostbyaddr\<close> on the adapter's stack closes every socket it opens, in order, calls nothing of
  nsysnet, restores errno and leaves everything else, h_errno included, as it was; a name it
  returns fits its 256 bytes. Illegal arguments give NULL without a call.\<close>

theorem reverse_lookup_clean:
  assumes ours: "dns_ours s" and run: "run_state (my_gethostbyaddr salt addr len type) s = (r, t)"
  shows "\<exists>cs name. t = s\<lparr>trace := trace s @ cs\<rparr> \<and> opened (env s) (trace s) cs = closed cs \<and> list_all local_call cs \<and>
    r = Inr name \<and> (case name of None \<Rightarrow> True | Some n \<Rightarrow> length n < 256) \<and>
    (addr = None \<or> len \<noteq> 4 \<or> type \<noteq> NSN_AF_INET \<longrightarrow> cs = [] \<and> name = None)"
proof (cases "addr = None \<or> len \<noteq> 4 \<or> type \<noteq> NSN_AF_INET")
  case True
  then have "run_state (my_gethostbyaddr salt addr len type) s = (Inr None, s)"
    using ours by (auto simp: my_gethostbyaddr_def split: option.split)
  with run show ?thesis by (intro exI [of _ "[]"] exI [of _ None]) simp
next
  case False
  then obtain a where a: "addr = Some a" by auto
  let ?m = "ptr_dns_lookup_ipv4 salt a 256"
  obtain cs e where cs: "snd (run_state ?m s) = s\<lparr>trace := trace s @ cs, errno := e\<rparr>"
      "[] @ opened (env s) (trace s) cs = closed cs" "list_all local_call cs"
    using settles_lookup by (rule settlesE)
  have "fits 256 (fst (run_state ?m s))" by (rule returnsD [OF fits_lookup])
  moreover have "run_state (my_gethostbyaddr salt addr len type) s = (Inr (fst (run_state ?m s)), s\<lparr>trace := trace s @ cs\<rparr>)"
    using ours False cs(1) by (simp add: my_gethostbyaddr_def a case_prod_beta)
  ultimately show ?thesis
    using run cs False by (intro exI [of _ cs] exI [of _ "fst (run_state ?m s)"]) (simp add: fits_def a)
qed

theorem reverse_lookup_clean_witness:
  "\<exists>cs. trace (snd (run_state (my_gethostbyaddr 0 (Some [192, 168, 1, 1]) 4 2) (dns_init ai_env))) = cs \<and>
     opened ai_env [] cs = closed cs"
  using reverse_lookup_clean [of "dns_init ai_env" 0 "Some [192, 168, 1, 1]" 4 2, OF _ prod.collapse [symmetric]]
  by auto

end
