(* ===== verification/Pump.thy ===== *)
theory Pump
  imports Shim_State
begin

text \<open>
  A pump moves bytes both ways between a native socket and a socket of the adapter's stack, the
  core of the NSSL relay and of the Wiiload proxy of \<^verbatim>\<open>aroma_module/nsysnet_shim.c\<close>. Both keep the
  same data: two buffers with offset and length, and for each side whether it may still be read
  and whether it was shut down for writing. The four system calls of a round are here; the rounds
  themselves, which treat errors differently, are in \<open>Nssl_Relay\<close> and \<open>Wiiload_Proxy\<close>.

  The law of a pump, \<open>passes\<close>, relates its data before and after a stretch of calls: what was
  buffered and what was received since is, in order, what was sent since and what is buffered now.
\<close>

section \<open>Buffers\<close>

record pipe =
  p_buf :: bytes
  p_off :: nat
  p_len :: nat

definition pipe_data :: "pipe \<Rightarrow> bytes" where
  "pipe_data p = take (p_len p) (drop (p_off p) (p_buf p))"

definition pipe_advance :: "nat \<Rightarrow> pipe \<Rightarrow> pipe" where
  "pipe_advance n p = p\<lparr>p_off := (if p_len p - n = 0 then 0 else p_off p + n), p_len := p_len p - n\<rparr>"

definition pipe_load :: "nat \<Rightarrow> bytes \<Rightarrow> pipe \<Rightarrow> pipe" where
  "pipe_load n data p = p\<lparr>p_buf := memcpy_at 0 (take n data) (p_buf p), p_off := 0, p_len := n\<rparr>"

definition pipe_ok :: "nat \<Rightarrow> pipe \<Rightarrow> bool" where
  "pipe_ok sz p \<longleftrightarrow> length (p_buf p) = sz \<and> p_off p + p_len p \<le> sz"

lemma pipe_data_advance: "n \<le> p_len p \<Longrightarrow> pipe_data (pipe_advance n p) = drop n (pipe_data p)"
  by (auto simp: pipe_data_def pipe_advance_def drop_take add.commute)

lemma pipe_data_load: "length data = n \<Longrightarrow> pipe_data (pipe_load n data p) = data"
  by (simp add: pipe_data_def pipe_load_def memcpy_at_def)

lemma pipe_ok_advance: "pipe_ok sz p \<Longrightarrow> n \<le> p_len p \<Longrightarrow> pipe_ok sz (pipe_advance n p)"
  by (auto simp: pipe_ok_def pipe_advance_def)

lemma pipe_ok_load: "pipe_ok sz p \<Longrightarrow> length data = n \<Longrightarrow> n \<le> sz \<Longrightarrow> pipe_ok sz (pipe_load n data p)"
  by (simp add: pipe_ok_def pipe_load_def)

lemma pipe_data_empty: "p_len p = 0 \<Longrightarrow> pipe_data p = []"
  by (simp add: pipe_data_def)

lemma length_pipe_data: "pipe_ok sz p \<Longrightarrow> length (pipe_data p) = p_len p"
  by (auto simp: pipe_data_def pipe_ok_def min_def)

section \<open>The two sides\<close>

record pump =
  native_fd :: int
  ax_fd :: int
  native_rx_open :: bool
  ax_rx_open :: bool
  native_wr_shutdown :: bool
  ax_wr_shutdown :: bool
  to_native :: pipe
  to_ax :: pipe

abbreviation (input) "SHUT_WR \<equiv> (1 :: int)"
abbreviation (input) "SHUT_RDWR \<equiv> (2 :: int)"

definition ax_send :: "pump \<Rightarrow> ('z shim_scheme, int) state" where
  "ax_send p = do {
     set_errno 0;
     r \<leftarrow> sock (Lwip_send (ax_fd p) (pipe_data (to_ax p)) MSG_DONTWAIT);
     return (r_ret r) }"

definition native_send :: "pump \<Rightarrow> ('z shim_scheme, int) state" where
  "native_send p = do {
     r \<leftarrow> nsn (Real_send (native_fd p) (pipe_data (to_native p)) NSN_MSG_DONTWAIT);
     return (r_ret r) }"

definition ax_recv :: "nat \<Rightarrow> pump \<Rightarrow> ('z shim_scheme, int \<times> bytes) state" where
  "ax_recv sz p = do {
     set_errno 0;
     r \<leftarrow> sock (Lwip_recv (ax_fd p) (int sz) MSG_DONTWAIT);
     return (r_ret r, r_data r) }"

definition native_recv :: "nat \<Rightarrow> pump \<Rightarrow> ('z shim_scheme, int \<times> bytes) state" where
  "native_recv sz p = do {
     r \<leftarrow> nsn (Real_recv (native_fd p) (int sz) NSN_MSG_DONTWAIT);
     return (r_ret r, r_data r) }"

definition ax_shut :: "pump \<Rightarrow> ('z shim_scheme, unit) state" where
  "ax_shut p = do { sock (Lwip_shutdown (ax_fd p) SHUT_WR); return () }"

definition native_shut :: "pump \<Rightarrow> ('z shim_scheme, unit) state" where
  "native_shut p = do { nsn (Real_shutdown (native_fd p) SHUT_WR); return () }"

definition native_error :: "('z drv_scheme, int) state" where
  "native_error = do { r \<leftarrow> nsn Real_socketlasterr; return (r_ret r) }"

definition would_block :: "int \<Rightarrow> bool" where
  "would_block e \<longleftrightarrow> e = EWOULDBLOCK"

abbreviation (input) "NSN_ERR_WOULDBLOCK \<equiv> (6 :: int)"

definition nssl_native_would_block :: "('z drv_scheme, bool) state" where
  "nssl_native_would_block = do { e \<leftarrow> native_error; return (e = NSN_ERR_WOULDBLOCK) }"

definition nssl_native_peer_closed :: "int \<Rightarrow> bool" where
  "nssl_native_peer_closed e \<longleftrightarrow> e = 8 \<or> e = 9 \<or> e = 13"

text \<open>The outcome of a step: go on, with the pump and whether there was progress, or leave the
  loop.\<close>

datatype pump_out = Go pump bool | Leave pump

definition go :: "('s, pump_out) state \<Rightarrow> (pump \<Rightarrow> bool \<Rightarrow> ('s, pump_out) state) \<Rightarrow> ('s, pump_out) state" where
  "go m f = do { r \<leftarrow> m; case r of Go p b \<Rightarrow> f p b | Leave p \<Rightarrow> return (Leave p) }"

section \<open>The law\<close>

text \<open>The bytes received from and sent to each side in a stretch of calls.\<close>

fun native_in :: "int \<Rightarrow> resp \<Rightarrow> call \<Rightarrow> bytes" where
  "native_in own r (Nsn (Real_recv fd n flags)) = (if fd = own \<and> r_ret r > 0 then take (nat (r_ret r)) (r_data r) else [])"
| "native_in own r c = []"

fun ax_in :: "int \<Rightarrow> resp \<Rightarrow> call \<Rightarrow> bytes" where
  "ax_in own r (Sock (Lwip_recv fd n flags)) = (if fd = own \<and> r_ret r > 0 then take (nat (r_ret r)) (r_data r) else [])"
| "ax_in own r c = []"

fun native_out :: "int \<Rightarrow> resp \<Rightarrow> call \<Rightarrow> bytes" where
  "native_out own r (Nsn (Real_send fd data flags)) = (if fd = own \<and> r_ret r > 0 then take (nat (r_ret r)) data else [])"
| "native_out own r c = []"

fun ax_out :: "int \<Rightarrow> resp \<Rightarrow> call \<Rightarrow> bytes" where
  "ax_out own r (Sock (Lwip_send fd data flags)) = (if fd = own \<and> r_ret r > 0 then take (nat (r_ret r)) data else [])"
| "ax_out own r c = []"

lemmas flow_defs = native_in.simps ax_in.simps native_out.simps ax_out.simps

text \<open>What the documentation of \<open>send\<close> and \<open>recv\<close> promises: a count returned is at most the count
  asked for, and that many bytes were received.\<close>

definition io_ok :: "(call list \<Rightarrow> call \<Rightarrow> resp) \<Rightarrow> bool" where
  "io_ok e \<longleftrightarrow> (\<forall>h fd n data flags.
     (let r = e h (Sock (Lwip_recv fd n flags)) in r_ret r > 0 \<longrightarrow> r_ret r \<le> n \<and> length (r_data r) = nat (r_ret r)) \<and>
     (let r = e h (Nsn (Real_recv fd n flags)) in r_ret r > 0 \<longrightarrow> r_ret r \<le> n \<and> length (r_data r) = nat (r_ret r)) \<and>
     r_ret (e h (Sock (Lwip_send fd data flags))) \<le> int (length data) \<and>
     r_ret (e h (Nsn (Real_send fd data flags))) \<le> int (length data))"

text \<open>The buffers are inside their arrays, and a side shut down for writing has nothing left to
  come.\<close>

definition pump_ok :: "nat \<Rightarrow> pump \<Rightarrow> bool" where
  "pump_ok sz p \<longleftrightarrow> pipe_ok sz (to_native p) \<and> pipe_ok sz (to_ax p) \<and>
     (ax_wr_shutdown p \<longrightarrow> \<not> native_rx_open p \<and> p_len (to_ax p) = 0) \<and>
     (native_wr_shutdown p \<longrightarrow> \<not> ax_rx_open p \<and> p_len (to_native p) = 0)"

definition passes :: "(call list \<Rightarrow> call \<Rightarrow> resp) \<Rightarrow> call list \<Rightarrow> pump \<Rightarrow> call list \<Rightarrow> pump \<Rightarrow> bool" where
  "passes e h p cs q \<longleftrightarrow> native_fd q = native_fd p \<and> ax_fd q = ax_fd p \<and>
     pipe_data (to_ax p) @ collect (native_in (native_fd p)) e h cs = collect (ax_out (ax_fd p)) e h cs @ pipe_data (to_ax q) \<and>
     pipe_data (to_native p) @ collect (ax_in (ax_fd p)) e h cs = collect (native_out (native_fd p)) e h cs @ pipe_data (to_native q) \<and>
     (Sock (Lwip_shutdown (ax_fd p) SHUT_WR) \<in> set cs \<or> ax_wr_shutdown p \<longrightarrow> ax_wr_shutdown q) \<and>
     (Nsn (Real_shutdown (native_fd p) SHUT_WR) \<in> set cs \<or> native_wr_shutdown p \<longrightarrow> native_wr_shutdown q)"

text \<open>After leaving the loop only the order is promised: what was sent is the beginning of what
  was to be sent.\<close>

definition passes_some :: "(call list \<Rightarrow> call \<Rightarrow> resp) \<Rightarrow> call list \<Rightarrow> pump \<Rightarrow> call list \<Rightarrow> bool" where
  "passes_some e h p cs \<longleftrightarrow>
     (\<exists>x. pipe_data (to_ax p) @ collect (native_in (native_fd p)) e h cs = collect (ax_out (ax_fd p)) e h cs @ x) \<and>
     (\<exists>x. pipe_data (to_native p) @ collect (ax_in (ax_fd p)) e h cs = collect (native_out (native_fd p)) e h cs @ x)"

lemma passes_refl [simp]: "passes e h p [] p"
  by (simp add: passes_def)

lemma stream_trans: "a @ i = q @ b \<Longrightarrow> b @ j = r @ c \<Longrightarrow> a @ i @ j = (q @ r) @ c"
  by (metis append_assoc)

lemma passesD:
  assumes "passes e h p cs q"
  shows "native_fd q = native_fd p" and "ax_fd q = ax_fd p"
    and "pipe_data (to_ax p) @ collect (native_in (native_fd p)) e h cs = collect (ax_out (ax_fd p)) e h cs @ pipe_data (to_ax q)"
    and "pipe_data (to_native p) @ collect (ax_in (ax_fd p)) e h cs = collect (native_out (native_fd p)) e h cs @ pipe_data (to_native q)"
    and "Sock (Lwip_shutdown (ax_fd p) SHUT_WR) \<in> set cs \<or> ax_wr_shutdown p \<Longrightarrow> ax_wr_shutdown q"
    and "Nsn (Real_shutdown (native_fd p) SHUT_WR) \<in> set cs \<or> native_wr_shutdown p \<Longrightarrow> native_wr_shutdown q"
  using assms unfolding passes_def by blast+

lemma passes_trans:
  assumes "passes e h p cs q" and "passes e (h @ cs) q ds r"
  shows "passes e h p (cs @ ds) r"
proof -
  note pq = passesD [OF assms(1)] and qr = passesD [OF assms(2), unfolded passesD(1,2) [OF assms(1)]]
  show ?thesis
    unfolding passes_def collect_append
  proof (intro conjI impI)
    show "ax_wr_shutdown r" if "Sock (Lwip_shutdown (ax_fd p) SHUT_WR) \<in> set (cs @ ds) \<or> ax_wr_shutdown p"
      using that pq(5) qr(5) by auto
    show "native_wr_shutdown r" if "Nsn (Real_shutdown (native_fd p) SHUT_WR) \<in> set (cs @ ds) \<or> native_wr_shutdown p"
      using that pq(6) qr(6) by auto
  qed (rule qr(1,2) stream_trans [OF pq(3) qr(3)] stream_trans [OF pq(4) qr(4)])+
qed

lemma passes_some_trans:
  assumes "passes e h p cs q" and "passes_some e (h @ cs) q ds"
  shows "passes_some e h p (cs @ ds)"
proof -
  note pq = passesD [OF assms(1)]
  obtain x y where x: "pipe_data (to_ax q) @ collect (native_in (native_fd p)) e (h @ cs) ds = collect (ax_out (ax_fd p)) e (h @ cs) ds @ x"
    and y: "pipe_data (to_native q) @ collect (ax_in (ax_fd p)) e (h @ cs) ds = collect (native_out (native_fd p)) e (h @ cs) ds @ y"
    using assms(2) unfolding passes_some_def pq(1,2) by blast
  show ?thesis
    unfolding passes_some_def collect_append
    using stream_trans [OF pq(3) x] stream_trans [OF pq(4) y] by blast
qed

lemma passes_weaken: "passes e h p cs q \<Longrightarrow> passes_some e h p cs"
  unfolding passes_def passes_some_def by blast

section \<open>Programs that obey the law\<close>

definition conveyed :: "nat \<Rightarrow> pump \<Rightarrow> ('z shim_scheme) \<Rightarrow> pump_out \<Rightarrow> 'z shim_scheme \<Rightarrow> bool" where
  "conveyed sz p s r t \<longleftrightarrow> env t = env s \<and> (\<exists>cs. trace t = trace s @ cs \<and> (case r of
       Go q b \<Rightarrow> passes (env s) (trace s) p cs q \<and> pump_ok sz q
     | Leave q \<Rightarrow> passes_some (env s) (trace s) p cs \<and> native_fd q = native_fd p \<and> ax_fd q = ax_fd p))"

definition conveys :: "nat \<Rightarrow> pump \<Rightarrow> ('z shim_scheme, pump_out) state \<Rightarrow> bool" where
  "conveys sz p m \<longleftrightarrow> (\<forall>s. io_ok (env s) \<longrightarrow> pump_ok sz p \<longrightarrow> wp m (conveyed sz p s) s)"

named_theorems conveys "introduction rules for conveys"

lemma conveysD: "conveys sz p m \<Longrightarrow> io_ok (env s) \<Longrightarrow> pump_ok sz p \<Longrightarrow> wp m (conveyed sz p s) s"
  by (simp add: conveys_def)

lemma conveyed_trans:
  assumes "env t = env s" and "trace t = trace s @ cs" and "passes (env s) (trace s) p cs q" and "conveyed sz q t r u"
  shows "conveyed sz p s r u"
  using assms unfolding conveyed_def
  by (cases r) (auto intro: passes_trans passes_some_trans dest: passesD(1,2))

lemma conveyed_self: "trace t = trace s @ cs \<Longrightarrow> env t = env s \<Longrightarrow> passes (env s) (trace s) p cs q \<Longrightarrow> pump_ok sz q \<Longrightarrow> conveyed sz p s (Go q b) t"
  unfolding conveyed_def by auto

lemma conveys_return [conveys]: "conveys sz p (return (Go p b))"
  by (auto simp: conveys_def wp intro!: conveyed_self [where cs = "[]"])

lemma conveys_leave [conveys]: "native_fd q = native_fd p \<Longrightarrow> ax_fd q = ax_fd p \<Longrightarrow> conveys sz p (return (Leave q))"
  by (simp add: conveys_def wp conveyed_def passes_some_def)

lemma conveys_if [conveys]: "(b \<Longrightarrow> conveys sz p m) \<Longrightarrow> (\<not> b \<Longrightarrow> conveys sz p n) \<Longrightarrow> conveys sz p (if b then m else n)"
  by simp

lemma conveys_bind:
  assumes "\<And>s. io_ok (env s) \<Longrightarrow> pump_ok sz p \<Longrightarrow> wp m (\<lambda>x t. env t = env s \<and>
    (\<exists>cs q. trace t = trace s @ cs \<and> passes (env s) (trace s) p cs q \<and> pump_ok sz q \<and> conveys sz q (f x))) s"
  shows "conveys sz p (State_Monad.bind m f)"
  unfolding conveys_def
proof (intro allI impI)
  fix s :: "'a shim_scheme"
  assume s: "io_ok (env s)" "pump_ok sz p"
  show "wp (State_Monad.bind m f) (conveyed sz p s) s"
  proof (rule wp_bind_I [OF assms [OF s]])
    fix x and t :: "'a shim_scheme"
    assume "env t = env s \<and> (\<exists>cs q. trace t = trace s @ cs \<and> passes (env s) (trace s) p cs q \<and> pump_ok sz q \<and> conveys sz q (f x))"
    then obtain cs q where t: "env t = env s" "trace t = trace s @ cs" "passes (env s) (trace s) p cs q" "pump_ok sz q" "conveys sz q (f x)"
      by blast
    show "wp (f x) (conveyed sz p s) t"
      by (rule wp_mono [OF conveysD [OF t(5) _ t(4)]]) (use s t in \<open>auto intro: conveyed_trans\<close>)
  qed
qed

lemma conveys_go [conveys]:
  assumes "conveys sz p m" and "\<And>q b. conveys sz q (f q b)"
  shows "conveys sz p (go m f)"
  unfolding conveys_def go_def
proof (intro allI impI)
  fix s :: "'a shim_scheme"
  assume s: "io_ok (env s)" "pump_ok sz p"
  show "wp (do { r \<leftarrow> m; case r of Go p b \<Rightarrow> f p b | Leave p \<Rightarrow> return (Leave p) }) (conveyed sz p s) s"
  proof (rule wp_bind_I [OF conveysD [OF assms(1) s]])
    fix r t
    assume c: "conveyed sz p s r t"
    show "wp (case r of Go p b \<Rightarrow> f p b | Leave p \<Rightarrow> return (Leave p)) (conveyed sz p s) t"
    proof (cases r)
      case (Go q b)
      with c obtain cs where t: "env t = env s" "trace t = trace s @ cs" "passes (env s) (trace s) p cs q" "pump_ok sz q"
        by (auto simp: conveyed_def)
      have "wp (f q b) (conveyed sz p s) t"
        by (rule wp_mono [OF conveysD [OF assms(2) _ t(4)]]) (use s t in \<open>auto intro: conveyed_trans\<close>)
      then show ?thesis by (simp add: Go)
    qed (use c in \<open>simp add: wp\<close>)
  qed
qed

text \<open>Calls that move no data.\<close>

fun moves :: "call \<Rightarrow> bool" where
  "moves (Nsn (Real_recv fd n f)) = True" | "moves (Nsn (Real_send fd d f)) = True" | "moves (Nsn (Real_shutdown fd h)) = True"
| "moves (Sock (Lwip_recv fd n f)) = True" | "moves (Sock (Lwip_send fd d f)) = True" | "moves (Sock (Lwip_shutdown fd h)) = True"
| "moves c = False"

lemma not_moves: "\<not> moves c \<Longrightarrow> native_in fd r c = [] \<and> ax_in fd r c = [] \<and> native_out fd r c = [] \<and> ax_out fd r c = [] \<and>
  c \<noteq> Sock (Lwip_shutdown fd SHUT_WR) \<and> c \<noteq> Nsn (Real_shutdown fd SHUT_WR)"
  by (cases c rule: moves.cases) auto

lemma passes_quiet: "list_all (\<lambda>c. \<not> moves c) cs \<Longrightarrow> passes e h p cs p"
  unfolding passes_def list_all_iff
  using not_moves by (auto simp: collect_none)

definition quiet :: "('z shim_scheme, 'a) state \<Rightarrow> bool" where
  "quiet m \<longleftrightarrow> (\<forall>s. wp m (\<lambda>x t. env t = env s \<and> (\<exists>cs. trace t = trace s @ cs \<and> list_all (\<lambda>c. \<not> moves c) cs)) s)"

lemma conveys_quiet:
  assumes "quiet m" and "\<And>x. conveys sz p (f x)"
  shows "conveys sz p (State_Monad.bind m f)"
proof (rule conveys_bind)
  fix s :: "'a shim_scheme"
  assume p: "pump_ok sz p"
  have "wp m (\<lambda>x t. env t = env s \<and> (\<exists>cs. trace t = trace s @ cs \<and> list_all (\<lambda>c. \<not> moves c) cs)) s"
    using assms(1) by (simp add: quiet_def)
  then show "wp m (\<lambda>x t. env t = env s \<and>
      (\<exists>cs q. trace t = trace s @ cs \<and> passes (env s) (trace s) p cs q \<and> pump_ok sz q \<and> conveys sz q (f x))) s"
    by (rule wp_mono) (use p assms(2) passes_quiet in blast)
qed

named_theorems quiet "introduction rules for quiet"

lemma quiet_return [quiet]: "quiet (return x)"
  by (simp add: quiet_def wp)

lemma quiet_gets [quiet]: "quiet (gets f)"
  by (simp add: quiet_def wp)

lemma quiet_modify [quiet]: "(\<And>s. env (f s) = env s) \<Longrightarrow> (\<And>s. trace (f s) = trace s) \<Longrightarrow> quiet (modify f)"
  by (simp add: quiet_def wp)

lemma quiet_ext [quiet]: "\<not> moves c \<Longrightarrow> quiet (ext c)"
  by (simp add: quiet_def wp)

lemma quiet_bind [quiet]:
  assumes "quiet m" and "\<And>x. quiet (f x)"
  shows "quiet (State_Monad.bind m f)"
  unfolding quiet_def
proof
  fix s :: "'a shim_scheme"
  let ?Q = "\<lambda>x t. env t = env s \<and> (\<exists>cs. trace t = trace s @ cs \<and> list_all (\<lambda>c. \<not> moves c) cs)"
  have m: "wp m ?Q s" using assms(1) by (simp add: quiet_def)
  show "wp (State_Monad.bind m f) ?Q s"
  proof (rule wp_bind_I [OF m])
    fix x and t :: "'a shim_scheme"
    assume t: "?Q x t"
    have "wp (f x) (\<lambda>_ u. env u = env t \<and> (\<exists>cs. trace u = trace t @ cs \<and> list_all (\<lambda>c. \<not> moves c) cs)) t"
      using assms(2) by (simp add: quiet_def)
    then show "wp (f x) ?Q t" by (rule wp_mono) (use t in auto)
  qed
qed

lemma quiet_if [quiet]: "(b \<Longrightarrow> quiet m) \<Longrightarrow> (\<not> b \<Longrightarrow> quiet n) \<Longrightarrow> quiet (if b then m else n)"
  by simp

lemma quiet_whenM [quiet]: "(b \<Longrightarrow> quiet m) \<Longrightarrow> quiet (whenM b m)"
  by (simp add: whenM_def quiet_return)

lemma quiet_native_error [quiet]: "quiet native_error"
  unfolding native_error_def nsn_def by (intro quiet) simp

lemma quiet_would_block [quiet]: "quiet nssl_native_would_block"
  unfolding nssl_native_would_block_def by (intro quiet)

text \<open>The four transfers and the two shutdowns.\<close>

lemma conveys_one:
  assumes "\<And>s. wp m (\<lambda>x t. env t = env s \<and> trace t = trace s @ [c] \<and> x = g (env s (trace s) c)) s"
    and "\<And>e h. io_ok e \<Longrightarrow> pump_ok sz p \<Longrightarrow> \<exists>q. passes e h p [c] q \<and> pump_ok sz q \<and> conveys sz q (f (g (e h c)))"
  shows "conveys sz p (State_Monad.bind m f)"
proof (rule conveys_bind)
  fix s :: "'a shim_scheme"
  assume "io_ok (env s)" and "pump_ok sz p"
  from assms(2) [OF this] obtain q where "passes (env s) (trace s) p [c] q" "pump_ok sz q" "conveys sz q (f (g (env s (trace s) c)))"
    by blast
  then show "wp m (\<lambda>x t. env t = env s \<and>
      (\<exists>cs q. trace t = trace s @ cs \<and> passes (env s) (trace s) p cs q \<and> pump_ok sz q \<and> conveys sz q (f x))) s"
    by (intro wp_mono [OF assms(1)]) blast
qed

lemma conveys_ax_send:
  assumes "\<And>n. n \<le> 0 \<Longrightarrow> conveys sz p (f n)"
    and "\<And>n. 0 < n \<Longrightarrow> nat n \<le> p_len (to_ax p) \<Longrightarrow> conveys sz (p\<lparr>to_ax := pipe_advance (nat n) (to_ax p)\<rparr>) (f n)"
  shows "conveys sz p (State_Monad.bind (ax_send p) f)"
proof (rule conveys_one [where c = "Sock (Lwip_send (ax_fd p) (pipe_data (to_ax p)) MSG_DONTWAIT)" and g = r_ret])
  fix e :: "call list \<Rightarrow> call \<Rightarrow> resp" and h :: "call list"
  let ?c = "Sock (Lwip_send (ax_fd p) (pipe_data (to_ax p)) MSG_DONTWAIT)"
  let ?n = "r_ret (e h ?c)"
  let ?q = "if 0 < ?n then p\<lparr>to_ax := pipe_advance (nat ?n) (to_ax p)\<rparr> else p"
  assume io: "io_ok e" and p: "pump_ok sz p"
  have pk: "pipe_ok sz (to_ax p)" using p by (simp add: pump_ok_def)
  have "?n \<le> int (length (pipe_data (to_ax p)))" using io unfolding io_ok_def by blast
  then have n: "nat ?n \<le> p_len (to_ax p)" by (simp add: length_pipe_data [OF pk])
  have "passes e h p [?c] ?q" by (simp add: passes_def pipe_data_advance [OF n])
  moreover have "pump_ok sz ?q" using p n by (auto simp: pump_ok_def pipe_ok_advance) 
  moreover have "conveys sz ?q (f ?n)" using assms n by simp
  ultimately show "\<exists>q. passes e h p [?c] q \<and> pump_ok sz q \<and> conveys sz q (f ?n)" by blast
qed (auto simp: ax_send_def sock_def set_errno_def wp split: option.split)

lemma conveys_native_send:
  assumes "\<And>n. n \<le> 0 \<Longrightarrow> conveys sz p (f n)"
    and "\<And>n. 0 < n \<Longrightarrow> nat n \<le> p_len (to_native p) \<Longrightarrow> conveys sz (p\<lparr>to_native := pipe_advance (nat n) (to_native p)\<rparr>) (f n)"
  shows "conveys sz p (State_Monad.bind (native_send p) f)"
proof (rule conveys_one [where c = "Nsn (Real_send (native_fd p) (pipe_data (to_native p)) NSN_MSG_DONTWAIT)" and g = r_ret])
  fix e :: "call list \<Rightarrow> call \<Rightarrow> resp" and h :: "call list"
  let ?c = "Nsn (Real_send (native_fd p) (pipe_data (to_native p)) NSN_MSG_DONTWAIT)"
  let ?n = "r_ret (e h ?c)"
  let ?q = "if 0 < ?n then p\<lparr>to_native := pipe_advance (nat ?n) (to_native p)\<rparr> else p"
  assume io: "io_ok e" and p: "pump_ok sz p"
  have pk: "pipe_ok sz (to_native p)" using p by (simp add: pump_ok_def)
  have "?n \<le> int (length (pipe_data (to_native p)))" using io unfolding io_ok_def by blast
  then have n: "nat ?n \<le> p_len (to_native p)" by (simp add: length_pipe_data [OF pk])
  have "passes e h p [?c] ?q" by (simp add: passes_def pipe_data_advance [OF n])
  moreover have "pump_ok sz ?q" using p n by (auto simp: pump_ok_def pipe_ok_advance) 
  moreover have "conveys sz ?q (f ?n)" using assms n by simp
  ultimately show "\<exists>q. passes e h p [?c] q \<and> pump_ok sz q \<and> conveys sz q (f ?n)" by blast
qed (auto simp: native_send_def nsn_def wp)

lemma conveys_native_recv:
  assumes "p_len (to_ax p) = 0" and "native_rx_open p" and "\<And>n d. n \<le> 0 \<Longrightarrow> conveys sz p (f (n, d))"
    and "\<And>n d. 0 < n \<Longrightarrow> conveys sz (p\<lparr>to_ax := pipe_load (nat n) d (to_ax p)\<rparr>) (f (n, d))"
  shows "conveys sz p (State_Monad.bind (native_recv sz p) f)"
proof (rule conveys_one [where c = "Nsn (Real_recv (native_fd p) (int sz) NSN_MSG_DONTWAIT)" and g = "\<lambda>r. (r_ret r, r_data r)"])
  fix e :: "call list \<Rightarrow> call \<Rightarrow> resp" and h :: "call list"
  let ?c = "Nsn (Real_recv (native_fd p) (int sz) NSN_MSG_DONTWAIT)"
  let ?n = "r_ret (e h ?c)" and ?d = "r_data (e h ?c)"
  let ?q = "if 0 < ?n then p\<lparr>to_ax := pipe_load (nat ?n) ?d (to_ax p)\<rparr> else p"
  assume io: "io_ok e" and p: "pump_ok sz p"
  have n: "?n \<le> int sz \<and> length ?d = nat ?n" if "0 < ?n" using io that unfolding io_ok_def Let_def by blast
  have "passes e h p [?c] ?q" using n by (simp add: passes_def pipe_data_load pipe_data_empty [OF assms(1)])
  moreover have "pump_ok sz ?q" using p n assms(2) by (auto simp: pump_ok_def pipe_ok_load) 
  moreover have "conveys sz ?q (f (?n, ?d))" using assms(3,4) by simp
  ultimately show "\<exists>q. passes e h p [?c] q \<and> pump_ok sz q \<and> conveys sz q (f (?n, ?d))" by blast
qed (auto simp: native_recv_def nsn_def wp)

lemma conveys_ax_recv:
  assumes "p_len (to_native p) = 0" and "ax_rx_open p" and "\<And>n d. n \<le> 0 \<Longrightarrow> conveys sz p (f (n, d))"
    and "\<And>n d. 0 < n \<Longrightarrow> conveys sz (p\<lparr>to_native := pipe_load (nat n) d (to_native p)\<rparr>) (f (n, d))"
  shows "conveys sz p (State_Monad.bind (ax_recv sz p) f)"
proof (rule conveys_one [where c = "Sock (Lwip_recv (ax_fd p) (int sz) MSG_DONTWAIT)" and g = "\<lambda>r. (r_ret r, r_data r)"])
  fix e :: "call list \<Rightarrow> call \<Rightarrow> resp" and h :: "call list"
  let ?c = "Sock (Lwip_recv (ax_fd p) (int sz) MSG_DONTWAIT)"
  let ?n = "r_ret (e h ?c)" and ?d = "r_data (e h ?c)"
  let ?q = "if 0 < ?n then p\<lparr>to_native := pipe_load (nat ?n) ?d (to_native p)\<rparr> else p"
  assume io: "io_ok e" and p: "pump_ok sz p"
  have n: "?n \<le> int sz \<and> length ?d = nat ?n" if "0 < ?n" using io that unfolding io_ok_def Let_def by blast
  have "passes e h p [?c] ?q" using n by (simp add: passes_def pipe_data_load pipe_data_empty [OF assms(1)])
  moreover have "pump_ok sz ?q" using p n assms(2) by (auto simp: pump_ok_def pipe_ok_load) 
  moreover have "conveys sz ?q (f (?n, ?d))" using assms(3,4) by simp
  ultimately show "\<exists>q. passes e h p [?c] q \<and> pump_ok sz q \<and> conveys sz q (f (?n, ?d))" by blast
qed (auto simp: ax_recv_def sock_def set_errno_def wp split: option.split)

lemma conveys_ax_shut:
  assumes "\<not> native_rx_open p" and "p_len (to_ax p) = 0" and "conveys sz (p\<lparr>ax_wr_shutdown := True\<rparr>) (f ())"
  shows "conveys sz p (State_Monad.bind (ax_shut p) f)"
proof (rule conveys_one [where c = "Sock (Lwip_shutdown (ax_fd p) SHUT_WR)" and g = "\<lambda>r. ()"])
  fix e h
  assume "pump_ok sz p"
  then show "\<exists>q. passes e h p [Sock (Lwip_shutdown (ax_fd p) SHUT_WR)] q \<and> pump_ok sz q \<and> conveys sz q (f ())"
    using assms by (intro exI [of _ "p\<lparr>ax_wr_shutdown := True\<rparr>"]) (simp add: passes_def pump_ok_def)
qed (auto simp: ax_shut_def sock_def set_errno_def wp split: option.split)

lemma conveys_native_shut:
  assumes "\<not> ax_rx_open p" and "p_len (to_native p) = 0" and "conveys sz (p\<lparr>native_wr_shutdown := True\<rparr>) (f ())"
  shows "conveys sz p (State_Monad.bind (native_shut p) f)"
proof (rule conveys_one [where c = "Nsn (Real_shutdown (native_fd p) SHUT_WR)" and g = "\<lambda>r. ()"])
  fix e h
  assume "pump_ok sz p"
  then show "\<exists>q. passes e h p [Nsn (Real_shutdown (native_fd p) SHUT_WR)] q \<and> pump_ok sz q \<and> conveys sz q (f ())"
    using assms by (intro exI [of _ "p\<lparr>native_wr_shutdown := True\<rparr>"]) (simp add: passes_def pump_ok_def)
qed (auto simp: native_shut_def nsn_def wp)

text \<open>End of file on one side.\<close>

lemma conveys_same:
  assumes "\<And>e h. passes e h p [] q" and "pump_ok sz p \<Longrightarrow> pump_ok sz q"
  shows "conveys sz p (return (Go q b))"
  unfolding conveys_def wp using assms by (auto intro!: conveyed_self [where cs = "[]"])

lemma conveys_native_eof [conveys]: "conveys sz p (return (Go (p\<lparr>native_rx_open := False\<rparr>) b))"
  by (rule conveys_same) (simp_all add: passes_def pump_ok_def)

lemma conveys_ax_eof [conveys]: "conveys sz p (return (Go (p\<lparr>ax_rx_open := False\<rparr>) b))"
  by (rule conveys_same) (simp_all add: passes_def pump_ok_def)

end
