(* ===== verification/Nssl_Relay.thy ===== *)
theory Nssl_Relay
  imports Pump Shim_Sockets
begin

text \<open>
  The NSSL bridge of \<^verbatim>\<open>aroma_module/nsysnet_shim.c\<close>: Nintendo's NSSL speaks TLS over a native
  loopback connection, and a relay thread pumps the encrypted bytes between that connection and
  the lwIP socket the title had connected over the adapter.

  A relay's buffers and its thread's local variables are a \<open>pump\<close>; the shared part of
  \<open>struct nssl_relay\<close> is in the shim's state, where other threads raise \<open>stop\<close> between two rounds
  of the relay. Loops that wait for another thread or for time take fuel; None is running out of
  it. Log lines and thread names are left out.
\<close>

abbreviation (input) "NSSL_RELAY_MAX \<equiv> (8 :: nat)"
abbreviation (input) "NSSL_RELAY_BUF \<equiv> (4096 :: nat)"
abbreviation (input) "NSSL_INVALID_FD \<equiv> (- 0x280010 :: int)"

section \<open>Tracked connections\<close>

definition nssl_track_public_connection :: "int \<Rightarrow> int \<Rightarrow> ('z shim_scheme, unit) state" where
  "nssl_track_public_connection fd connection = whenM (fd_ok fd \<and> 0 \<le> connection) (modify (\<lambda>s. s\<lparr>
     nssl_connection_by_fd := (nssl_connection_by_fd s)[nat fd := connection],
     nssl_public_mask := nssl_public_mask s OR bitm (nat fd)\<rparr>))"

definition nssl_untrack_public_fd :: "int \<Rightarrow> ('z shim_scheme, unit) state" where
  "nssl_untrack_public_fd fd = whenM (fd_ok fd) (modify (\<lambda>s. s\<lparr>
     nssl_public_mask := nssl_public_mask s AND NOT (bitm (nat fd)),
     nssl_connection_by_fd := (nssl_connection_by_fd s)[nat fd := - 1]\<rparr>))"

text \<open>The connections NSSL has on public descriptors, as a descriptor table of their own.\<close>

definition tracked_ok :: "'z shim_scheme \<Rightarrow> bool" where
  "tracked_ok s \<longleftrightarrow> length (nssl_connection_by_fd s) = 32"

definition tracked_connection :: "'z shim_scheme \<Rightarrow> nat \<Rightarrow> nat option" where
  "tracked_connection s n = (if bit (nssl_public_mask s) n then Some (nat (nssl_connection_by_fd s ! n)) else None)"

definition track_connection :: "nat \<Rightarrow> nat \<Rightarrow> 'z shim_scheme \<Rightarrow> 'z shim_scheme" where
  "track_connection n c s = snd (run_state (nssl_track_public_connection (int n) (int c)) s)"

definition untrack_connection :: "nat \<Rightarrow> 'z shim_scheme \<Rightarrow> 'z shim_scheme" where
  "untrack_connection n s = snd (run_state (nssl_untrack_public_fd (int n)) s)"

interpretation nt: fd_table tracked_ok tracked_connection track_connection untrack_connection 32
proof
  fix s :: "'a shim_scheme" and n l
  assume s: "tracked_ok s" and n: "n < (32 :: nat)"
  show "tracked_connection (track_connection n l s) = (tracked_connection s)(n \<mapsto> l)"
    using s n by (auto simp: fun_eq_iff tracked_connection_def track_connection_def nssl_track_public_connection_def run_whenM
        tracked_ok_def fd_ok_def masks)
  show "tracked_connection (untrack_connection n s) = (tracked_connection s)(n := None)"
    using n by (auto simp: fun_eq_iff tracked_connection_def untrack_connection_def nssl_untrack_public_fd_def run_whenM fd_ok_def masks)
  show "tracked_ok (track_connection n l s)" "tracked_ok (untrack_connection n s)"
    using s by (auto simp: track_connection_def nssl_track_public_connection_def untrack_connection_def
        nssl_untrack_public_fd_def run_whenM tracked_ok_def)
next
  fix s :: "'a shim_scheme" and n l
  assume "tracked_connection s n = Some l"
  then show "n < 32" by (auto simp: tracked_connection_def bit32_less split: if_splits)
qed

text \<open>A connection is found on its descriptor until that descriptor is untracked, whatever happens on
  the others.\<close>

lemma tracked_history:
  assumes "tracked_ok s" and "n < 32" and "\<forall>x \<in> set xs. op_key x < 32 \<and> op_key x \<noteq> n"
  shows "tracked_connection (fold nt.run_op xs (track_connection n c s)) n = Some c"
proof -
  have "tracked_ok (track_connection n c s)" using assms(1,2) by (rule nt.ok_enter)
  then have "tracked_connection (fold nt.run_op xs (track_connection n c s)) =
      fold spec_op xs (tracked_connection (track_connection n c s))"
    using nt.history assms(3) by blast
  moreover have "fold spec_op xs f n = f n" if "\<forall>x \<in> set xs. op_key x \<noteq> n" for f :: "nat \<rightharpoonup> nat"
    using that
  proof (induction xs arbitrary: f)
    case (Cons x xs)
    then show ?case by (cases x) auto
  qed simp
  ultimately show ?thesis using assms nt.look_enter [OF assms(1,2)] by simp
qed

definition nssl_public_fd_is_loopback :: "int \<Rightarrow> ('z shim_scheme, bool) state" where
  "nssl_public_fd_is_loopback fd = do {
     r \<leftarrow> native (Real_getpeername fd (Some nsn0) (Some 16));
     return (r_ret r = 0 \<and> nsn_family (r_nsa r) = 2 \<and> be32_bytes (nsn_addr (r_nsa r)) = [127, 0, 0, 1]) }"

fun shutdown_tracked :: "u32 \<Rightarrow> nat list \<Rightarrow> ('z shim_scheme, int) state" where
  "shutdown_tracked tracked [] = return 0"
| "shutdown_tracked tracked (fd # fds) =
     (if tracked AND bitm fd = 0 then shutdown_tracked tracked fds
      else do {
        loop \<leftarrow> nssl_public_fd_is_loopback (int fd);
        if \<not> loop then do { nssl_untrack_public_fd (int fd); shutdown_tracked tracked fds }
        else do {
          nsn (Real_shutdown (int fd) SHUT_RDWR);
          n \<leftarrow> shutdown_tracked tracked fds;
          return (n + 1) } })"

definition nssl_shutdown_all_tracked :: "('z shim_scheme, int) state" where
  "nssl_shutdown_all_tracked = do {
     tracked \<leftarrow> gets nssl_public_mask;
     if tracked = 0 then return 0 else shutdown_tracked tracked [0..<32] }"

section \<open>Relay slots\<close>

definition relay :: "nat \<Rightarrow> 'z shim_scheme \<Rightarrow> nssl_relay" where
  "relay i s = nssl_relays s ! i"

definition set_relay :: "nat \<Rightarrow> (nssl_relay \<Rightarrow> nssl_relay) \<Rightarrow> 'z shim_scheme \<Rightarrow> 'z shim_scheme" where
  "set_relay i f s = s\<lparr>nssl_relays := (nssl_relays s)[i := f (nssl_relays s ! i)]\<rparr>"

definition upd_relay :: "nat \<Rightarrow> (nssl_relay \<Rightarrow> nssl_relay) \<Rightarrow> ('z shim_scheme, unit) state" where
  "upd_relay i f = modify (set_relay i f)"

definition reap_slot :: "nat \<Rightarrow> ('z shim_scheme, unit) state" where
  "reap_slot i = do {
     r \<leftarrow> gets (relay i);
     whenM (rl_allocated r \<and> rl_done r) (do {
       ended \<leftarrow> ext (Os (OSIsThreadTerminated i));
       whenM (r_ret ended \<noteq> 0) (do {
         ext (Os (OSJoinThread i));
         upd_relay i (\<lambda>r. r\<lparr>rl_public_fd := - 1, rl_allocated := False\<rparr>) }) }) }"

definition nssl_relay_reap :: "('z shim_scheme, unit) state" where
  "nssl_relay_reap = for_each [0..<NSSL_RELAY_MAX] reap_slot"

definition fresh_relay :: nssl_relay where
  "fresh_relay = \<lparr>rl_allocated = True, rl_ready = False, rl_stop = False, rl_done = False,
     rl_public_fd = - 1, rl_native_fd = - 1, rl_lwfd = - 1, rl_error = 0, rl_native_to_ax = 0, rl_ax_to_native = 0\<rparr>"

fun reserve_from :: "nat list \<Rightarrow> ('z shim_scheme, int) state" where
  "reserve_from [] = return (- 1)"
| "reserve_from (i # is) = do {
     taken \<leftarrow> gets (\<lambda>s. rl_allocated (relay i s));
     if taken then reserve_from is
     else do {
       upd_relay i (\<lambda>_. fresh_relay);
       c \<leftarrow> ext (Os (OSCreateThread i));
       if r_ret c = 0 then do { upd_relay i (\<lambda>r. r\<lparr>rl_allocated := False\<rparr>); return (- 1) }
       else do { ext (Os (OSResumeThread i)); return (int i) } } }"

definition nssl_relay_reserve :: "('z shim_scheme, int) state" where
  "nssl_relay_reserve = do { nssl_relay_reap; reserve_from [0..<NSSL_RELAY_MAX] }"

definition nssl_relay_stop_slot :: "int \<Rightarrow> ('z shim_scheme, unit) state" where
  "nssl_relay_stop_slot slot = (if slot < 0 \<or> slot \<ge> int NSSL_RELAY_MAX then return ()
     else do {
       a \<leftarrow> gets (\<lambda>s. rl_allocated (relay (nat slot) s));
       whenM a (upd_relay (nat slot) (\<lambda>r. r\<lparr>rl_stop := True\<rparr>)) })"

definition stop_flagged :: "nssl_relay \<Rightarrow> nssl_relay" where
  "stop_flagged r = (if rl_allocated r then r\<lparr>rl_stop := True\<rparr> else r)"

fun any_alive :: "nat list \<Rightarrow> bool \<Rightarrow> ('z shim_scheme, bool) state" where
  "any_alive [] alive = return alive"
| "any_alive (i # is) alive = do {
     a \<leftarrow> gets (\<lambda>s. rl_allocated (relay i s));
     if \<not> a then any_alive is alive
     else do {
       ended \<leftarrow> ext (Os (OSIsThreadTerminated i));
       any_alive is (alive \<or> r_ret ended = 0) } }"

fun wait_relays :: "nat \<Rightarrow> int \<Rightarrow> ('z shim_scheme, unit option) state" where
  "wait_relays 0 deadline = return None"
| "wait_relays (Suc k) deadline = do {
     now \<leftarrow> ext (Os OSGetTime);
     if \<not> r_ret now < deadline then return (Some ())
     else do {
       alive \<leftarrow> any_alive [0..<NSSL_RELAY_MAX] False;
       if \<not> alive then return (Some ())
       else do {
         ticks \<leftarrow> ext (Os (OSMillisecondsToTicks 1));
         ext (Os (OSSleepTicks (r_ret ticks)));
         wait_relays k deadline } } }"

definition nssl_relay_stop_all :: "nat \<Rightarrow> ('z shim_scheme, unit option) state" where
  "nssl_relay_stop_all fuel = do {
     any \<leftarrow> gets (\<lambda>s. list_ex rl_allocated (nssl_relays s));
     modify (\<lambda>s. s\<lparr>nssl_relays := map stop_flagged (nssl_relays s)\<rparr>);
     if \<not> any then return (Some ())
     else do {
       now \<leftarrow> ext (Os OSGetTime);
       ticks \<leftarrow> ext (Os (OSMillisecondsToTicks 500));
       w \<leftarrow> wait_relays fuel (r_ret now + r_ret ticks);
       (case w of None \<Rightarrow> return None | Some _ \<Rightarrow> do { nssl_relay_reap; return (Some ()) }) } }"

section \<open>The relay thread\<close>

definition relay_flush_ax :: "nat \<Rightarrow> pump \<Rightarrow> bool \<Rightarrow> ('z shim_scheme, pump_out) state" where
  "relay_flush_ax slot p progress =
     (if p_len (to_ax p) = 0 then return (Go p progress)
      else do {
        n \<leftarrow> ax_send p;
        if 0 < n then do {
          upd_relay slot (\<lambda>r. r\<lparr>rl_native_to_ax := rl_native_to_ax r + word_of_int n\<rparr>);
          return (Go (p\<lparr>to_ax := pipe_advance (nat n) (to_ax p)\<rparr>) True) }
        else do {
          e \<leftarrow> gets errno;
          if n < 0 \<and> \<not> would_block e then do {
            upd_relay slot (\<lambda>r. r\<lparr>rl_error := 1000 + e\<rparr>);
            return (Leave p) }
          else return (Go p progress) } })"

definition relay_fill_ax :: "nat \<Rightarrow> pump \<Rightarrow> bool \<Rightarrow> ('z shim_scheme, pump_out) state" where
  "relay_fill_ax slot p progress =
     (if \<not> (p_len (to_ax p) = 0 \<and> native_rx_open p) then return (Go p progress)
      else do {
        (n, d) \<leftarrow> native_recv NSSL_RELAY_BUF p;
        if 0 < n then return (Go (p\<lparr>to_ax := pipe_load (nat n) d (to_ax p)\<rparr>) True)
        else if n = 0 then return (Go (p\<lparr>native_rx_open := False\<rparr>) True)
        else do {
          b \<leftarrow> nssl_native_would_block;
          if \<not> b then do {
            e \<leftarrow> native_error;
            upd_relay slot (\<lambda>r. r\<lparr>rl_error := 2000 + e\<rparr>);
            return (Leave p) }
          else return (Go p progress) } })"

definition relay_shut_ax :: "pump \<Rightarrow> bool \<Rightarrow> ('z shim_scheme, pump_out) state" where
  "relay_shut_ax p progress =
     (if \<not> native_rx_open p \<and> p_len (to_ax p) = 0 \<and> \<not> ax_wr_shutdown p
      then do { ax_shut p; return (Go (p\<lparr>ax_wr_shutdown := True\<rparr>) True) }
      else return (Go p progress))"

definition relay_flush_native :: "nat \<Rightarrow> pump \<Rightarrow> bool \<Rightarrow> ('z shim_scheme, pump_out) state" where
  "relay_flush_native slot p progress =
     (if p_len (to_native p) = 0 then return (Go p progress)
      else do {
        n \<leftarrow> native_send p;
        if 0 < n then do {
          upd_relay slot (\<lambda>r. r\<lparr>rl_ax_to_native := rl_ax_to_native r + word_of_int n\<rparr>);
          return (Go (p\<lparr>to_native := pipe_advance (nat n) (to_native p)\<rparr>) True) }
        else if n < 0 then do {
          e \<leftarrow> native_error;
          if e = NSN_ERR_WOULDBLOCK then return (Go p progress)
          else if nssl_native_peer_closed e then return (Leave (p\<lparr>to_native := (to_native p)\<lparr>p_len := 0\<rparr>\<rparr>))
          else do {
            upd_relay slot (\<lambda>r. r\<lparr>rl_error := 3000 + e\<rparr>);
            return (Leave p) } }
        else return (Go p progress) })"

definition relay_fill_native :: "nat \<Rightarrow> pump \<Rightarrow> bool \<Rightarrow> ('z shim_scheme, pump_out) state" where
  "relay_fill_native slot p progress =
     (if \<not> (p_len (to_native p) = 0 \<and> ax_rx_open p) then return (Go p progress)
      else do {
        (n, d) \<leftarrow> ax_recv NSSL_RELAY_BUF p;
        if 0 < n then return (Go (p\<lparr>to_native := pipe_load (nat n) d (to_native p)\<rparr>) True)
        else if n = 0 then return (Go (p\<lparr>ax_rx_open := False\<rparr>) True)
        else do {
          e \<leftarrow> gets errno;
          if \<not> would_block e then do {
            upd_relay slot (\<lambda>r. r\<lparr>rl_error := 4000 + e\<rparr>);
            return (Leave p) }
          else return (Go p progress) } })"

definition relay_shut_native :: "pump \<Rightarrow> bool \<Rightarrow> ('z shim_scheme, pump_out) state" where
  "relay_shut_native p progress =
     (if \<not> ax_rx_open p \<and> p_len (to_native p) = 0 \<and> \<not> native_wr_shutdown p
      then do { native_shut p; return (Go (p\<lparr>native_wr_shutdown := True\<rparr>) True) }
      else return (Go p progress))"

definition pump_finished :: "pump \<Rightarrow> bool" where
  "pump_finished p \<longleftrightarrow> \<not> native_rx_open p \<and> \<not> ax_rx_open p \<and> p_len (to_ax p) = 0 \<and> p_len (to_native p) = 0"

definition relay_end :: "pump \<Rightarrow> bool \<Rightarrow> ('z shim_scheme, pump_out) state" where
  "relay_end p progress =
     (if pump_finished p then return (Leave p)
      else if progress then return (Go p progress)
      else do {
        ticks \<leftarrow> ext (Os (OSMillisecondsToTicks 1));
        ext (Os (OSSleepTicks (r_ret ticks)));
        return (Go p progress) })"

definition relay_round :: "nat \<Rightarrow> pump \<Rightarrow> ('z shim_scheme, pump_out) state" where
  "relay_round slot p =
     go (go (go (go (go (go (relay_flush_ax slot p False) (relay_fill_ax slot)) relay_shut_ax)
       (relay_flush_native slot)) (relay_fill_native slot)) relay_shut_native) relay_end"

fun relay_loop :: "nat \<Rightarrow> nat \<Rightarrow> pump \<Rightarrow> ('z shim_scheme, unit option) state" where
  "relay_loop 0 slot p = return None"
| "relay_loop (Suc k) slot p = do {
     stop \<leftarrow> gets (\<lambda>s. rl_stop (relay slot s));
     if stop then return (Some ())
     else do {
       r \<leftarrow> relay_round slot p;
       (case r of Go q b \<Rightarrow> relay_loop k slot q | Leave q \<Rightarrow> return (Some ())) } }"

fun relay_wait :: "nat \<Rightarrow> nat \<Rightarrow> ('z shim_scheme, unit option) state" where
  "relay_wait 0 slot = return None"
| "relay_wait (Suc k) slot = do {
     r \<leftarrow> gets (relay slot);
     if rl_stop r \<or> rl_ready r then return (Some ())
     else do {
       ticks \<leftarrow> ext (Os (OSMillisecondsToTicks 1));
       ext (Os (OSSleepTicks (r_ret ticks)));
       relay_wait k slot } }"

text \<open>The arrays of the slot keep what an earlier connection left in them; nothing reads it.\<close>

definition empty_pipe :: "nat \<Rightarrow> pipe" where
  "empty_pipe n = \<lparr>p_buf = replicate n 0, p_off = 0, p_len = 0\<rparr>"

definition pump_start :: "nat \<Rightarrow> int \<Rightarrow> int \<Rightarrow> pump" where
  "pump_start sz nfd afd = \<lparr>native_fd = nfd, ax_fd = afd, native_rx_open = True, ax_rx_open = True,
     native_wr_shutdown = False, ax_wr_shutdown = False, to_native = empty_pipe sz, to_ax = empty_pipe sz\<rparr>"

definition relay_out :: "nat \<Rightarrow> ('z shim_scheme, unit) state" where
  "relay_out slot = do {
     r \<leftarrow> gets (relay slot);
     whenM (0 \<le> rl_native_fd r) (do {
       nsn (Real_socketclose (rl_native_fd r));
       upd_relay slot (\<lambda>r. r\<lparr>rl_native_fd := - 1\<rparr>) });
     whenM (0 \<le> rl_lwfd r) (do {
       sock (Lwip_close (rl_lwfd r));
       upd_relay slot (\<lambda>r. r\<lparr>rl_lwfd := - 1\<rparr>) });
     upd_relay slot (\<lambda>r. r\<lparr>rl_public_fd := - 1, rl_done := True\<rparr>) }"

definition nssl_relay_worker :: "nat \<Rightarrow> int \<Rightarrow> ('z shim_scheme, int option) state" where
  "nssl_relay_worker fuel slot =
     (if slot < 0 \<or> slot \<ge> int NSSL_RELAY_MAX then return (Some (- 1))
      else do {
        w \<leftarrow> relay_wait fuel (nat slot);
        (case w of None \<Rightarrow> return None
         | Some _ \<Rightarrow> do {
             r \<leftarrow> gets (relay (nat slot));
             l \<leftarrow> (if rl_stop r then return (Some ())
                  else relay_loop fuel (nat slot) (pump_start NSSL_RELAY_BUF (rl_native_fd r) (rl_lwfd r)));
             (case l of None \<Rightarrow> return None
              | Some _ \<Rightarrow> do { relay_out (nat slot); return (Some 0) }) }) })"

section \<open>Handing a socket over\<close>

definition native_of :: "sockaddr_in \<Rightarrow> nsn_sockaddr" where
  "native_of l = nsn0\<lparr>nsn_family := 2, nsn_port := sin_port l, nsn_addr := sin_addr l\<rparr>"

definition unmap_fd :: "int \<Rightarrow> ('z shim_scheme, unit) state" where
  "unmap_fd fd = do { untrack_fd fd; modify (\<lambda>s. s\<lparr>mapped_fd := (mapped_fd s)[nat fd := - 1]\<rparr>) }"

definition promote_ax_socket_to_native :: "int \<Rightarrow> ('z shim_scheme, int) state" where
  "promote_ax_socket_to_native sockfd = do {
     foreign \<leftarrow> gets (is_foreign sockfd);
     if foreign then return 0
     else do {
       lwfd \<leftarrow> gets (stack_fd sockfd);
       r \<leftarrow> sock (Lwip_getpeername lwfd);
       if r_ret r \<noteq> 0 then return (- 1)
       else if sin_family (r_lsa r) \<noteq> AF_INET then return (- 2)
       else do {
         c \<leftarrow> native (Real_connect sockfd (Some (native_of (r_lsa r))) 16);
         if r_ret c \<noteq> 0 then do { e \<leftarrow> native_error; return (- 100 - e) }
         else do {
           unmap_fd sockfd;
           sock (Lwip_close lwfd);
           return 1 } } } }"

text \<open>The failure exits of the bridge that have a listener to close.\<close>

definition bridge_fail :: "int \<Rightarrow> int \<Rightarrow> int \<Rightarrow> ('z shim_scheme, int + 'a) state" where
  "bridge_fail listener slot base = do {
     e \<leftarrow> native_error;
     nsn (Real_socketclose listener);
     nssl_relay_stop_slot slot;
     return (Inl (base - e)) }"

definition bridge_listen :: "int \<Rightarrow> ('z shim_scheme, int + (int \<times> nsn_sockaddr)) state" where
  "bridge_listen slot = do {
     r \<leftarrow> nsn (Real_socket NSN_AF_INET SOCK_STREAM 0);
     let listener = r_ret r;
     if listener < 0 then do { nssl_relay_stop_slot slot; return (Inl (- 4)) }
     else do {
       a \<leftarrow> ext (Module (Lwip_inet_pton ''127.0.0.1''));
       if r_ret a \<noteq> 1 then do {
         nsn (Real_socketclose listener);
         nssl_relay_stop_slot slot;
         return (Inl (- 5)) }
       else do {
         let loc = nsn0\<lparr>nsn_family := 2, nsn_addr := r_val a\<rparr>;
         b \<leftarrow> nsn (Real_bind listener (Some loc) 16);
         if r_ret b \<noteq> 0 then bridge_fail listener slot (- 100)
         else do {
           l \<leftarrow> nsn (Real_listen listener 1);
           if r_ret l \<noteq> 0 then bridge_fail listener slot (- 200)
           else do {
             g \<leftarrow> nsn (Real_getsockname listener (Some loc) (Some 16));
             if r_ret g \<noteq> 0 then bridge_fail listener slot (- 300)
             else return (Inr (listener, r_nsa g)) } } } } }"

definition bridge_join :: "int \<Rightarrow> int \<Rightarrow> int \<Rightarrow> nsn_sockaddr \<Rightarrow> ('z shim_scheme, int + int) state" where
  "bridge_join sockfd slot listener loc = do {
     c \<leftarrow> nsn (Real_connect sockfd (Some loc) 16);
     if r_ret c \<noteq> 0 then bridge_fail listener slot (- 400)
     else do {
       a \<leftarrow> nsn (Real_accept listener None None);
       nsn (Real_socketclose listener);
       if r_ret a < 0 then do {
         e \<leftarrow> native_error;
         nssl_relay_stop_slot slot;
         return (Inl (- 500 - e)) }
       else return (Inr (r_ret a)) } }"

definition bridge_adopt :: "int \<Rightarrow> int \<Rightarrow> int \<Rightarrow> int \<Rightarrow> ('z shim_scheme, unit) state" where
  "bridge_adopt sockfd lwfd slot accepted = do {
     upd_relay (nat slot) (\<lambda>r. r\<lparr>rl_native_fd := accepted, rl_lwfd := lwfd, rl_public_fd := sockfd\<rparr>);
     unmap_fd sockfd;
     upd_relay (nat slot) (\<lambda>r. r\<lparr>rl_ready := True\<rparr>) }"

definition bridge_setup :: "int \<Rightarrow> int \<Rightarrow> int \<Rightarrow> ('z shim_scheme, int + unit) state" where
  "bridge_setup sockfd lwfd slot =
     bindE (bridge_listen slot) (\<lambda>(listener, loc).
     bindE (bridge_join sockfd slot listener loc) (\<lambda>accepted. do {
       bridge_adopt sockfd lwfd slot accepted;
       return (Inr ()) }))"

text \<open>The return value and \<open>*relay_slot_out\<close>.\<close>

definition bridge_ax_socket_to_nssl :: "int \<Rightarrow> ('z shim_scheme, int \<times> int) state" where
  "bridge_ax_socket_to_nssl sockfd = do {
     foreign \<leftarrow> gets (is_foreign sockfd);
     if foreign then return (0, - 1)
     else do {
       lwfd \<leftarrow> gets (stack_fd sockfd);
       r \<leftarrow> sock (Lwip_getpeername lwfd);
       if r_ret r \<noteq> 0 then return (- 1, - 1)
       else if sin_family (r_lsa r) \<noteq> AF_INET then return (- 2, - 1)
       else do {
         slot \<leftarrow> nssl_relay_reserve;
         if slot < 0 then return (- 3, - 1)
         else do {
           b \<leftarrow> bridge_setup sockfd lwfd slot;
           (case b of Inl e \<Rightarrow> return (e, - 1) | Inr _ \<Rightarrow> return (1, slot)) } } } }"

section \<open>The NSSL calls\<close>

definition my_NSSLCreateConnection ::
  "int \<Rightarrow> bytes option \<Rightarrow> int \<Rightarrow> int \<Rightarrow> int \<Rightarrow> int \<Rightarrow> ('z shim_scheme, int) state" where
  "my_NSSLCreateConnection ctx host hostLength options sockfd block = do {
     foreign \<leftarrow> gets (is_foreign sockfd);
     bridged \<leftarrow> gets nssl_bridge_enabled;
     (res, slot) \<leftarrow> (if foreign then return (1, - 1)
       else if bridged then bridge_ax_socket_to_nssl sockfd
       else do { promote_ax_socket_to_native sockfd; return (1, - 1) });
     if \<not> foreign \<and> bridged \<and> res \<le> 0 then return NSSL_INVALID_FD
     else do {
       r \<leftarrow> ext (Nssl (Real_NSSLCreateConnection ctx host hostLength options sockfd block));
       whenM (0 \<le> slot)
         (if r_ret r < 0 then nssl_relay_stop_slot slot
          else nssl_track_public_connection sockfd (r_ret r));
       return (r_ret r) } }"

definition drop_connection :: "u32 \<Rightarrow> int \<Rightarrow> nat \<Rightarrow> ('z shim_scheme, unit) state" where
  "drop_connection tracked connection fd = whenM (tracked AND bitm fd \<noteq> 0) (do {
     c \<leftarrow> gets (\<lambda>s. nssl_connection_by_fd s ! fd);
     whenM (c = connection) (do {
       nssl_relay_detach_public_fd (int fd);
       nssl_untrack_public_fd (int fd) }) })"

definition my_NSSLDestroyConnection :: "int \<Rightarrow> ('z shim_scheme, int) state" where
  "my_NSSLDestroyConnection connection = do {
     r \<leftarrow> ext (Nssl (Real_NSSLDestroyConnection connection));
     tracked \<leftarrow> gets nssl_public_mask;
     for_each [0..<32] (drop_connection tracked connection);
     return (r_ret r) }"

definition nssl_forget_all :: "('z shim_scheme, unit) state" where
  "nssl_forget_all = modify (\<lambda>s. s\<lparr>nssl_public_mask := 0, nssl_connection_by_fd := replicate 32 (- 1)\<rparr>)"

definition my_NSSLFinish :: "nat \<Rightarrow> ('z shim_scheme, int option) state" where
  "my_NSSLFinish fuel = do {
     r \<leftarrow> ext (Nssl Real_NSSLFinish);
     w \<leftarrow> nssl_relay_stop_all fuel;
     (case w of None \<Rightarrow> return None
      | Some _ \<Rightarrow> do { nssl_forget_all; return (Some (r_ret r)) }) }"

section \<open>The relay obeys the law of a pump\<close>

lemma quiet_relay [quiet]: "quiet (upd_relay i f)"
  unfolding upd_relay_def by (intro quiet) (simp_all add: set_relay_def)

lemma conveys_relay_flush_ax: "conveys sz p (relay_flush_ax slot p b)"
  unfolding relay_flush_ax_def
  by (intro conveys_if conveys_return conveys_leave conveys_ax_send conveys_quiet quiet) simp_all

lemma conveys_relay_fill_ax: "conveys NSSL_RELAY_BUF p (relay_fill_ax slot p b)"
  unfolding relay_fill_ax_def
  by (intro conveys_if conveys_return conveys_native_recv; simp)
     (auto intro!: conveys_return conveys_leave conveys_quiet quiet conveys_native_eof)

lemma conveys_relay_shut_ax: "conveys sz p (relay_shut_ax p b)"
  unfolding relay_shut_ax_def by (intro conveys_if conveys_ax_shut conveys_return) simp_all

lemma conveys_relay_flush_native: "conveys sz p (relay_flush_native slot p b)"
  unfolding relay_flush_native_def
  by (intro conveys_if conveys_return conveys_leave conveys_native_send conveys_quiet quiet) simp_all

lemma conveys_relay_fill_native: "conveys NSSL_RELAY_BUF p (relay_fill_native slot p b)"
  unfolding relay_fill_native_def
  by (intro conveys_if conveys_return conveys_ax_recv; simp)
     (auto intro!: conveys_return conveys_leave conveys_quiet quiet conveys_ax_eof)

lemma conveys_relay_shut_native: "conveys sz p (relay_shut_native p b)"
  unfolding relay_shut_native_def by (intro conveys_if conveys_native_shut conveys_return) simp_all

lemma conveys_relay_end: "conveys sz p (relay_end p b)"
  unfolding relay_end_def by (intro conveys_if conveys_return conveys_leave conveys_quiet quiet) simp_all

lemma conveys_relay_round: "conveys NSSL_RELAY_BUF p (relay_round slot p)"
  unfolding relay_round_def
  by (intro conveys_go conveys_relay_flush_ax conveys_relay_fill_ax conveys_relay_shut_ax
      conveys_relay_flush_native conveys_relay_fill_native conveys_relay_shut_native conveys_relay_end)

text \<open>A relay among other threads: its rounds alternate with steps of others, which may change the
  shared state but make no call that moves data on the relay's own two sockets.\<close>

fun call_fd :: "call \<Rightarrow> int option" where
  "call_fd (Nsn (Real_recv fd n f)) = Some fd" | "call_fd (Nsn (Real_send fd d f)) = Some fd"
| "call_fd (Nsn (Real_shutdown fd h)) = Some fd" | "call_fd (Sock (Lwip_recv fd n f)) = Some fd"
| "call_fd (Sock (Lwip_send fd d f)) = Some fd" | "call_fd (Sock (Lwip_shutdown fd h)) = Some fd"
| "call_fd c = None"

definition elsewhere :: "pump \<Rightarrow> call \<Rightarrow> bool" where
  "elsewhere p c \<longleftrightarrow> (case c of Nsn _ \<Rightarrow> call_fd c \<noteq> Some (native_fd p) | Sock _ \<Rightarrow> call_fd c \<noteq> Some (ax_fd p) | _ \<Rightarrow> True)"

inductive relay_runs :: "nat \<Rightarrow> pump \<Rightarrow> 'z shim_scheme \<Rightarrow> pump \<Rightarrow> 'z shim_scheme \<Rightarrow> bool" for slot p s where
  start: "relay_runs slot p s p s"
| round: "relay_runs slot p s q t \<Longrightarrow> run_state (relay_round slot q) t = (Go r b, u) \<Longrightarrow> relay_runs slot p s r u"
| other: "relay_runs slot p s q t \<Longrightarrow> env u = env t \<Longrightarrow> trace u = trace t @ cs \<Longrightarrow> list_all (elsewhere p) cs \<Longrightarrow>
    relay_runs slot p s q u"

lemma passes_elsewhere:
  assumes "list_all (elsewhere p) cs"
  shows "passes e h p cs p"
proof -
  have e: "native_in (native_fd p) r c = [] \<and> ax_in (ax_fd p) r c = [] \<and> native_out (native_fd p) r c = [] \<and>
      ax_out (ax_fd p) r c = [] \<and> c \<noteq> Sock (Lwip_shutdown (ax_fd p) SHUT_WR) \<and> c \<noteq> Nsn (Real_shutdown (native_fd p) SHUT_WR)"
    if "elsewhere p c" for c r
    using that by (cases c rule: call_fd.cases) (auto simp: elsewhere_def)
  show ?thesis
    using assms e unfolding passes_def list_all_iff by (auto simp: collect_none)
qed

lemma elsewhere_cong: "passes e h p cs q \<Longrightarrow> elsewhere q = elsewhere p"
  using passesD(1,2) by (fastforce simp: elsewhere_def fun_eq_iff split: call.split)

lemma relay_runs_passes:
  assumes "relay_runs slot p s q t" and "io_ok (env s)" and "pump_ok NSSL_RELAY_BUF p"
  shows "env t = env s \<and> pump_ok NSSL_RELAY_BUF q \<and> (\<exists>cs. trace t = trace s @ cs \<and> passes (env s) (trace s) p cs q)"
  using assms
proof (induction rule: relay_runs.induct)
  case start
  then show ?case by (auto intro!: exI [of _ "[]"])
next
  case (round q t r b u)
  then obtain cs where t: "env t = env s" "pump_ok NSSL_RELAY_BUF q" "trace t = trace s @ cs" "passes (env s) (trace s) p cs q"
    by blast
  have "conveyed NSSL_RELAY_BUF q t (Go r b) u"
    using wpD [OF round.hyps(2) conveysD [OF conveys_relay_round]] t round.prems by simp
  then obtain ds where u: "env u = env t" "trace u = trace t @ ds" "passes (env t) (trace t) q ds r" "pump_ok NSSL_RELAY_BUF r"
    by (auto simp: conveyed_def)
  with t have "passes (env s) (trace s) p (cs @ ds) r" by (metis passes_trans)
  with t u show ?case by auto
next
  case (other q t u ds)
  then obtain cs where t: "env t = env s" "pump_ok NSSL_RELAY_BUF q" "trace t = trace s @ cs" "passes (env s) (trace s) p cs q"
    by blast
  have "passes (env s) (trace s @ cs) q ds q"
    by (rule passes_elsewhere) (use other.hyps(4) elsewhere_cong [OF t(4)] in simp)
  with t other.hyps have "passes (env s) (trace s) p (cs @ ds) q" by (metis passes_trans)
  with t other.hyps show ?case by auto
qed

lemma pump_ok_start: "pump_ok sz (pump_start sz nfd afd)"
  by (simp add: pump_ok_def pump_start_def empty_pipe_def pipe_ok_def)


text \<open>A native side that always has two bytes, and an adapter side that takes one at a time and has
  nothing to say.\<close>

definition pump_env :: "call list \<Rightarrow> call \<Rightarrow> resp" where
  "pump_env h c = (case c of
     Nsn (Real_recv fd n f) \<Rightarrow> if 2 \<le> n then resp0\<lparr>r_ret := 2, r_data := [7, 8]\<rparr> else resp0\<lparr>r_ret := - 1\<rparr>
   | Sock (Lwip_send fd d f) \<Rightarrow> resp0\<lparr>r_ret := min 1 (int (length d))\<rparr>
   | Sock (Lwip_recv fd n f) \<Rightarrow> resp0\<lparr>r_ret := - 1, r_errno := Some EWOULDBLOCK\<rparr>
   | _ \<Rightarrow> resp0)"

lemma pump_env_ok: "io_ok pump_env"
  by (simp add: io_ok_def pump_env_def resp0_def)

lemma pump_env_round:
  assumes "env s = pump_env"
  shows "\<exists>t. run_state (relay_round 0 (pump_start NSSL_RELAY_BUF 3 5)) s =
    (Go ((pump_start NSSL_RELAY_BUF 3 5)\<lparr>to_ax := pipe_load 2 [7, 8] (empty_pipe NSSL_RELAY_BUF)\<rparr>) True, t)"
  using assms
  by (simp add: relay_round_def go_def relay_flush_ax_def relay_fill_ax_def relay_shut_ax_def relay_flush_native_def
      relay_fill_native_def relay_shut_native_def relay_end_def pump_start_def empty_pipe_def pipe_load_def
      native_recv_def ax_recv_def nsn_def sock_def set_errno_def pump_env_def pump_finished_def would_block_def
      runs)


section \<open>Handing over without loss\<close>

text \<open>The native listeners opened and the native sockets closed in a stretch of calls.\<close>

fun socket_by :: "resp \<Rightarrow> call \<Rightarrow> int list" where
  "socket_by r (Nsn (Real_socket d t p)) = (if r_ret r < 0 then [] else [r_ret r])"
| "socket_by r c = []"

fun close_by :: "resp \<Rightarrow> call \<Rightarrow> int list" where
  "close_by r (Nsn (Real_socketclose fd)) = [fd]"
| "close_by r c = []"

fun lw_close :: "call \<Rightarrow> bool" where
  "lw_close (Sock (Lwip_close fd)) = True"
| "lw_close c = False"

text \<open>Since \<open>s\<close> nothing happened to the routing table and to the relays but \<open>i\<close>, except that
  finished ones may be free now; no lwIP socket was closed, and \<open>fds\<close> are the native sockets still
  to be closed.\<close>

definition held :: "'z shim_scheme \<Rightarrow> nat \<Rightarrow> int list \<Rightarrow> 'z shim_scheme \<Rightarrow> bool" where
  "held s i fds t \<longleftrightarrow> env t = env s \<and> open_mask t = open_mask s \<and> mapped_fd t = mapped_fd s \<and>
     length (nssl_relays t) = NSSL_RELAY_MAX \<and>
     (\<forall>j < NSSL_RELAY_MAX. j \<noteq> i \<longrightarrow> rl_allocated (relay j t) \<longrightarrow> relay j t = relay j s) \<and>
     (\<exists>cs. trace t = trace s @ cs \<and> list_all (\<lambda>c. \<not> lw_close c) cs \<and>
       collect socket_by (env s) (trace s) cs = collect close_by (env s) (trace s) cs @ fds)"

lemma held_start: "length (nssl_relays s) = NSSL_RELAY_MAX \<Longrightarrow> held s i [] s"
  by (auto simp: held_def)

lemma held_call:
  assumes "held s i fds t" and "\<not> lw_close c" and "socket_by (env t (trace t) c) c = opened" and "close_by (env t (trace t) c) c = []"
    and "fds = [] \<or> opened = []"
  shows "held s i (fds @ opened) (t\<lparr>trace := trace t @ [c]\<rparr>)"
proof -
  obtain cs where "trace t = trace s @ cs" "list_all (\<lambda>c. \<not> lw_close c) cs"
      "collect socket_by (env s) (trace s) cs = collect close_by (env s) (trace s) cs @ fds"
    using assms(1) by (auto simp: held_def)
  with assms show ?thesis
    unfolding held_def relay_def by (auto intro!: exI [of _ "cs @ [c]"])
qed

lemma held_close:
  assumes "held s i [fd] t"
  shows "held s i [] (t\<lparr>trace := trace t @ [Nsn (Real_socketclose fd)]\<rparr>)"
proof -
  obtain cs where "trace t = trace s @ cs" "list_all (\<lambda>c. \<not> lw_close c) cs"
      "collect socket_by (env s) (trace s) cs = collect close_by (env s) (trace s) cs @ [fd]"
    using assms(1) by (auto simp: held_def)
  with assms show ?thesis
    unfolding held_def relay_def by (auto intro!: exI [of _ "cs @ [Nsn (Real_socketclose fd)]"])
qed

lemma held_silent:
  "held s i fds t \<Longrightarrow> \<not> lw_close c \<Longrightarrow> socket_by (env t (trace t) c) c = [] \<Longrightarrow> close_by (env t (trace t) c) c = [] \<Longrightarrow>
     held s i fds (t\<lparr>trace := trace t @ [c]\<rparr>)"
  using held_call [where opened = "[]" and fds = fds and s = s and i = i and t = t and c = c] by simp

lemma held_open:
  "held s i [] t \<Longrightarrow> held s i (if r_ret (env t (trace t) (Nsn (Real_socket d k p))) < 0 then []
      else [r_ret (env t (trace t) (Nsn (Real_socket d k p)))]) (t\<lparr>trace := trace t @ [Nsn (Real_socket d k p)]\<rparr>)"
  using held_call [where fds = "[]" and s = s and i = i and t = t and c = "Nsn (Real_socket d k p)", OF _ _ refl] by simp

definition tri :: "('s \<Rightarrow> bool) \<Rightarrow> ('s, 'a) state \<Rightarrow> ('a \<Rightarrow> 's \<Rightarrow> bool) \<Rightarrow> bool" where
  "tri P m Q \<longleftrightarrow> (\<forall>s. P s \<longrightarrow> wp m Q s)"

lemma tri_bind: "tri P m R \<Longrightarrow> (\<And>x. tri (R x) (f x) Q) \<Longrightarrow> tri P (State_Monad.bind m f) Q"
  by (auto simp: tri_def intro: wp_bind_I)

lemma tri_if: "(b \<Longrightarrow> tri P m Q) \<Longrightarrow> (\<not> b \<Longrightarrow> tri P n Q) \<Longrightarrow> tri P (if b then m else n) Q"
  by simp

lemma tri_return: "(\<And>s. P s \<Longrightarrow> Q x s) \<Longrightarrow> tri P (return x) Q"
  by (simp add: tri_def wp)

lemma triD: "tri P m Q \<Longrightarrow> P s \<Longrightarrow> wp m Q s"
  by (simp add: tri_def)

lemma tri_assume: "(b \<Longrightarrow> tri P m Q) \<Longrightarrow> tri (\<lambda>t. b \<and> P t) m Q"
  by (simp add: tri_def)

lemma tri_bindE:
  assumes "tri P m (\<lambda>x t. case x of Inl e \<Rightarrow> F t | Inr y \<Rightarrow> R y t)"
    and "\<And>y. tri (R y) (f y) (\<lambda>x t. case x of Inl e \<Rightarrow> F t | Inr z \<Rightarrow> Q z t)"
  shows "tri P (bindE m f) (\<lambda>x t. case x of Inl e \<Rightarrow> F t | Inr z \<Rightarrow> Q z t)"
  unfolding tri_def
  by (intro allI impI, rule wp_bindE_I [OF triD [OF assms(1)]]) (auto intro: triD [OF assms(2)])

lemma tri_ext:
  assumes "\<not> lw_close c" and "\<And>r. socket_by r c = []" and "\<And>r. close_by r c = []"
  shows "tri (held s i fds) (ext c) (\<lambda>_. held s i fds)"
  by (auto simp: tri_def wp assms intro: held_silent)

definition hold :: "'z shim_scheme \<Rightarrow> nat \<Rightarrow> nssl_relay \<Rightarrow> int list \<Rightarrow> 'z shim_scheme \<Rightarrow> bool" where
  "hold s i r fds t \<longleftrightarrow> i < NSSL_RELAY_MAX \<and> held s i fds t \<and> relay i t = r"

lemma relay_trace [simp]: "relay i (t\<lparr>trace := h\<rparr>) = relay i t"
  by (simp add: relay_def)

lemma tri_call:
  assumes "\<not> lw_close c" and "\<And>r. socket_by r c = []" and "\<And>r. close_by r c = []"
  shows "tri (hold s i r fds) (ext c) (\<lambda>_. hold s i r fds)"
  by (auto simp: tri_def wp hold_def assms intro: held_silent)

lemma tri_nsn:
  assumes "\<And>r. socket_by r (Nsn c) = []" and "\<And>r. close_by r (Nsn c) = []"
  shows "tri (hold s i r fds) (nsn c) (\<lambda>_. hold s i r fds)"
  unfolding nsn_def by (rule tri_call) (use assms in simp_all)

lemma tri_socket: "tri (hold s i r []) (nsn (Real_socket d t p)) (\<lambda>x. hold s i r (if r_ret x < 0 then [] else [r_ret x]))"
  unfolding tri_def nsn_def wp hold_def relay_trace by (blast intro: held_open)

lemma tri_close: "tri (hold s i r [fd]) (nsn (Real_socketclose fd)) (\<lambda>_. hold s i r [])"
  by (auto simp: tri_def nsn_def wp hold_def intro: held_close)

lemma tri_native_error: "tri (hold s i r fds) native_error (\<lambda>_. hold s i r fds)"
  unfolding native_error_def by (intro tri_bind [OF tri_nsn] tri_return) simp_all

lemma relay_set: "i < length (nssl_relays t) \<Longrightarrow> relay j (set_relay i f t) = (if j = i then f (relay i t) else relay j t)"
  by (simp add: relay_def set_relay_def)

lemma held_set: "held s i fds t \<Longrightarrow> held s i fds (set_relay i f t)"
  by (auto simp: held_def relay_def set_relay_def)

lemma tri_stop: "tri (hold s i fresh_relay fds) (nssl_relay_stop_slot (int i)) (\<lambda>_. hold s i (fresh_relay\<lparr>rl_stop := True\<rparr>) fds)"
  by (auto simp: tri_def nssl_relay_stop_slot_def wp hold_def upd_relay_def held_set relay_set fresh_relay_def)
     (simp add: relay_set held_def)

definition refused :: "'z shim_scheme \<Rightarrow> nat \<Rightarrow> 'z shim_scheme \<Rightarrow> bool" where
  "refused s i t \<longleftrightarrow> hold s i (fresh_relay\<lparr>rl_stop := True\<rparr>) [] t"

lemma tri_stop_refused: "tri (hold s i fresh_relay []) (nssl_relay_stop_slot (int i)) (\<lambda>_. refused s i)"
  unfolding refused_def by (rule tri_stop)

lemma tri_fail: "tri (hold s i fresh_relay [fd]) (bridge_fail fd (int i) base) (\<lambda>x t. (\<exists>e. x = Inl e) \<and> refused s i t)"
  unfolding bridge_fail_def
  by (intro tri_bind [OF tri_native_error] tri_bind [OF tri_close] tri_bind [OF tri_stop_refused] tri_return) simp

lemma tri_cases:
  "tri P m (\<lambda>x t. (\<exists>e. x = Inl e) \<and> R t) \<Longrightarrow> tri P m (\<lambda>x t. case x of Inl e \<Rightarrow> R t | Inr y \<Rightarrow> Q y t)"
  by (auto simp: tri_def elim!: wp_mono)

lemma tri_listen:
  "tri (hold s i fresh_relay []) (bridge_listen (int i))
     (\<lambda>x t. case x of Inl e \<Rightarrow> refused s i t | Inr (fd, loc) \<Rightarrow> hold s i fresh_relay [fd] t)"
  unfolding bridge_listen_def Let_def
proof (rule tri_bind [OF tri_socket], rule tri_if)
  fix r :: resp
  assume "r_ret r < 0"
  then show "tri (hold s i fresh_relay (if r_ret r < 0 then [] else [r_ret r]))
      (do { nssl_relay_stop_slot (int i); return (Inl (- 4)) })
      (\<lambda>x t. case x of Inl e \<Rightarrow> refused s i t | Inr (fd, loc) \<Rightarrow> hold s i fresh_relay [fd] t)"
    by simp (intro tri_bind [OF tri_stop_refused] tri_return, simp)
qed (simp, intro tri_bind [OF tri_call] tri_if tri_bind [OF tri_close] tri_bind [OF tri_stop_refused]
       tri_bind [OF tri_nsn] tri_cases [OF tri_fail] tri_return, simp_all)

lemma tri_join:
  "tri (hold s i fresh_relay [fd]) (bridge_join sockfd (int i) fd loc)
     (\<lambda>x t. case x of Inl e \<Rightarrow> refused s i t | Inr a \<Rightarrow> 0 \<le> a \<and> hold s i fresh_relay [] t)"
  unfolding bridge_join_def
  by (intro tri_bind [OF tri_nsn] tri_if tri_cases [OF tri_fail] tri_bind [OF tri_close] tri_bind [OF tri_native_error]
        tri_bind [OF tri_stop_refused] tri_return) simp_all

text \<open>What \<open>i\<close> holds when the bridge stands, and what the routing table lost.\<close>

definition adopted :: "'z shim_scheme \<Rightarrow> int \<Rightarrow> nat \<Rightarrow> 'z shim_scheme \<Rightarrow> bool" where
  "adopted s sockfd i t \<longleftrightarrow> i < NSSL_RELAY_MAX \<and>
     (\<exists>a\<ge>0. relay i t = fresh_relay\<lparr>rl_ready := True, rl_native_fd := a, rl_lwfd := stack_fd sockfd s, rl_public_fd := sockfd\<rparr>) \<and>
     open_mask t = open_mask s AND NOT (bitm (nat sockfd)) \<and> mapped_fd t = (mapped_fd s)[nat sockfd := - 1] \<and>
     held s i [] (t\<lparr>open_mask := open_mask s, mapped_fd := mapped_fd s\<rparr>)"

lemma tri_adopt:
  "0 \<le> a \<Longrightarrow> tri (hold s i fresh_relay []) (bridge_adopt sockfd (stack_fd sockfd s) (int i) a) (\<lambda>_. adopted s sockfd i)"
  by (auto simp: tri_def bridge_adopt_def unmap_fd_def untrack_fd_def untrack_def upd_relay_def wp hold_def adopted_def
      held_def relay_def set_relay_def fresh_relay_def)

lemma tri_setup:
  "tri (hold s i fresh_relay []) (bridge_setup sockfd (stack_fd sockfd s) (int i))
     (\<lambda>x t. case x of Inl e \<Rightarrow> refused s i t | Inr _ \<Rightarrow> adopted s sockfd i t)"
  unfolding bridge_setup_def
proof (rule tri_bindE [OF tri_listen], goal_cases)
  case (1 x)
  show ?case
    by (cases x, simp)
       (intro tri_bindE [OF tri_join] tri_assume [OF tri_bind [OF tri_adopt]] tri_return, simp_all)
qed

lemma held_all_of: "held s i [] t \<Longrightarrow> \<not> rl_allocated (relay i t) \<Longrightarrow> held s 8 [] t"
  by (auto simp: held_def)

lemma held_one_of: "held s 8 fds t \<Longrightarrow> held s i fds t"
  by (auto simp: held_def)

lemma held_length: "held s i fds t \<Longrightarrow> length (nssl_relays t) = 8"
  by (simp add: held_def)

lemma tri_reap_slot: "j < 8 \<Longrightarrow> tri (held s 8 []) (reap_slot j) (\<lambda>_. held s 8 [])"
  unfolding tri_def
proof (intro allI impI)
  fix t assume j: "j < 8" and t: "held s 8 [] t"
  have q: "held s 8 [] (t\<lparr>trace := trace t @ [Os (OSIsThreadTerminated j)]\<rparr>)" (is "held s 8 [] ?u")
    by (rule held_silent [OF t]) simp_all
  have r: "held s 8 [] (?u\<lparr>trace := trace ?u @ [Os (OSJoinThread j)]\<rparr>)" (is "held s 8 [] ?v")
    by (rule held_silent [OF q]) simp_all
  let ?f = "\<lambda>r. r\<lparr>rl_public_fd := - 1, rl_allocated := False\<rparr>"
  have "held s 8 [] (set_relay j ?f ?v)"
    by (rule held_all_of [OF held_set [OF held_one_of [OF r]]]) (use j held_length [OF r] in \<open>simp add: relay_set\<close>)
  then show "wp (reap_slot j) (\<lambda>_. held s 8 []) t"
    using t q by (simp add: reap_slot_def upd_relay_def wp)
qed

lemma tri_reap: "tri (held s 8 []) nssl_relay_reap (\<lambda>_. held s 8 [])"
  unfolding tri_def nssl_relay_reap_def
  by (intro allI impI wp_for_each) (auto intro: triD [OF tri_reap_slot])

definition reserved :: "'z shim_scheme \<Rightarrow> int \<Rightarrow> 'z shim_scheme \<Rightarrow> bool" where
  "reserved s slot t \<longleftrightarrow> (if slot < 0 then held s 8 [] t else hold s (nat slot) fresh_relay [] t)"

lemma tri_reserve_from: "list_all (\<lambda>i. i < 8) is \<Longrightarrow> tri (held s 8 []) (reserve_from is) (reserved s)"
proof (induction "is")
  case Nil
  then show ?case by (simp add: tri_def wp reserved_def)
next
  case (Cons i "is")
  show ?case
    unfolding tri_def
  proof (intro allI impI)
    fix t assume t: "held s 8 [] t"
    have i: "i < 8" using Cons.prems by simp
    have rest: "wp (reserve_from is) (reserved s) t" using triD [OF Cons.IH t] Cons.prems by simp
    let ?f = "\<lambda>_. fresh_relay" and ?c = "Os (OSCreateThread i)" and ?d = "Os (OSResumeThread i)"
    have a: "held s i [] (set_relay i ?f t)" by (rule held_set [OF held_one_of [OF t]])
    then have b: "held s i [] ((set_relay i ?f t)\<lparr>trace := trace (set_relay i ?f t) @ [?c]\<rparr>)" (is "held s i [] ?u")
      by (rule held_silent) simp_all
    then have c: "held s i [] (?u\<lparr>trace := trace ?u @ [?d]\<rparr>)" (is "held s i [] ?v") by (rule held_silent) simp_all
    have rv: "relay i ?u = fresh_relay" "relay i ?v = fresh_relay" using i held_length [OF t] by (simp_all add: relay_set)
    have "held s 8 [] (set_relay i (\<lambda>r. r\<lparr>rl_allocated := False\<rparr>) ?u)"
      by (rule held_all_of [OF held_set [OF b]]) (use i held_length [OF b] in \<open>simp add: relay_set\<close>)
    then show "wp (reserve_from (i # is)) (reserved s) t"
      using rest c rv i by (simp add: upd_relay_def wp reserved_def hold_def)
  qed
qed

lemma tri_reserve: "tri (held s 8 []) nssl_relay_reserve (reserved s)"
  unfolding nssl_relay_reserve_def
  by (rule tri_bind [OF tri_reap tri_reserve_from]) (simp add: list_all_iff)

lemma held_sock:
  assumes "held s i fds t" and "\<not> lw_close (Sock c)"
  shows "wp (sock c) (\<lambda>_. held s i fds) t"
proof -
  have h: "held s i fds (t\<lparr>trace := trace t @ [Sock c]\<rparr>)" by (rule held_silent [OF assms]) simp_all
  then have "held s i fds (t\<lparr>trace := trace t @ [Sock c], errno := e\<rparr>)" for e by (simp add: held_def relay_def)
  with h show ?thesis by (simp add: sock_def set_errno_def wp split: option.split)
qed

text \<open>C30. Handing a socket to NSSL loses and duplicates nothing. Either the bridge stands: the
  descriptor is no longer routed by the shim, its lwIP socket belongs to exactly the relay slot
  returned, ready to run, and the listener is closed. Or it was refused: the descriptor is routed
  as before, every native socket opened on the way is closed, and a slot reserved on the way has
  been told to stop. No lwIP socket is closed, and no other relay in use is touched, in either
  case.\<close>

theorem bridge_ownership:
  assumes wf: "shim_wf s" and run: "run_state (bridge_ax_socket_to_nssl sockfd) s = ((res, slot), t)"
  shows "(if 0 \<le> slot then res = 1 \<and> adopted s sockfd (nat slot) t
     else held s 8 [] t \<or> (\<exists>i. refused s i t))"
proof -
  define Q where "Q = (\<lambda>(res :: int, slot) t. if 0 \<le> slot then res = 1 \<and> adopted s sockfd (nat slot) t
     else held s 8 [] t \<or> (\<exists>i. refused s i t))"
  have s: "held s 8 [] s" by (rule held_start) (use wf in \<open>simp add: shim_wf_def\<close>)
  have built: "tri (reserved s k) (do { b \<leftarrow> bridge_setup sockfd (stack_fd sockfd s) k;
      case b of Inl e \<Rightarrow> return (e, - 1) | Inr _ \<Rightarrow> return (1, k) }) Q" if "\<not> k < 0" for k
  proof -
    obtain i where i: "k = int i" using \<open>\<not> k < 0\<close> nonneg_int_cases [of k] by auto
    have r: "reserved s k = hold s i fresh_relay []" by (simp add: fun_eq_iff reserved_def i)
    show ?thesis
      unfolding r by (rule tri_bind [OF tri_setup [of s i sockfd, folded i]]) (auto simp: tri_def wp i Q_def split: sum.splits)
  qed
  have tail: "tri (held s 8 []) (do { k \<leftarrow> nssl_relay_reserve; if k < 0 then return (- 3, - 1)
      else do { b \<leftarrow> bridge_setup sockfd (stack_fd sockfd s) k;
        case b of Inl e \<Rightarrow> return (e, - 1) | Inr _ \<Rightarrow> return (1, k) } }) Q"
    by (rule tri_bind [OF tri_reserve], rule tri_if [OF tri_return built]) (auto simp: reserved_def Q_def)
  have "wp (bridge_ax_socket_to_nssl sockfd) Q s"
  proof (cases "is_foreign sockfd s")
    case True
    then show ?thesis using s by (simp add: bridge_ax_socket_to_nssl_def wp Q_def)
  next
    case False
    have "wp (do { r \<leftarrow> sock (Lwip_getpeername (stack_fd sockfd s));
        if r_ret r \<noteq> 0 then return (- 1, - 1) else if sin_family (r_lsa r) \<noteq> AF_INET then return (- 2, - 1)
        else do { k \<leftarrow> nssl_relay_reserve; if k < 0 then return (- 3, - 1)
          else do { b \<leftarrow> bridge_setup sockfd (stack_fd sockfd s) k;
            case b of Inl e \<Rightarrow> return (e, - 1) | Inr _ \<Rightarrow> return (1, k) } } }) Q s"
      by (rule wp_bind_I [OF held_sock [OF s]]) (auto simp: wp_return wp_if Q_def [THEN fun_cong] intro: triD [OF tail])
    with False show ?thesis by (simp add: bridge_ax_socket_to_nssl_def wp_bind wp_gets wp_if)
  qed
  from wpD [OF run this] show ?thesis by (simp add: Q_def)
qed

definition bridge_env :: "call list \<Rightarrow> call \<Rightarrow> resp" where
  "bridge_env h c = (case c of
     Sock (Lwip_getpeername fd) \<Rightarrow> resp0\<lparr>r_lsa := sin0\<lparr>sin_family := AF_INET\<rparr>\<rparr>
   | Os (OSCreateThread i) \<Rightarrow> resp0\<lparr>r_ret := 1\<rparr>
   | Nsn (Real_socket d t p) \<Rightarrow> resp0\<lparr>r_ret := 9\<rparr>
   | Nsn (Real_accept fd a n) \<Rightarrow> resp0\<lparr>r_ret := 10\<rparr>
   | Module (Lwip_inet_pton n) \<Rightarrow> resp0\<lparr>r_ret := 1, r_val := 0x7f000001\<rparr>
   | _ \<Rightarrow> resp0)"

lemma resp0_simps: "r_ret resp0 = 0" "r_errno resp0 = None"
  by (simp_all add: resp0_def)

lemma bridge_env_run:
  "fst (run_state (bridge_ax_socket_to_nssl 7) (shim_one bridge_env)) = (1, 0)"
  by (simp add: runs bridge_ax_socket_to_nssl_def nssl_relay_reserve_def nssl_relay_reap_def upt_conv_Cons reap_slot_def
    relay_def set_relay_def upd_relay_def bridge_setup_def bridge_listen_def bridge_join_def bridge_adopt_def
    bridge_env_def sock_def nsn_def shim_start resp0_simps stack_fd_def unmap_fd_def sin0_def fresh_relay_def)
theorem bridge_ownership_witness:
  "\<exists>t. run_state (bridge_ax_socket_to_nssl 7) (shim_one bridge_env) = ((1, 0), t) \<and> adopted (shim_one bridge_env) 7 0 t"
proof -
  let ?r = "run_state (bridge_ax_socket_to_nssl 7) (shim_one bridge_env)"
  have r: "?r = ((1, 0), snd ?r)" using bridge_env_run by (metis prod.collapse)
  have "shim_wf (shim_one bridge_env)" by (simp add: shim_wf_def shim_start)
  from bridge_ownership [OF this r] r show ?thesis by auto
qed

end
