(* ===== verification/Wiiload_Proxy.thy ===== *)
theory Wiiload_Proxy
  imports Nssl_Relay Shim_Dns
begin

text \<open>
  The Wiiload proxy of \<^verbatim>\<open>aroma_module/nsysnet_shim.c\<close>: a private listener on the adapter's address
  whose connections are pumped to the native Wiiload server on the loopback interface. It runs on
  the module's worker only, a few rounds per poll. The connection's fields are a \<open>pump\<close>, which the
  rounds of a poll pass along and which is stored back when the poll ends.
\<close>

abbreviation (input) "WIILOAD_PROXY_BUF \<equiv> (8192 :: nat)"

record proxy = dns +
  listener_fd :: int
  wl_pump :: pump
  wl_ax_to_native :: u64
  wl_native_to_ax :: u64

section \<open>Operations\<close>

definition wl_empty :: "pump \<Rightarrow> pump" where
  "wl_empty p = p\<lparr>native_rx_open := False, ax_rx_open := False, native_wr_shutdown := False, ax_wr_shutdown := False,
     to_native := (to_native p)\<lparr>p_off := 0, p_len := 0\<rparr>, to_ax := (to_ax p)\<lparr>p_off := 0, p_len := 0\<rparr>\<rparr>"

definition close_native_side :: "int \<Rightarrow> ('z shim_scheme, unit) state" where
  "close_native_side fd = whenM (0 \<le> fd) (do { nsn (Real_shutdown fd SHUT_RDWR); nsn (Real_socketclose fd); return () })"

definition close_ax_side :: "int \<Rightarrow> ('z shim_scheme, unit) state" where
  "close_ax_side fd = whenM (0 \<le> fd) (do { sock (Lwip_shutdown fd SHUT_RDWR); sock (Lwip_close fd); return () })"

definition wiiload_proxy_reset_connection :: "('z proxy_scheme, unit) state" where
  "wiiload_proxy_reset_connection = do {
     p \<leftarrow> gets wl_pump;
     close_native_side (native_fd p);
     close_ax_side (ax_fd p);
     modify (\<lambda>s. s\<lparr>wl_pump := wl_empty (p\<lparr>native_fd := (if 0 \<le> native_fd p then - 1 else native_fd p),
                        ax_fd := (if 0 \<le> ax_fd p then - 1 else ax_fd p)\<rparr>),
                   wl_ax_to_native := 0, wl_native_to_ax := 0\<rparr>) }"

definition nsysnet_shim_wiiload_proxy_stop :: "('z proxy_scheme, unit) state" where
  "nsysnet_shim_wiiload_proxy_stop = do {
     wiiload_proxy_reset_connection;
     l \<leftarrow> gets listener_fd;
     whenM (0 \<le> l) (do { sock (Lwip_close l); modify (\<lambda>s. s\<lparr>listener_fd := - 1\<rparr>) }) }"

definition close_failed :: "int \<Rightarrow> int \<Rightarrow> ('z shim_scheme, int) state" where
  "close_failed fd base = do { e \<leftarrow> gets errno; sock (Lwip_close fd); return (base - e) }"

definition proxy_listen :: "int \<Rightarrow> ('z proxy_scheme, int) state" where
  "proxy_listen listener = do {
     sock (Lwip_setsockopt listener SOL_SOCKET 4 (Some (int_bytes 1)) 4);
     ip \<leftarrow> ax_net_ip4;
     b \<leftarrow> sock (Lwip_bind listener (sin0\<lparr>sin_len := 16, sin_family := AF_INET, sin_port := 4299, sin_addr := ip\<rparr>));
     if r_ret b \<noteq> 0 then close_failed listener (- 100)
     else do {
       l \<leftarrow> sock (Lwip_listen listener 1);
       if r_ret l \<noteq> 0 then close_failed listener (- 200)
       else do {
         k \<leftarrow> set_nonblocking listener 1;
         if k \<noteq> 0 then close_failed listener (- 300)
         else do { modify (\<lambda>s. s\<lparr>listener_fd := listener\<rparr>); return 1 } } } }"

definition nsysnet_shim_wiiload_proxy_start :: "('z proxy_scheme, int) state" where
  "nsysnet_shim_wiiload_proxy_start = do {
     l \<leftarrow> gets listener_fd;
     if 0 \<le> l then return 1
     else do {
       forced \<leftarrow> gets force_native;
       ready \<leftarrow> ax_net_stack_ready;
       ip \<leftarrow> (if forced \<or> \<not> ready then return 0 else ax_net_ip4);
       if forced \<or> \<not> ready \<or> ip = 0 then return 0
       else do {
         r \<leftarrow> sock (Lwip_socket 2 SOCK_STREAM 0);
         if r_ret r < 0 then return (- 1) else proxy_listen (r_ret r) } } }"

definition wiiload_proxy_connect_native :: "('z proxy_scheme, int) state" where
  "wiiload_proxy_connect_native = do {
     r \<leftarrow> nsn (Real_socket NSN_AF_INET SOCK_STREAM 0);
     if r_ret r < 0 then return (- 1)
     else do {
       a \<leftarrow> ext (Module (Lwip_inet_pton ''127.0.0.1''));
       if r_ret a \<noteq> 1 then do { nsn (Real_socketclose (r_ret r)); return (- 2) }
       else do {
         c \<leftarrow> native (Real_connect (r_ret r) (Some (nsn0\<lparr>nsn_family := 2, nsn_port := 4299, nsn_addr := r_val a\<rparr>)) 16);
         if r_ret c \<noteq> 0 then do { e \<leftarrow> native_error; nsn (Real_socketclose (r_ret r)); return (- 100 - e) }
         else do { modify (\<lambda>s. s\<lparr>wl_pump := (wl_pump s)\<lparr>native_fd := r_ret r\<rparr>\<rparr>); return 0 } } } }"

definition wl_flush_native :: "pump \<Rightarrow> bool \<Rightarrow> ('z proxy_scheme, pump_out) state" where
  "wl_flush_native p progress =
     (if p_len (to_native p) = 0 then return (Go p progress)
      else do {
        n \<leftarrow> native_send p;
        if 0 < n then do {
          modify (\<lambda>s. s\<lparr>wl_ax_to_native := wl_ax_to_native s + word_of_int n\<rparr>);
          return (Go (p\<lparr>to_native := pipe_advance (nat n) (to_native p)\<rparr>) True) }
        else if n < 0 then do {
          e \<leftarrow> native_error;
          if e \<noteq> NSN_ERR_WOULDBLOCK then return (Leave p) else return (Go p progress) }
        else return (Go p progress) })"

definition wl_fill_native :: "pump \<Rightarrow> bool \<Rightarrow> ('z proxy_scheme, pump_out) state" where
  "wl_fill_native p progress =
     (if \<not> (p_len (to_native p) = 0 \<and> ax_rx_open p) then return (Go p progress)
      else do {
        (n, d) \<leftarrow> ax_recv WIILOAD_PROXY_BUF p;
        if 0 < n then return (Go (p\<lparr>to_native := pipe_load (nat n) d (to_native p)\<rparr>) True)
        else if n = 0 then return (Go (p\<lparr>ax_rx_open := False\<rparr>) True)
        else do {
          e \<leftarrow> gets errno;
          if \<not> would_block e then return (Leave p) else return (Go p progress) } })"

definition wl_shut_native :: "pump \<Rightarrow> bool \<Rightarrow> ('z proxy_scheme, pump_out) state" where
  "wl_shut_native p progress =
     (if \<not> ax_rx_open p \<and> p_len (to_native p) = 0 \<and> \<not> native_wr_shutdown p
      then do { native_shut p; return (Go (p\<lparr>native_wr_shutdown := True\<rparr>) True) }
      else return (Go p progress))"

definition wl_flush_ax :: "pump \<Rightarrow> bool \<Rightarrow> ('z proxy_scheme, pump_out) state" where
  "wl_flush_ax p progress =
     (if p_len (to_ax p) = 0 then return (Go p progress)
      else do {
        n \<leftarrow> ax_send p;
        if 0 < n then do {
          modify (\<lambda>s. s\<lparr>wl_native_to_ax := wl_native_to_ax s + word_of_int n\<rparr>);
          return (Go (p\<lparr>to_ax := pipe_advance (nat n) (to_ax p)\<rparr>) True) }
        else do {
          e \<leftarrow> gets errno;
          if n < 0 \<and> \<not> would_block e then return (Leave p) else return (Go p progress) } })"

definition wl_fill_ax :: "pump \<Rightarrow> bool \<Rightarrow> ('z proxy_scheme, pump_out) state" where
  "wl_fill_ax p progress =
     (if \<not> (p_len (to_ax p) = 0 \<and> native_rx_open p) then return (Go p progress)
      else do {
        (n, d) \<leftarrow> native_recv WIILOAD_PROXY_BUF p;
        if 0 < n then return (Go (p\<lparr>to_ax := pipe_load (nat n) d (to_ax p)\<rparr>) True)
        else if n = 0 then return (Go (p\<lparr>native_rx_open := False\<rparr>) True)
        else do {
          e \<leftarrow> native_error;
          if e = NSN_ERR_WOULDBLOCK then return (Go p progress)
          else if nssl_native_peer_closed e then return (Go (p\<lparr>native_rx_open := False\<rparr>) True)
          else return (Leave p) } })"

definition wl_shut_ax :: "pump \<Rightarrow> bool \<Rightarrow> ('z proxy_scheme, pump_out) state" where
  "wl_shut_ax p progress =
     (if \<not> native_rx_open p \<and> p_len (to_ax p) = 0 \<and> \<not> ax_wr_shutdown p
      then do { ax_shut p; return (Go (p\<lparr>ax_wr_shutdown := True\<rparr>) True) }
      else return (Go p progress))"

definition wl_end :: "pump \<Rightarrow> bool \<Rightarrow> ('z proxy_scheme, pump_out) state" where
  "wl_end p progress = return (if pump_finished p then Leave p else Go p progress)"

definition wl_round :: "pump \<Rightarrow> ('z proxy_scheme, pump_out) state" where
  "wl_round p =
     go (go (go (go (go (go (wl_flush_native p False) wl_fill_native) wl_shut_native)
       wl_flush_ax) wl_fill_ax) wl_shut_ax) wl_end"

fun wl_rounds :: "nat \<Rightarrow> pump \<Rightarrow> ('z proxy_scheme, pump_out) state" where
  "wl_rounds 0 p = return (Go p True)"
| "wl_rounds (Suc k) p = go (wl_round p) (\<lambda>q b. if b then wl_rounds k q else return (Go q b))"

text \<open>Leaving the rounds, after an error or when both directions are done, closes the
  connection.\<close>

definition wl_pump_some :: "('z proxy_scheme, unit) state" where
  "wl_pump_some = do {
     p \<leftarrow> gets wl_pump;
     r \<leftarrow> wl_rounds 64 p;
     (case r of Go q b \<Rightarrow> modify (\<lambda>s. s\<lparr>wl_pump := q\<rparr>)
      | Leave q \<Rightarrow> do { modify (\<lambda>s. s\<lparr>wl_pump := q\<rparr>); wiiload_proxy_reset_connection }) }"

text \<open>Taking a connection; False when there is none.\<close>

definition wl_accept :: "('z proxy_scheme, bool) state" where
  "wl_accept = do {
     set_errno 0;
     l \<leftarrow> gets listener_fd;
     r \<leftarrow> sock (Lwip_accept l False);
     if r_ret r < 0 then return False
     else do {
       set_nonblocking (r_ret r) 1;
       modify (\<lambda>s. s\<lparr>wl_pump := (wl_pump s)\<lparr>ax_fd := r_ret r\<rparr>\<rparr>);
       c \<leftarrow> wiiload_proxy_connect_native;
       if c \<noteq> 0 then do { wiiload_proxy_reset_connection; return False }
       else do {
         modify (\<lambda>s. s\<lparr>wl_pump := (wl_empty (wl_pump s))\<lparr>ax_rx_open := True, native_rx_open := True\<rparr>,
                       wl_ax_to_native := 0, wl_native_to_ax := 0\<rparr>);
         return True } } }"

definition nsysnet_shim_wiiload_proxy_poll :: "('z proxy_scheme, unit) state" where
  "nsysnet_shim_wiiload_proxy_poll = do {
     l \<leftarrow> gets listener_fd;
     idle \<leftarrow> gets (\<lambda>s. ax_fd (wl_pump s) < 0);
     whenM (0 \<le> l) (do {
       ok \<leftarrow> (if idle then wl_accept else return True);
       whenM ok wl_pump_some }) }"

section \<open>The proxy obeys the law of a pump\<close>

lemma conveys_wl_steps:
  "conveys sz p (wl_flush_native p b)" "conveys WIILOAD_PROXY_BUF p (wl_fill_native p b)" "conveys sz p (wl_shut_native p b)"
  "conveys sz p (wl_flush_ax p b)" "conveys WIILOAD_PROXY_BUF p (wl_fill_ax p b)" "conveys sz p (wl_shut_ax p b)" "conveys sz p (wl_end p b)"
proof -
  show "conveys sz p (wl_flush_native p b)"
    unfolding wl_flush_native_def
    by (intro conveys_if conveys_return conveys_leave conveys_native_send conveys_quiet quiet) simp_all
  show "conveys WIILOAD_PROXY_BUF p (wl_fill_native p b)"
    unfolding wl_fill_native_def
    by (intro conveys_if conveys_return conveys_ax_recv; simp)
       (auto intro!: conveys_return conveys_leave conveys_quiet quiet conveys_ax_eof)
  show "conveys sz p (wl_shut_native p b)"
    unfolding wl_shut_native_def by (intro conveys_if conveys_native_shut conveys_return) simp_all
  show "conveys sz p (wl_flush_ax p b)"
    unfolding wl_flush_ax_def
    by (intro conveys_if conveys_return conveys_leave conveys_ax_send conveys_quiet quiet) simp_all
  show "conveys WIILOAD_PROXY_BUF p (wl_fill_ax p b)"
    unfolding wl_fill_ax_def
    by (intro conveys_if conveys_return conveys_native_recv; simp)
       (auto intro!: conveys_return conveys_leave conveys_quiet quiet conveys_native_eof)
  show "conveys sz p (wl_shut_ax p b)"
    unfolding wl_shut_ax_def by (intro conveys_if conveys_ax_shut conveys_return) simp_all
  show "conveys sz p (wl_end p b)"
    unfolding wl_end_def by (cases "pump_finished p") (auto intro: conveys_return conveys_leave)
qed

lemma conveys_wl_round: "conveys WIILOAD_PROXY_BUF p (wl_round p)"
  unfolding wl_round_def by (intro conveys_go conveys_wl_steps)

lemma conveys_wl_rounds: "conveys WIILOAD_PROXY_BUF p (wl_rounds k p)"
  by (induction k arbitrary: p) (auto intro!: conveys_return conveys_go conveys_wl_round)

text \<open>The calls that end a connection.\<close>

definition hangup :: "pump \<Rightarrow> call list" where
  "hangup p = (if 0 \<le> native_fd p then [Nsn (Real_shutdown (native_fd p) SHUT_RDWR), Nsn (Real_socketclose (native_fd p))] else []) @
     (if 0 \<le> ax_fd p then [Sock (Lwip_shutdown (ax_fd p) SHUT_RDWR), Sock (Lwip_close (ax_fd p))] else [])"

lemma wp_reset:
  "wp wiiload_proxy_reset_connection (\<lambda>_ t. trace t = trace s @ hangup (wl_pump s) \<and> env t = env s \<and>
     ax_fd (wl_pump t) < 0 \<and> native_fd (wl_pump t) < 0 \<and> p_len (to_ax (wl_pump t)) = 0 \<and> p_len (to_native (wl_pump t)) = 0) s"
  by (auto simp: wiiload_proxy_reset_connection_def close_native_side_def close_ax_side_def nsn_def sock_def set_errno_def
      wp hangup_def wl_empty_def split: option.split)


text \<open>The state at the start of the module.\<close>

definition proxy_init :: "(call list \<Rightarrow> call \<Rightarrow> resp) \<Rightarrow> proxy" where
  "proxy_init e = dns.extend (shim.extend (shim_init e)
       (dns.fields 0 (replicate 8 0) (replicate 8 \<lparr>as_state = ASYNC_DNS_FREE, as_ticket = 0, as_name = []\<rparr>) 1))
     (proxy.fields (- 1) (wl_empty (pump_start WIILOAD_PROXY_BUF (- 1) (- 1))) 0 0)"

lemma proxy_init_simps [simp]:
  "env (proxy_init e) = e" "trace (proxy_init e) = []"
  by (simp_all add: proxy_init_def dns.defs shim.defs shim_init_def net_init_def net.defs proxy.defs)

definition wl_busy :: proxy where
  "wl_busy = (proxy_init pump_env)\<lparr>listener_fd := 4, wl_pump := pump_start WIILOAD_PROXY_BUF 3 5\<rparr>"


end
