(* ===== verification/Shim_Lifecycle.thy ===== *)
theory Shim_Lifecycle
  imports Wiiload_Proxy
begin

text \<open>
  The life of the shim across titles: installing the hooks, the FTP handoff, quiescing and draining
  at a title's end, the clean slate at a title's start, and the probe's brackets. A hook is
  registered with the function patcher by its name; the handle it returns is in \<open>r_val\<close>.
\<close>

record life = proxy +
  installed :: bool
  handles :: "u32 list"
  probe_thread :: u32
  probe_owns_accepting :: bool
  probe_baseline_open_mask :: u32
  probe_baseline_ai_mask :: u32

section \<open>Hooks\<close>

definition add_patch :: "string \<Rightarrow> ('z life_scheme, bool) state" where
  "add_patch name = do {
     r \<leftarrow> ext (Patcher (FunctionPatcher_AddFunctionPatch name));
     if r_ret r = 0 then do {
       modify (\<lambda>s. if length (handles s) < 128 then s\<lparr>handles := handles s @ [r_val r]\<rparr> else s);
       return True }
     else return False }"

fun add_patches :: "string list \<Rightarrow> ('z life_scheme, bool) state" where
  "add_patches [] = return True"
| "add_patches (n # ns) = do { ok \<leftarrow> add_patch n; if ok then add_patches ns else return False }"

definition socket_hooks :: "string list" where
  "socket_hooks = [''socket'', ''socketclose'', ''socketclose_all'', ''bind'', ''connect'', ''listen'', ''accept'',
     ''shutdown'', ''send'', ''sendto'', ''sendto_multi'', ''sendto_multi_ex'', ''recv'', ''recvfrom'', ''recvfrom_ex'',
     ''recvfrom_multi'', ''select'', ''setsockopt'', ''getsockopt'', ''getsockname'', ''getpeername'', ''socketlasterr'',
     ''NSSLCreateConnection'', ''NSSLDestroyConnection'', ''NSSLFinish'']"

definition dns_hooks :: "string list" where
  "dns_hooks = [''gethostbyname'', ''gethostbyaddr'', ''getaddrinfo'', ''getaddrinfo_rs'', ''getaddrinfo_async'',
     ''getaddrinfo_async_rs'', ''dns_abort_by_hname'', ''freeaddrinfo'', ''getnameinfo'', ''get_h_errno'', ''gai_strerror'']"

definition remove_all :: "u32 list \<Rightarrow> ('z life_scheme, unit) state" where
  "remove_all hs = for_each (rev hs) (\<lambda>h. do { ext (Patcher (FunctionPatcher_RemoveFunctionPatch h)); return () })"

definition undo_patches :: "('z life_scheme, unit) state" where
  "undo_patches = do {
     hs \<leftarrow> gets handles;
     remove_all hs;
     modify (\<lambda>s. s\<lparr>handles := []\<rparr>);
     ext (Patcher FunctionPatcher_DeInitLibrary);
     return () }"

definition nsysnet_shim_install :: "('z life_scheme, int) state" where
  "nsysnet_shim_install = do {
     already \<leftarrow> gets installed;
     if already then do { modify (\<lambda>s. s\<lparr>accepting_sockets := True\<rparr>); return 0 }
     else do {
       modify (\<lambda>s. s\<lparr>accepting_sockets := False, open_mask := 0, ai_owned := replicate 8 0\<rparr>);
       i \<leftarrow> ext (Patcher FunctionPatcher_InitLibrary);
       if r_ret i \<noteq> 0 then return (- 1)
       else do {
         ext (Patcher FunctionPatcher_GetVersion);
         sys \<leftarrow> gets system_dns;
         ok \<leftarrow> add_patches (socket_hooks @ (if sys then [] else dns_hooks));
         if ok then do { modify (\<lambda>s. s\<lparr>installed := True, accepting_sockets := True\<rparr>); return 0 }
         else do { undo_patches; return (- 1) } } } }"

section \<open>Handing the FTP listener over\<close>

text \<open>Whether \<open>fd\<close> is a native TCP socket bound to port 21 without a peer.\<close>

definition ftp_listener :: "nat \<Rightarrow> ('z shim_scheme, bool) state" where
  "ftp_listener fd = do {
     n \<leftarrow> native (Real_getsockname (int fd) (Some nsn0) (Some 16));
     if r_ret n \<noteq> 0 then return False
     else if nsn_family (r_nsa n) \<noteq> 2 \<or> nsn_ntohs (nsn_port (r_nsa n)) \<noteq> AX_FTP_PORT then return False
     else do {
       t \<leftarrow> native (Real_getsockopt (int fd) NSN_SOL_SOCKET NSN_SO_TYPE (Some (int_bytes 0)) (Some 4));
       if r_ret t \<noteq> 0 \<or> int_at (r_data t) \<noteq> SOCK_STREAM then return False
       else do {
         p \<leftarrow> native (Real_getpeername (int fd) (Some nsn0) (Some 16));
         return (r_ret p \<noteq> 0) } } }"

fun mark_listeners :: "nat list \<Rightarrow> ('z shim_scheme, int) state" where
  "mark_listeners [] = return 0"
| "mark_listeners (fd # fds) = do {
     candidate \<leftarrow> gets (\<lambda>s. is_foreign (int fd) s \<and> ftp_restart_mask s AND bitm fd = 0);
     hit \<leftarrow> (if candidate then ftp_listener fd else return False);
     whenM hit (modify (\<lambda>s. s\<lparr>ftp_restart_mask := ftp_restart_mask s OR bitm fd\<rparr>));
     n \<leftarrow> mark_listeners fds;
     return (if hit then n + 1 else n) }"

definition nsysnet_shim_request_ftp_handoff :: "('z shim_scheme, int) state" where
  "nsysnet_shim_request_ftp_handoff = do {
     accepts \<leftarrow> gets shim_accepts;
     ready \<leftarrow> ax_net_stack_ready;
     ip \<leftarrow> (if accepts \<and> ready then ax_net_ip4 else return 0);
     if ip = 0 then return 0 else mark_listeners [0..<32] }"

section \<open>Ends and beginnings of titles\<close>

definition nsysnet_shim_quiesce :: "('z life_scheme, unit) state" where
  "nsysnet_shim_quiesce = modify (\<lambda>s. s\<lparr>accepting_sockets := False, probe_owns_accepting := False\<rparr>)"

definition drain_fd :: "u32 \<Rightarrow> nat \<Rightarrow> ('z shim_scheme, unit) state" where
  "drain_fd m fd = whenM (m AND bitm fd \<noteq> 0) (do {
     lwfd \<leftarrow> gets (\<lambda>s. mapped_fd s ! fd);
     modify (\<lambda>s. s\<lparr>mapped_fd := (mapped_fd s)[fd := - 1]\<rparr>);
     whenM (0 \<le> lwfd) (do { sock (Lwip_shutdown lwfd SHUT_RDWR); sock (Lwip_close lwfd); return () });
     modify (compat_state_reset (int fd)) })"

definition nsysnet_shim_drain_owned_sockets :: "('z shim_scheme, unit) state" where
  "nsysnet_shim_drain_owned_sockets = do {
     m \<leftarrow> gets open_mask;
     modify (\<lambda>s. s\<lparr>open_mask := 0\<rparr>);
     for_each [0..<32] (drain_fd m) }"

definition nsysnet_shim_stop_accepting :: "nat \<Rightarrow> ('z life_scheme, unit option) state" where
  "nsysnet_shim_stop_accepting fuel = do {
     nsysnet_shim_wiiload_proxy_stop;
     nsysnet_shim_quiesce;
     nssl_shutdown_all_tracked;
     nssl_relay_stop_all fuel }"

definition clear_title :: "'z life_scheme \<Rightarrow> 'z life_scheme" where
  "clear_title s = s\<lparr>open_mask := 0, mapped_fd := replicate 32 (- 1), probe_thread := 0,
     probe_baseline_open_mask := 0, probe_baseline_ai_mask := 0, ax_activity_pending := 0,
     ftp_native_bind_ip := 0, ftp_ax_redirect_active := False, ftp_restart_mask := 0,
     nssl_public_mask := 0, nssl_connection_by_fd := replicate 32 (- 1)\<rparr>"

definition nsysnet_shim_begin_title :: "nat \<Rightarrow> ('z life_scheme, unit option) state" where
  "nsysnet_shim_begin_title fuel = do {
     w \<leftarrow> nsysnet_shim_stop_accepting fuel;
     (case w of None \<Rightarrow> return None
      | Some _ \<Rightarrow> do {
          modify clear_title;
          modify compat_state_reset_all;
          async_dns_reset_all;
          modify (\<lambda>s. s\<lparr>ai_owned := replicate 8 0\<rparr>);
          return (Some ()) }) }"

section \<open>The probe\<close>

definition probe_ai_mask :: "u32 list \<Rightarrow> u32" where
  "probe_ai_mask ais = fold (\<lambda>i m. if ais ! i \<noteq> 0 then m OR bitm i else m) [0..<8] 0"

definition nsysnet_shim_begin_probe :: "('z life_scheme, int) state" where
  "nsysnet_shim_begin_probe = do {
     busy \<leftarrow> gets (\<lambda>s. probe_thread s \<noteq> 0);
     if busy then return (- 3)
     else do {
       ready \<leftarrow> ax_net_stack_ready;
       ip \<leftarrow> (if ready then ax_net_address else return None);
       if \<not> ready \<or> ip = None then return (- 4)
       else do {
         was \<leftarrow> gets accepting_sockets;
         k \<leftarrow> nsysnet_shim_install;
         if k < 0 then return (- 1)
         else do {
           th \<leftarrow> ext (Os OSGetCurrentThread);
           modify (\<lambda>s. s\<lparr>probe_baseline_open_mask := open_mask s, probe_baseline_ai_mask := probe_ai_mask (ai_owned s),
             probe_thread := r_val th, accepting_sockets := True, probe_owns_accepting := (\<not> was)\<rparr>);
           return 0 } } } }"

definition nsysnet_shim_end_probe :: "nat \<Rightarrow> ('z life_scheme, int option) state" where
  "nsysnet_shim_end_probe fuel = do {
     th \<leftarrow> ext (Os OSGetCurrentThread);
     mine \<leftarrow> gets (\<lambda>s. probe_thread s = r_val th);
     leak \<leftarrow> gets (\<lambda>s. open_mask s AND NOT (probe_baseline_open_mask s) \<noteq> 0 \<or>
       probe_ai_mask (ai_owned s) AND NOT (probe_baseline_ai_mask s) \<noteq> 0);
     if \<not> mine then return (Some (- 3))
     else if leak then return (Some (- 5))
     else do {
       owns \<leftarrow> gets probe_owns_accepting;
       w \<leftarrow> (if owns then nsysnet_shim_stop_accepting fuel else return (Some ()));
       (case w of None \<Rightarrow> return None
        | Some _ \<Rightarrow> do {
            modify (\<lambda>s. s\<lparr>probe_owns_accepting := False, probe_thread := 0,
              probe_baseline_open_mask := 0, probe_baseline_ai_mask := 0\<rparr>);
            return (Some 0) }) } }"

section \<open>Hooks are all there or none\<close>

fun added_by :: "resp \<Rightarrow> call \<Rightarrow> (string \<times> u32) list" where
  "added_by r (Patcher (FunctionPatcher_AddFunctionPatch n)) = (if r_ret r = 0 then [(n, r_val r)] else [])"
| "added_by r c = []"

fun removed_by :: "resp \<Rightarrow> call \<Rightarrow> u32 list" where
  "removed_by r (Patcher (FunctionPatcher_RemoveFunctionPatch h)) = [h]"
| "removed_by r c = []"

text \<open>Since \<open>s\<close> the hooks \<open>hs\<close> were added, none removed, and the shim changed in nothing else.\<close>

definition patched :: "'z life_scheme \<Rightarrow> (string \<times> u32) list \<Rightarrow> 'z life_scheme \<Rightarrow> bool" where
  "patched s hs t \<longleftrightarrow> (\<exists>cs. t = s\<lparr>trace := trace s @ cs, handles := handles s @ map snd hs\<rparr> \<and>
     collect added_by (env s) (trace s) cs = hs \<and> collect removed_by (env s) (trace s) cs = [])"

lemma patched_trans:
  assumes "patched s hs t" and "patched t ks u"
  shows "patched s (hs @ ks) u"
proof -
  obtain cs where cs: "t = s\<lparr>trace := trace s @ cs, handles := handles s @ map snd hs\<rparr>"
      "collect added_by (env s) (trace s) cs = hs" "collect removed_by (env s) (trace s) cs = []"
    using assms(1) by (auto simp: patched_def)
  obtain ds where ds: "u = t\<lparr>trace := trace t @ ds, handles := handles t @ map snd ks\<rparr>"
      "collect added_by (env t) (trace t) ds = ks" "collect removed_by (env t) (trace t) ds = []"
    using assms(2) by (auto simp: patched_def)
  show ?thesis
    unfolding patched_def by (rule exI [of _ "cs @ ds"]) (use cs ds in simp)
qed

lemma patched_none: "t = s\<lparr>trace := trace s @ cs\<rparr> \<Longrightarrow> (\<And>c r. c \<in> set cs \<Longrightarrow> added_by r c = [] \<and> removed_by r c = []) \<Longrightarrow> patched s [] t"
  unfolding patched_def by (rule exI [of _ cs]) (simp add: collect_none)

lemma wp_add_patches:
  assumes "length (handles s) + length ns \<le> 128"
  shows "wp (add_patches ns) (\<lambda>ok t. \<exists>hs. patched s hs t \<and> (ok \<longrightarrow> map fst hs = ns)) s"
  using assms
proof (induction ns arbitrary: s)
  case Nil
  then show ?case using patched_none [of s s "[]"] by (auto simp: wp)
next
  case (Cons n ns)
  let ?c = "Patcher (FunctionPatcher_AddFunctionPatch n)"
  let ?r = "env s (trace s) ?c"
  let ?t = "s\<lparr>trace := trace s @ [?c], handles := handles s @ [r_val ?r]\<rparr>"
  have n: "length (handles s) < 128" using Cons.prems by simp
  show ?case
  proof (cases "r_ret ?r = 0")
    case False
    have "patched s [] (s\<lparr>trace := trace s @ [?c]\<rparr>)"
      unfolding patched_def by (rule exI [of _ "[?c]"]) (use False in simp)
    with False show ?thesis by (auto simp: add_patch_def wp)
  next
    case True
    have t: "patched s [(n, r_val ?r)] ?t"
      unfolding patched_def by (rule exI [of _ "[?c]"]) (use True in simp)
    have "wp (add_patches ns) (\<lambda>ok u. \<exists>hs. patched ?t hs u \<and> (ok \<longrightarrow> map fst hs = ns)) ?t"
      by (rule Cons.IH) (use Cons.prems in simp)
    then have "wp (add_patches ns) (\<lambda>ok u. \<exists>hs. patched s hs u \<and> (ok \<longrightarrow> map fst hs = n # ns)) ?t"
      by (rule wp_mono) (use patched_trans [OF t] in fastforce)
    with True n show ?thesis by (simp add: add_patch_def wp)
  qed
qed

lemma run_remove_all:
  "run_state (remove_all hs) s = ((), s\<lparr>trace := trace s @ map (\<lambda>h. Patcher (FunctionPatcher_RemoveFunctionPatch h)) (rev hs)\<rparr>)"
proof -
  have "run_state (for_each ks (\<lambda>h. do { ext (Patcher (FunctionPatcher_RemoveFunctionPatch h)); return () })) s =
      ((), s\<lparr>trace := trace s @ map (\<lambda>h. Patcher (FunctionPatcher_RemoveFunctionPatch h)) ks\<rparr>)" for ks
    by (induction ks arbitrary: s) simp_all
  then show ?thesis by (simp add: remove_all_def)
qed

lemma collect_removes: "collect removed_by e h (map (\<lambda>k. Patcher (FunctionPatcher_RemoveFunctionPatch k)) ks) = ks"
  "collect added_by e h (map (\<lambda>k. Patcher (FunctionPatcher_RemoveFunctionPatch k)) ks) = []"
  by (induction ks arbitrary: h) simp_all

lemma hooks_fit: "length (socket_hooks @ (if sys then [] else dns_hooks)) \<le> 128"
  by (simp add: socket_hooks_def dns_hooks_def)

text \<open>C32. Installing the shim is all or nothing: it returns 0 with every hook registered, in
  order, its handle kept, and the shim accepting; or it returns - 1 with the shim not accepting
  and not installed, and every hook that was registered on the way removed again, last first,
  before the library is closed.\<close>

theorem install_all_or_nothing:
  assumes fresh: "\<not> installed s" "handles s = []" and run: "run_state nsysnet_shim_install s = (r, t)"
  shows "\<exists>cs. trace t = trace s @ cs \<and>
    (r = 0 \<and> installed t \<and> accepting_sockets t \<and> collect removed_by (env s) (trace s) cs = [] \<and>
       handles t = map snd (collect added_by (env s) (trace s) cs) \<and>
       map fst (collect added_by (env s) (trace s) cs) = socket_hooks @ (if system_dns s then [] else dns_hooks) \<or>
     r = - 1 \<and> \<not> installed t \<and> \<not> accepting_sockets t \<and> handles t = [] \<and>
       collect removed_by (env s) (trace s) cs = rev (map snd (collect added_by (env s) (trace s) cs)))"
proof -
  let ?i = "Patcher FunctionPatcher_InitLibrary" and ?v = "Patcher FunctionPatcher_GetVersion"
  let ?hooks = "socket_hooks @ (if system_dns s then [] else dns_hooks)"
  let ?s0 = "s\<lparr>accepting_sockets := False, open_mask := 0, ai_owned := replicate 8 0\<rparr>"
  let ?s = "?s0\<lparr>trace := trace s @ [?i, ?v]\<rparr>"
  show ?thesis
  proof (cases "r_ret (env s (trace s) ?i) = 0")
    case False
    then have "r = - 1" "t = ?s0\<lparr>trace := trace s @ [?i]\<rparr>"
      using run fresh by (simp_all add: nsysnet_shim_install_def)
    then show ?thesis using fresh by (intro exI [of _ "[?i]"]) simp
  next
    case True
    obtain ok u where a: "run_state (add_patches ?hooks) ?s = (ok, u)" by (metis prod.exhaust)
    have "length (handles ?s) + length ?hooks \<le> 128" using fresh(2) hooks_fit by simp
    from wpD [OF a wp_add_patches [OF this]] obtain hs where hs: "patched ?s hs u" "ok \<longrightarrow> map fst hs = ?hooks" by blast
    then obtain cs where u: "u = ?s\<lparr>trace := trace ?s @ cs, handles := map snd hs\<rparr>"
        "collect added_by (env s) (trace s @ [?i, ?v]) cs = hs" "collect removed_by (env s) (trace s @ [?i, ?v]) cs = []"
      using fresh(2) by (auto simp: patched_def)
    have t: "run_state nsysnet_shim_install s = run_state (if ok
        then do { modify (\<lambda>s. s\<lparr>installed := True, accepting_sockets := True\<rparr>); return 0 }
        else do { undo_patches; return (- 1) }) u"
      using fresh True a by (simp add: nsysnet_shim_install_def)
    show ?thesis
    proof (cases ok)
      case True
      then show ?thesis using t run u hs fresh by (intro exI [of _ "?i # ?v # cs"]) auto
    next
      case False
      let ?ks = "map (\<lambda>h. Patcher (FunctionPatcher_RemoveFunctionPatch h)) (rev (map snd hs))"
      have "t = u\<lparr>trace := trace u @ ?ks @ [Patcher FunctionPatcher_DeInitLibrary], handles := []\<rparr>" "r = - 1"
        using t run False u(1) by (simp_all add: undo_patches_def run_remove_all)
      then show ?thesis
        using u fresh by (intro exI [of _ "?i # ?v # cs @ ?ks @ [Patcher FunctionPatcher_DeInitLibrary]"]) (simp add: collect_removes)
    qed
  qed
qed

definition life_init :: "(call list \<Rightarrow> call \<Rightarrow> resp) \<Rightarrow> life" where
  "life_init e = proxy.extend (proxy_init e) (life.fields False [] 0 False 0 0)"

lemma life_init_simps [simp]:
  "env (life_init e) = e" "trace (life_init e) = []" "\<not> installed (life_init e)" "handles (life_init e) = []"
  by (simp_all add: life_init_def proxy.defs life.defs proxy_init_def dns.defs shim.defs shim_init_def net_init_def net.defs)

text \<open>A patcher that refuses the third hook.\<close>

definition patch_env :: "call list \<Rightarrow> call \<Rightarrow> resp" where
  "patch_env h c = (case c of Patcher (FunctionPatcher_AddFunctionPatch n) \<Rightarrow>
     if n = ''socketclose_all'' then resp0\<lparr>r_ret := - 1\<rparr> else resp0\<lparr>r_val := of_nat (length h)\<rparr> | _ \<Rightarrow> resp0)"

theorem install_all_or_nothing_witness:
  "\<exists>cs. trace (snd (run_state nsysnet_shim_install (life_init patch_env))) = cs \<and>
     fst (run_state nsysnet_shim_install (life_init patch_env)) = - 1 \<and>
     collect removed_by patch_env [] cs = rev (map snd (collect added_by patch_env [] cs))"
proof -
  let ?r = "run_state nsysnet_shim_install (life_init patch_env)"
  have "fst ?r = - 1"
    by (simp add: nsysnet_shim_install_def socket_hooks_def add_patch_def patch_env_def undo_patches_def run_remove_all resp0_def runs)
  then show ?thesis
    using install_all_or_nothing [of "life_init patch_env", OF _ _ prod.collapse [symmetric]] by auto
qed

end
