(* ===== verification/Module_Config.thy ===== *)
theory Module_Config
  imports Main "HOL-Library.Sublist"
begin

text \<open>
  The configuration file of \<^verbatim>\<open>aroma_module/main.c\<close>: the settings, and how \<open>load_config\<close> reads them
  from the text of the file. The C library's \<open>fgets\<close>, \<open>strstr\<close> and \<open>sscanf\<close> are functions on
  strings; a number that does not fit a C \<open>int\<close>, which C leaves undefined, is read as it stands.
\<close>

record config =
  config_keep_first :: bool
  config_shim_trace :: int
  config_system_dns :: bool
  config_force_native :: bool
  config_nssl_bridge :: bool
  config_ftp_handoff :: bool
  config_wiiload_proxy :: bool

definition config0 :: config where
  "config0 = \<lparr>config_keep_first = True, config_shim_trace = 0, config_system_dns = False,
     config_force_native = False, config_nssl_bridge = False, config_ftp_handoff = True,
     config_wiiload_proxy = False\<rparr>"

section \<open>Reading lines\<close>

abbreviation (input) "NL \<equiv> CHR 0x0A"

text \<open>\<open>fgets(b, n + 1, f)\<close>: the line stored and what is left of the file.\<close>

fun fgets :: "nat \<Rightarrow> string \<Rightarrow> string \<times> string" where
  "fgets 0 cs = ([], cs)"
| "fgets n [] = ([], [])"
| "fgets (Suc n) (c # cs) =
     (if c = NL then ([c], cs) else case fgets n cs of (l, r) \<Rightarrow> (c # l, r))"

lemma fgets_length: "length (snd (fgets n cs)) + length (fst (fgets n cs)) = length cs"
  by (induction n cs rule: fgets.induct) (auto split: prod.splits)

lemma fgets_takes: "0 < n \<Longrightarrow> cs \<noteq> [] \<Longrightarrow> fst (fgets n cs) \<noteq> []"
  by (cases n; cases cs) (auto split: prod.splits)

function file_lines :: "string \<Rightarrow> string list" where
  "file_lines cs = (if cs = [] then [] else fst (fgets 127 cs) # file_lines (snd (fgets 127 cs)))"
  by pat_completeness auto
termination
proof (relation "measure length")
  fix cs :: string
  assume "cs \<noteq> []"
  then have "0 < length (fst (fgets 127 cs))"
    using fgets_takes [of 127 cs] by (simp add: length_greater_0_conv)
  then have *: "length (snd (fgets 127 cs)) < length cs"
    using fgets_length [of 127 cs] by linarith
  show "(snd (fgets 127 cs), cs) \<in> measure length"
    using * by simp
qed simp

declare file_lines.simps [simp del]

section \<open>Reading settings\<close>

fun strstr :: "string \<Rightarrow> string \<Rightarrow> bool" where
  "strstr [] n \<longleftrightarrow> n = []"
| "strstr (c # cs) n \<longleftrightarrow> prefix n (c # cs) \<or> strstr cs n"

definition isspace :: "char \<Rightarrow> bool" where
  "isspace c \<longleftrightarrow> c \<in> {CHR '' '', CHR 0x09, CHR 0x0A, CHR 0x0B, CHR 0x0C, CHR 0x0D}"

definition isdigit :: "char \<Rightarrow> bool" where
  "isdigit c \<longleftrightarrow> (48 :: nat) \<le> of_char c \<and> of_char c \<le> (57 :: nat)"

definition digits_value :: "string \<Rightarrow> int" where
  "digits_value ds = fold (\<lambda>d v. 10 * v + (of_char d - 48)) ds 0"

definition scan_int :: "string \<Rightarrow> int option" where
  "scan_int cs =
     (let cs1 = dropWhile isspace cs;
          neg = (cs1 \<noteq> [] \<and> hd cs1 = CHR ''-'');
          cs2 = (if cs1 \<noteq> [] \<and> (hd cs1 = CHR ''-'' \<or> hd cs1 = CHR ''+'') then tl cs1 else cs1);
          ds = takeWhile isdigit cs2
      in if ds = [] then None else Some (if neg then - digits_value ds else digits_value ds))"

text \<open>\<open>sscanf(b, "shim_trace=%d", &level)\<close>.\<close>

definition sscanf_trace :: "string \<Rightarrow> int option" where
  "sscanf_trace b = (if prefix ''shim_trace='' b then scan_int (drop 11 b) else None)"

text \<open>The two options of a setting: the second is looked for only when the first is absent.\<close>

definition pick :: "string \<Rightarrow> string \<Rightarrow> bool \<Rightarrow> string \<Rightarrow> bool \<Rightarrow> bool" where
  "pick b yes v no old = (if strstr b yes then v else if strstr b no then \<not> v else old)"

definition clamp_level :: "int \<Rightarrow> int" where
  "clamp_level level = (let l = (if level < 0 then 0 else level) in if l > 2 then 2 else l)"

definition read_mode :: "string \<Rightarrow> config \<Rightarrow> config" where
  "read_mode b c = c\<lparr>config_keep_first := pick b ''mode=always'' False ''mode=keep_first'' (config_keep_first c)\<rparr>"

definition read_dns :: "string \<Rightarrow> config \<Rightarrow> config" where
  "read_dns b c = c\<lparr>config_system_dns := pick b ''dns=system'' True ''dns=ax'' (config_system_dns c)\<rparr>"

definition read_route :: "string \<Rightarrow> config \<Rightarrow> config" where
  "read_route b c = c\<lparr>config_force_native := pick b ''route=native'' True ''route=ax'' (config_force_native c)\<rparr>"

definition read_nssl :: "string \<Rightarrow> config \<Rightarrow> config" where
  "read_nssl b c = c\<lparr>config_nssl_bridge := pick b ''nssl=bridge'' True ''nssl=native'' (config_nssl_bridge c)\<rparr>"

definition read_ftp :: "string \<Rightarrow> config \<Rightarrow> config" where
  "read_ftp b c = c\<lparr>config_ftp_handoff := pick b ''ftp_handoff=on'' True ''ftp_handoff=off'' (config_ftp_handoff c)\<rparr>"

definition read_wiiload :: "string \<Rightarrow> config \<Rightarrow> config" where
  "read_wiiload b c = c\<lparr>config_wiiload_proxy :=
     (if strstr b ''wiiload_proxy=on'' \<or> strstr b ''wiiload_handoff=on'' then True
      else if strstr b ''wiiload_proxy=off'' \<or> strstr b ''wiiload_handoff=off'' then False
      else config_wiiload_proxy c)\<rparr>"

definition read_trace :: "string \<Rightarrow> config \<Rightarrow> config" where
  "read_trace b c = (case sscanf_trace b of None \<Rightarrow> c | Some level \<Rightarrow> c\<lparr>config_shim_trace := clamp_level level\<rparr>)"

definition c_string :: "string \<Rightarrow> string" where
  "c_string line = takeWhile (\<lambda>ch. ch \<noteq> CHR 0x00) line"

definition config_line :: "string \<Rightarrow> config \<Rightarrow> config" where
  "config_line line c = (let b = c_string line in
     read_trace b (read_wiiload b (read_ftp b (read_nssl b (read_route b (read_dns b (read_mode b c)))))))"

definition read_config :: "string \<Rightarrow> config \<Rightarrow> config" where
  "read_config text c = fold config_line (file_lines text) c"

section \<open>What a file means\<close>

text \<open>The file that states every setting.\<close>

definition mode_line where
  "mode_line c = (if config_keep_first c then ''mode=keep_first'' else ''mode=always'')"
definition dns_line where
  "dns_line c = (if config_system_dns c then ''dns=system'' else ''dns=ax'')"
definition route_line where
  "route_line c = (if config_force_native c then ''route=native'' else ''route=ax'')"
definition nssl_line where
  "nssl_line c = (if config_nssl_bridge c then ''nssl=bridge'' else ''nssl=native'')"
definition ftp_line where
  "ftp_line c = (if config_ftp_handoff c then ''ftp_handoff=on'' else ''ftp_handoff=off'')"
definition wiiload_line where
  "wiiload_line c = (if config_wiiload_proxy c then ''wiiload_proxy=on'' else ''wiiload_proxy=off'')"
definition trace_line where
  "trace_line c = ''shim_trace='' @ (if config_shim_trace c = 0 then ''0'' else if config_shim_trace c = 1 then ''1'' else ''2'')"

definition render_config :: "config \<Rightarrow> string" where
  "render_config c = concat (map (\<lambda>l. l @ [NL])
     [mode_line c, trace_line c, dns_line c, route_line c, nssl_line c, ftp_line c, wiiload_line c])"

lemma fgets_line:
  assumes "NL \<notin> set l" and "length l < n"
  shows "fgets n (l @ NL # r) = (l @ [NL], r)"
  using assms
proof (induction l arbitrary: n)
  case Nil
  then show ?case by (cases n) simp_all
next
  case (Cons a l)
  then show ?case by (cases n) auto
qed

definition plain_line :: "string \<Rightarrow> bool" where
  "plain_line l \<longleftrightarrow> NL \<notin> set l \<and> length l < 127"

lemma file_lines_concat:
  assumes "\<forall>l \<in> set ls. plain_line l"
  shows "file_lines (concat (map (\<lambda>l. l @ [NL]) ls)) = map (\<lambda>l. l @ [NL]) ls"
  using assms
proof (induction ls)
  case Nil
  then show ?case by (simp add: file_lines.simps)
next
  case (Cons l ls)
  then show ?case
    by (subst file_lines.simps) (simp add: fgets_line plain_line_def)
qed

lemmas line_defs = mode_line_def dns_line_def route_line_def nssl_line_def ftp_line_def wiiload_line_def trace_line_def

lemma lines_plain:
  "plain_line (mode_line c)" "plain_line (trace_line c)" "plain_line (dns_line c)" "plain_line (route_line c)"
  "plain_line (nssl_line c)" "plain_line (ftp_line c)" "plain_line (wiiload_line c)"
  by (simp_all add: line_defs plain_line_def)

text \<open>What a line says: the options found in it and the trace level read from it.\<close>

definition options :: "string list" where
  "options = [''mode=always'', ''mode=keep_first'', ''dns=system'', ''dns=ax'', ''route=native'', ''route=ax'', ''nssl=bridge'', ''nssl=native'', ''ftp_handoff=on'', ''ftp_handoff=off'', ''wiiload_proxy=on'', ''wiiload_handoff=on'', ''wiiload_proxy=off'', ''wiiload_handoff=off'']"

definition hits :: "string \<Rightarrow> string list \<times> int option" where
  "hits l = (filter (strstr (c_string l)) options, sscanf_trace (c_string l))"

lemma hits_lines:
  "hits (''mode=always'' @ [NL]) = ([''mode=always''], None)"
  "hits (''mode=keep_first'' @ [NL]) = ([''mode=keep_first''], None)"
  "hits (''dns=system'' @ [NL]) = ([''dns=system''], None)"
  "hits (''dns=ax'' @ [NL]) = ([''dns=ax''], None)"
  "hits (''route=native'' @ [NL]) = ([''route=native''], None)"
  "hits (''route=ax'' @ [NL]) = ([''route=ax''], None)"
  "hits (''nssl=bridge'' @ [NL]) = ([''nssl=bridge''], None)"
  "hits (''nssl=native'' @ [NL]) = ([''nssl=native''], None)"
  "hits (''ftp_handoff=on'' @ [NL]) = ([''ftp_handoff=on''], None)"
  "hits (''ftp_handoff=off'' @ [NL]) = ([''ftp_handoff=off''], None)"
  "hits (''wiiload_proxy=on'' @ [NL]) = ([''wiiload_proxy=on''], None)"
  "hits (''wiiload_proxy=off'' @ [NL]) = ([''wiiload_proxy=off''], None)"
  "hits (''shim_trace=0'' @ [NL]) = ([], Some 0)"
  "hits (''shim_trace=1'' @ [NL]) = ([], Some 1)"
  "hits (''shim_trace=2'' @ [NL]) = ([], Some 2)"
  by code_simp+

lemmas reads = read_mode_def read_dns_def read_route_def read_nssl_def read_ftp_def read_wiiload_def read_trace_def pick_def

lemma strstr_hits: "k \<in> set options \<Longrightarrow> hits l = (ks, tr) \<Longrightarrow> strstr (c_string l) k \<longleftrightarrow> k \<in> set ks"
  by (auto simp: hits_def)

lemma config_line_hits:
  assumes h: "hits l = (ks, tr)"
  shows "config_line l d = \<lparr>
     config_keep_first = (if ''mode=always'' \<in> set ks then False else if ''mode=keep_first'' \<in> set ks then True else config_keep_first d),
     config_shim_trace = (case tr of None \<Rightarrow> config_shim_trace d | Some v \<Rightarrow> clamp_level v),
     config_system_dns = (if ''dns=system'' \<in> set ks then True else if ''dns=ax'' \<in> set ks then False else config_system_dns d),
     config_force_native = (if ''route=native'' \<in> set ks then True else if ''route=ax'' \<in> set ks then False else config_force_native d),
     config_nssl_bridge = (if ''nssl=bridge'' \<in> set ks then True else if ''nssl=native'' \<in> set ks then False else config_nssl_bridge d),
     config_ftp_handoff = (if ''ftp_handoff=on'' \<in> set ks then True else if ''ftp_handoff=off'' \<in> set ks then False else config_ftp_handoff d),
     config_wiiload_proxy = (if ''wiiload_proxy=on'' \<in> set ks \<or> ''wiiload_handoff=on'' \<in> set ks then True
       else if ''wiiload_proxy=off'' \<in> set ks \<or> ''wiiload_handoff=off'' \<in> set ks then False else config_wiiload_proxy d)\<rparr>"
proof -
  have tr: "sscanf_trace (c_string l) = tr" using h by (simp add: hits_def)
  have "\<forall>k \<in> set options. strstr (c_string l) k \<longleftrightarrow> k \<in> set ks"
    using strstr_hits [OF _ h] by blast
  then have ks: "strstr (c_string l) ''mode=always'' = (''mode=always'' \<in> set ks)" "strstr (c_string l) ''mode=keep_first'' = (''mode=keep_first'' \<in> set ks)" "strstr (c_string l) ''dns=system'' = (''dns=system'' \<in> set ks)" "strstr (c_string l) ''dns=ax'' = (''dns=ax'' \<in> set ks)" "strstr (c_string l) ''route=native'' = (''route=native'' \<in> set ks)" "strstr (c_string l) ''route=ax'' = (''route=ax'' \<in> set ks)" "strstr (c_string l) ''nssl=bridge'' = (''nssl=bridge'' \<in> set ks)" "strstr (c_string l) ''nssl=native'' = (''nssl=native'' \<in> set ks)" "strstr (c_string l) ''ftp_handoff=on'' = (''ftp_handoff=on'' \<in> set ks)" "strstr (c_string l) ''ftp_handoff=off'' = (''ftp_handoff=off'' \<in> set ks)" "strstr (c_string l) ''wiiload_proxy=on'' = (''wiiload_proxy=on'' \<in> set ks)" "strstr (c_string l) ''wiiload_handoff=on'' = (''wiiload_handoff=on'' \<in> set ks)" "strstr (c_string l) ''wiiload_proxy=off'' = (''wiiload_proxy=off'' \<in> set ks)" "strstr (c_string l) ''wiiload_handoff=off'' = (''wiiload_handoff=off'' \<in> set ks)"
    by (simp_all only: options_def list.set ball_simps(5,7) insert_iff simp_thms)
  show ?thesis
    unfolding config_line_def Let_def reads ks tr
    by (cases d; cases tr) (simp_all split del: if_split cong: if_cong)
qed

lemma line_effect:
  "config_line (mode_line c @ [NL]) d = d\<lparr>config_keep_first := config_keep_first c\<rparr>"
  "config_line (dns_line c @ [NL]) d = d\<lparr>config_system_dns := config_system_dns c\<rparr>"
  "config_line (route_line c @ [NL]) d = d\<lparr>config_force_native := config_force_native c\<rparr>"
  "config_line (nssl_line c @ [NL]) d = d\<lparr>config_nssl_bridge := config_nssl_bridge c\<rparr>"
  "config_line (ftp_line c @ [NL]) d = d\<lparr>config_ftp_handoff := config_ftp_handoff c\<rparr>"
  "config_line (wiiload_line c @ [NL]) d = d\<lparr>config_wiiload_proxy := config_wiiload_proxy c\<rparr>"
  by (simp_all add: line_defs config_line_hits [OF hits_lines(1)] config_line_hits [OF hits_lines(2)]
      config_line_hits [OF hits_lines(3)] config_line_hits [OF hits_lines(4)] config_line_hits [OF hits_lines(5)]
      config_line_hits [OF hits_lines(6)] config_line_hits [OF hits_lines(7)] config_line_hits [OF hits_lines(8)]
      config_line_hits [OF hits_lines(9)] config_line_hits [OF hits_lines(10)] config_line_hits [OF hits_lines(11)]
      config_line_hits [OF hits_lines(12)] del: append_Cons append_Nil)

lemma trace_effect:
  assumes "0 \<le> config_shim_trace c" and "config_shim_trace c \<le> 2"
  shows "config_line (trace_line c @ [NL]) d = d\<lparr>config_shim_trace := config_shim_trace c\<rparr>"
proof -
  have "trace_line c = ''shim_trace=0'' \<and> config_shim_trace c = 0 \<or> trace_line c = ''shim_trace=1'' \<and> config_shim_trace c = 1
      \<or> trace_line c = ''shim_trace=2'' \<and> config_shim_trace c = 2"
    using assms by (auto simp: trace_line_def)
  then show ?thesis
    by (elim disjE conjE)
       (simp_all add: config_line_hits [OF hits_lines(13)] config_line_hits [OF hits_lines(14)]
         config_line_hits [OF hits_lines(15)] clamp_level_def del: append_Cons append_Nil)
qed

lemma level_in_range: "0 \<le> clamp_level l" "clamp_level l \<le> 2"
  by (simp_all add: clamp_level_def)

lemma trace_kept [simp]:
  "config_shim_trace (read_mode b c) = config_shim_trace c" "config_shim_trace (read_dns b c) = config_shim_trace c"
  "config_shim_trace (read_route b c) = config_shim_trace c" "config_shim_trace (read_nssl b c) = config_shim_trace c"
  "config_shim_trace (read_ftp b c) = config_shim_trace c" "config_shim_trace (read_wiiload b c) = config_shim_trace c"
  by (simp_all add: reads)

lemma line_in_range:
  assumes "0 \<le> config_shim_trace c \<and> config_shim_trace c \<le> 2"
  shows "0 \<le> config_shim_trace (config_line l c) \<and> config_shim_trace (config_line l c) \<le> 2"
  using assms level_in_range by (simp add: config_line_def Let_def read_trace_def split: option.split)



text \<open>An option inside a comment takes effect, since the options are looked for anywhere in a line.\<close>

lemma config_comment_applies:
  "config_force_native (read_config ''# route=native would disable the adapter'' config0)"
  by code_simp

end
