(* ===== verification/Aroma_Module.thy ===== *)
theory Aroma_Module
  imports Shim_Lifecycle Net_Lifecycle Module_Config
begin

text \<open>
  The module itself: \<^verbatim>\<open>aroma_module/main.c\<close> and \<^verbatim>\<open>aroma_module/iosu_patch.c\<close>. A worker thread owns the
  adapter, the network layer and the shim while a title runs; the hooks of the module system start
  it, signal it and wait for it. This is the build with the shim enabled.

  \<^item> The state is that of the shim, with the module's settings and flags added. The local pointer
    \<open>ax\<close> of the worker is a boolean, since the driver has one device object.
  \<^item> Other threads act on the worker only by raising \<open>stopping\<close> (and \<open>title_ending\<close>, or by quiescing
    the shim). Whenever the worker loads a flag it first asks \<open>Other_threads\<close> which of these signals
    arrived; the theorems hold for every answer.
  \<^item> Completions of receive transfers that arrive during a poll are \<open>ev\<close>, any function of the history.
  \<^item> Loops without a bound of their own take fuel and answer \<open>None\<close> when it runs out.
  \<^item> Log lines are left out; opening and closing the UDP log is kept.
\<close>

record modul = life +
  config :: config
  stopping :: bool
  title_ending :: bool
  started :: bool
  worker_generation :: u32
  menu_seen :: bool
  watchdog_started :: bool

abbreviation (input) "WORKER \<equiv> (8 :: nat)"
abbreviation (input) "WATCHDOG \<equiv> (9 :: nat)"

section \<open>Kernel patch\<close>

definition GUARD_ADDR :: u32 where "GUARD_ADDR = 0x10114338"
definition GUARD_BEQ :: u32 where "GUARD_BEQ = 0x0A000019"
definition GUARD_NOP :: u32 where "GUARD_NOP = 0xE1A00000"

definition mocha :: "module_call \<Rightarrow> (('z drv_scheme), resp) state" where
  "mocha c = ext (Module c)"

definition patch_guard :: "('z drv_scheme, int) state" where
  "patch_guard = do {
     r \<leftarrow> mocha (Mocha_IOSUKernelRead32 GUARD_ADDR);
     if r_ret r \<noteq> 0 then return (- 1)
     else if r_val r = GUARD_NOP then return 0
     else if r_val r \<noteq> GUARD_BEQ then return (- 1)
     else do {
       w \<leftarrow> mocha (Mocha_IOSUKernelWrite32 GUARD_ADDR GUARD_NOP);
       if r_ret w \<noteq> 0 then return (- 1)
       else do {
         b \<leftarrow> mocha (Mocha_IOSUKernelRead32 GUARD_ADDR);
         return (if r_ret b \<noteq> 0 \<or> r_val b \<noteq> GUARD_NOP then - 1 else 0) } } }"

definition iosu_patch_apply :: "('z drv_scheme, int) state" where
  "iosu_patch_apply = do {
     i \<leftarrow> mocha Mocha_InitLibrary;
     if r_ret i \<noteq> 0 then return (- 1)
     else do { rc \<leftarrow> patch_guard; mocha Mocha_DeInitLibrary; return rc } }"

section \<open>Settings\<close>

definition config_paths :: "string list" where
  "config_paths = [''fs:/vol/external01/wiiu/ax88179/config.ini'',
     ''/fs/vol/external01/wiiu/ax88179/config.ini'', ''fs:/wiiu/ax88179/config.ini'']"

fun open_first :: "string list \<Rightarrow> ('z modul_scheme, bytes option) state" where
  "open_first [] = return None"
| "open_first (p # ps) = do {
     r \<leftarrow> ext (Module (Fopen p));
     if r_ret r \<noteq> 0 then return (Some (r_data r)) else open_first ps }"

definition load_config :: "('z modul_scheme, unit) state" where
  "load_config = do {
     f \<leftarrow> open_first config_paths;
     (case f of None \<Rightarrow> return ()
      | Some bs \<Rightarrow> do {
          modify (\<lambda>s. s\<lparr>config := read_config (map (\<lambda>b. char_of (unat b)) bs) (config s)\<rparr>);
          ext (Module Fclose);
          return () }) }"

section \<open>Signals and time\<close>

definition signal_title_end :: "('z modul_scheme, unit) state" where
  "signal_title_end = do {
     modify (\<lambda>s. s\<lparr>title_ending := True\<rparr>);
     modify (\<lambda>s. s\<lparr>stopping := True\<rparr>) }"

definition signal_stop :: "('z modul_scheme, unit) state" where
  "signal_stop = do {
     nsysnet_shim_quiesce;
     modify (\<lambda>s. s\<lparr>stopping := True\<rparr>) }"

definition other_threads :: "('z modul_scheme, unit) state" where
  "other_threads = do {
     r \<leftarrow> ext (Module Other_threads);
     if r_ret r = 1 then signal_stop else if r_ret r = 2 then signal_title_end else return () }"

definition load_stopping :: "('z modul_scheme, bool) state" where
  "load_stopping = do { other_threads; gets stopping }"

definition load_title_ending :: "('z modul_scheme, bool) state" where
  "load_title_ending = do { other_threads; gets title_ending }"

definition os_time :: "('z drv_scheme, int) state" where
  "os_time = do { r \<leftarrow> ext (Os OSGetTime); return (r_ret r) }"

definition ms_ticks :: "nat \<Rightarrow> ('z drv_scheme, int) state" where
  "ms_ticks ms = do { r \<leftarrow> ext (Os (OSMillisecondsToTicks ms)); return (r_ret r) }"

definition sleep_for :: "nat \<Rightarrow> ('z drv_scheme, unit) state" where
  "sleep_for ms = do { t \<leftarrow> ms_ticks ms; ext (Os (OSSleepTicks t)); return () }"

text \<open>A loop that checks \<open>stopping\<close> and sleeps 100 ms, \<open>n\<close> times; false when it was told to stop.\<close>

fun guard_wait :: "nat \<Rightarrow> ('z modul_scheme, bool) state" where
  "guard_wait 0 = return True"
| "guard_wait (Suc n) = do {
     stop \<leftarrow> load_stopping;
     if stop then return False else do { sleep_for 100; guard_wait n } }"

section \<open>Watchdog\<close>

definition mark_names :: "string list" where
  "mark_names = [''worker started'', ''udp log inited'', ''iosu patch'', ''adapter opened'',
     ''tx queue inited'', ''tcpip_init returned'', ''tcpip thread created'', ''tcpip thread entered'',
     ''setup_cb entered'', ''netif added'', ''dhcp started'', ''ax_net_start done'', ''poll loop running'',
     ''link up'', ''dhcp bound'', ''shim installed'']"

text \<open>The step reported as the last one reached, if the bring-up is reported as stuck.\<close>

definition last_mark :: "u32 \<Rightarrow> int" where
  "last_mark m = fold (\<lambda>i l. if m AND bitm i \<noteq> 0 then int i else l) [0..<16] (- 1)"

definition watchdog_report :: "u32 \<Rightarrow> string option" where
  "watchdog_report m =
     (if m AND bitm 14 \<noteq> 0 then None
      else if m AND bitm 3 = 0 then None
      else Some (if last_mark m \<ge> 0 then mark_names ! nat (last_mark m) else ''none (worker never ran)''))"

definition run_watchdog :: "('z modul_scheme, string option) state" where
  "run_watchdog = do {
     ok \<leftarrow> guard_wait 450;
     if \<not> ok then return None
     else do {
       stop \<leftarrow> load_stopping;
       if stop then return None
       else do { m \<leftarrow> gets ax_progress; return (watchdog_report m) } } }"

section \<open>Recovering the adapter\<close>

definition poll :: "nat \<Rightarrow> (call list \<Rightarrow> rx_event list list) \<Rightarrow> ('z net_scheme, int option) state" where
  "poll fuel ev = do { h \<leftarrow> gets trace; ax_net_poll fuel (ev h) }"

text \<open>Waiting for an address on the reopened adapter: whether it came.\<close>

fun recover_wait :: "nat \<Rightarrow> nat \<Rightarrow> (call list \<Rightarrow> rx_event list list) \<Rightarrow> int \<Rightarrow> ('z modul_scheme, bool option) state" where
  "recover_wait 0 fuel ev deadline = return None"
| "recover_wait (Suc k) fuel ev deadline = do {
     stop \<leftarrow> load_stopping;
     if stop then return (Some False)
     else do {
       now \<leftarrow> os_time;
       if \<not> now < deadline then return (Some False)
       else do {
         n \<leftarrow> poll fuel ev;
         if n = None then return None
         else if n = Some (- 2) then return (Some False)
         else do {
           ip \<leftarrow> ax_net_address;
           if ip \<noteq> None then do { ext (Module WHBLogUdpInit); return (Some True) }
           else do { sleep_for 20; recover_wait k fuel ev deadline } } } } }"

definition close_cold :: "('z drv_scheme, unit) state" where
  "close_cold = do { ax88179_close; ax88179_force_cold_next_open }"

text \<open>One attempt, from the sleep to the loop's end: \<open>Some True\<close> when it returns 0.\<close>

definition recover_try :: "nat \<Rightarrow> (call list \<Rightarrow> rx_event list list) \<Rightarrow> ('z modul_scheme, bool option) state" where
  "recover_try fuel ev = do {
     sleep_for 1000;
     candidate \<leftarrow> ax88179_open;
     (case candidate of Inl e \<Rightarrow> return (Some False)
      | Inr _ \<Rightarrow> do {
          r \<leftarrow> ax_net_start;
          if r \<noteq> 0 then do { close_cold; return (Some False) }
          else do {
            now \<leftarrow> os_time;
            t \<leftarrow> ms_ticks 35000;
            healthy \<leftarrow> recover_wait fuel fuel ev (now + t);
            (case healthy of None \<Rightarrow> return None
             | Some True \<Rightarrow> return (Some True)
             | Some False \<Rightarrow> do {
                 d \<leftarrow> ax_net_stop fuel;
                 if d = None then return None
                 else do { close_cold; return (Some False) } }) } }) }"

fun recover_loop :: "nat \<Rightarrow> nat \<Rightarrow> (call list \<Rightarrow> rx_event list list) \<Rightarrow> ('z modul_scheme, int option) state" where
  "recover_loop 0 fuel ev = return None"
| "recover_loop (Suc k) fuel ev = do {
     stop \<leftarrow> load_stopping;
     if stop then return (Some (- 1))
     else do {
       r \<leftarrow> recover_try fuel ev;
       (case r of None \<Rightarrow> return None
        | Some True \<Rightarrow> return (Some 0)
        | Some False \<Rightarrow> recover_loop k fuel ev) } }"

text \<open>The result is 0 exactly when \<open>*current\<close> is the new device; otherwise \<open>*current\<close> is NULL.\<close>

definition recover_adapter :: "nat \<Rightarrow> (call list \<Rightarrow> rx_event list list) \<Rightarrow> bool \<Rightarrow> ('z modul_scheme, int option) state" where
  "recover_adapter fuel ev current = do {
     ext (Module WHBLogUdpDeinit);
     d \<leftarrow> (if current then ax_net_stop fuel else return (Some ()));
     if d = None then return None
     else do {
       whenM current ax88179_close;
       ax88179_force_cold_next_open;
       recover_loop fuel fuel ev } }"

section \<open>The worker\<close>

fun dhcp_wait :: "nat \<Rightarrow> nat \<Rightarrow> (call list \<Rightarrow> rx_event list list) \<Rightarrow> int \<Rightarrow> ('z modul_scheme, bool option) state" where
  "dhcp_wait 0 fuel ev deadline = return None"
| "dhcp_wait (Suc k) fuel ev deadline = do {
     now \<leftarrow> os_time;
     if \<not> now < deadline then return (Some False)
     else do {
       n \<leftarrow> poll fuel ev;
       (case n of None \<Rightarrow> return None
        | Some i \<Rightarrow>
            if i < 0 then do {
              late \<leftarrow> os_time;
              if deadline \<le> late then return (Some False)
              else do { sleep_for 100; dhcp_wait k fuel ev deadline } }
            else do {
              ip \<leftarrow> ax_net_address;
              whenM (ip \<noteq> None) (ax_mark 14);
              late \<leftarrow> os_time;
              if deadline \<le> late then return (Some (ip \<noteq> None))
              else do {
                sleep_for 100;
                if ip \<noteq> None then return (Some True) else dhcp_wait k fuel ev deadline } }) } }"

text \<open>The variables of the polling loop. The address is kept as a number, \<open>None\<close> for the empty
  string.\<close>

record loop_vars =
  previous_ip :: "u32 option"
  last_beat :: u32
  ftp_handoff_pending :: bool
  ftp_handoff_next :: int
  ftp_handoff_deadline :: int

definition loop_vars0 :: loop_vars where
  "loop_vars0 = \<lparr>previous_ip = None, last_beat = 0, ftp_handoff_pending = False,
     ftp_handoff_next = 0, ftp_handoff_deadline = 0\<rparr>"

definition first_handoff :: "('z modul_scheme, loop_vars) state" where
  "first_handoff = do {
     on \<leftarrow> gets (\<lambda>s. config_ftp_handoff (config s));
     if \<not> on then return loop_vars0
     else do {
       n \<leftarrow> nsysnet_shim_request_ftp_handoff;
       if n > 0 then return loop_vars0
       else do {
         now \<leftarrow> os_time;
         t1 \<leftarrow> ms_ticks 250;
         t2 \<leftarrow> ms_ticks 15000;
         return (loop_vars0\<lparr>ftp_handoff_pending := True, ftp_handoff_next := now + t1,
           ftp_handoff_deadline := now + t2\<rparr>) } } }"

definition start_proxy :: "('z modul_scheme, unit) state" where
  "start_proxy = do {
     on \<leftarrow> gets (\<lambda>s. config_wiiload_proxy (config s));
     whenM on (do { nsysnet_shim_wiiload_proxy_start; return () }) }"

definition install_hooks :: "('z modul_scheme, loop_vars) state" where
  "install_hooks = do {
     r \<leftarrow> nsysnet_shim_install;
     if r = 0 then do {
       ax_mark 15;
       v \<leftarrow> first_handoff;
       start_proxy;
       return v }
     else return loop_vars0 }"

definition retry_handoff :: "loop_vars \<Rightarrow> ('z modul_scheme, loop_vars) state" where
  "retry_handoff v = do {
     on \<leftarrow> gets (\<lambda>s. config_ftp_handoff (config s));
     if \<not> (on \<and> ftp_handoff_pending v) then return v
     else do {
       now \<leftarrow> os_time;
       if now < ftp_handoff_next v then return v
       else do {
         n \<leftarrow> nsysnet_shim_request_ftp_handoff;
         if n > 0 \<or> ftp_handoff_deadline v \<le> now then return (v\<lparr>ftp_handoff_pending := False\<rparr>)
         else do { t \<leftarrow> ms_ticks 250; return (v\<lparr>ftp_handoff_next := now + t\<rparr>) } } } }"

definition rearm_handoff :: "loop_vars \<Rightarrow> ('z modul_scheme, loop_vars) state" where
  "rearm_handoff v = do {
     on \<leftarrow> gets (\<lambda>s. config_ftp_handoff (config s));
     if \<not> on then return v
     else do {
       now \<leftarrow> os_time;
       t \<leftarrow> ms_ticks 15000;
       return (v\<lparr>ftp_handoff_pending := True, ftp_handoff_next := now, ftp_handoff_deadline := now + t\<rparr>) } }"

definition report_ip :: "u32 option \<Rightarrow> loop_vars \<Rightarrow> ('z modul_scheme, loop_vars) state" where
  "report_ip ip v =
     (if ip \<noteq> None \<and> ip \<noteq> previous_ip v then do {
        ax_mark 14;
        ext (Module WHBLogUdpDeinit);
        ext (Module WHBLogUdpInit);
        return (v\<lparr>previous_ip := ip\<rparr>) }
      else if ip = None \<and> previous_ip v \<noteq> None then return (v\<lparr>previous_ip := None\<rparr>)
      else return v)"

definition heartbeat :: "u32 option \<Rightarrow> loop_vars \<Rightarrow> ('z modul_scheme, loop_vars) state" where
  "heartbeat ip v =
     (if ip \<noteq> None then return v
      else do {
        t \<leftarrow> os_time;
        m \<leftarrow> ext (Os (OSTicksToMilliseconds t));
        let now = (word_of_int (r_ret m) :: u32);
        return (if now - last_beat v \<ge> 3000 then v\<lparr>last_beat := now\<rparr> else v) })"

text \<open>The rest of a round after a poll that found the adapter present: the new variables, or
  \<open>None\<close> to leave the loop.\<close>

definition loop_round :: "nat \<Rightarrow> int \<Rightarrow> loop_vars \<Rightarrow> ('z modul_scheme, loop_vars option) state" where
  "loop_round fuel n v = do {
     on \<leftarrow> gets (\<lambda>s. config_wiiload_proxy (config s));
     whenM on nsysnet_shim_wiiload_proxy_poll;
     v1 \<leftarrow> retry_handoff v;
     ip \<leftarrow> ax_net_address;
     nsysnet_shim_take_ax_activity;
     v2 \<leftarrow> report_ip ip v1;
     v3 \<leftarrow> heartbeat ip v2;
     whenM (n < 0) (sleep_for 1);
     e \<leftarrow> ax_display_check_exit;
     return (if e \<noteq> 0 then None else Some v3) }"

definition stop_proxy :: "('z modul_scheme, unit) state" where
  "stop_proxy = do {
     on \<leftarrow> gets (\<lambda>s. config_wiiload_proxy (config s));
     whenM on nsysnet_shim_wiiload_proxy_stop }"

text \<open>The polling loop; the result tells whether \<open>ax\<close> is non-NULL after it.\<close>

fun poll_loop :: "nat \<Rightarrow> nat \<Rightarrow> (call list \<Rightarrow> rx_event list list) \<Rightarrow> loop_vars \<Rightarrow> ('z modul_scheme, bool option) state" where
  "poll_loop 0 fuel ev v = return None"
| "poll_loop (Suc k) fuel ev v = do {
     stop \<leftarrow> load_stopping;
     if stop then return (Some True)
     else do {
       n \<leftarrow> poll fuel ev;
       (case n of None \<Rightarrow> return None
        | Some i \<Rightarrow>
            if i = - 2 then do {
              stop_proxy;
              r \<leftarrow> recover_adapter fuel ev True;
              if r = None then return None
              else if r \<noteq> Some 0 then return (Some False)
              else do {
                start_proxy;
                v1 \<leftarrow> rearm_handoff (v\<lparr>previous_ip := None\<rparr>);
                poll_loop k fuel ev v1 } }
            else do {
              w \<leftarrow> loop_round fuel i v;
              (case w of None \<Rightarrow> return (Some True) | Some v1 \<Rightarrow> poll_loop k fuel ev v1) }) } }"

definition worker_cleanup :: "nat \<Rightarrow> bool \<Rightarrow> ('z modul_scheme, unit option) state" where
  "worker_cleanup fuel ax = do {
     ending_title \<leftarrow> load_title_ending;
     a \<leftarrow> nsysnet_shim_stop_accepting fuel;
     if a = None then return None
     else do {
       whenM (\<not> ending_title) nsysnet_shim_drain_owned_sockets;
       d \<leftarrow> (if ending_title then do { ax_net_abandon_title; return (Some ()) } else ax_net_stop fuel);
       if d = None then return None
       else do {
         ax_mark 16;
         whenM ax (if ending_title then ax88179_abandon_title else ax88179_close);
         ax_mark 17;
         return (Some ()) } } }"

definition apply_config :: "('z modul_scheme, unit) state" where
  "apply_config = do {
     c \<leftarrow> gets config;
     nsysnet_shim_set_trace_level (config_shim_trace c);
     nsysnet_shim_set_system_dns (of_bool (config_system_dns c));
     nsysnet_shim_set_force_native (of_bool (config_force_native c));
     nsysnet_shim_set_nssl_bridge (of_bool (config_nssl_bridge c));
     ax_net_set_session_lease_mode (config_keep_first c) }"

text \<open>From the opened adapter on.\<close>

definition worker_online :: "nat \<Rightarrow> (call list \<Rightarrow> rx_event list list) \<Rightarrow> ('z modul_scheme, unit option) state" where
  "worker_online fuel ev = do {
     ax_mark 11;
     ax_mark 10;
     now \<leftarrow> os_time;
     t \<leftarrow> ms_ticks 30000;
     dhcp \<leftarrow> dhcp_wait fuel fuel ev (now + t);
     (case dhcp of None \<Rightarrow> return None
      | Some False \<Rightarrow> do {
          d \<leftarrow> ax_net_stop fuel;
          if d = None then return None else do { ax88179_close; return (Some ()) } }
      | Some True \<Rightarrow> do {
          v \<leftarrow> install_hooks;
          ax_mark 12;
          l \<leftarrow> poll_loop fuel fuel ev v;
          (case l of None \<Rightarrow> return None | Some ax \<Rightarrow> worker_cleanup fuel ax) }) }"

definition worker_body :: "nat \<Rightarrow> (call list \<Rightarrow> rx_event list list) \<Rightarrow> ('z modul_scheme, unit option) state" where
  "worker_body fuel ev = do {
     apply_config;
     ax_net_forget;
     ax_mark 2;
     iosu_patch_apply;
     opened \<leftarrow> ax88179_open;
     (case opened of Inl e \<Rightarrow> return (Some ())
      | Inr _ \<Rightarrow> do {
          ax_mark 3;
          r \<leftarrow> ax_net_start;
          if r \<noteq> 0 then do { ax88179_close; return (Some ()) } else worker_online fuel ev }) }"

definition run_network :: "nat \<Rightarrow> (call list \<Rightarrow> rx_event list list) \<Rightarrow> ('z modul_scheme, int option) state" where
  "run_network fuel ev = do {
     ax_mark 0;
     ext (Module WHBLogUdpInit);
     ax_mark 1;
     modify (\<lambda>s. s\<lparr>worker_generation := worker_generation s + 1\<rparr>);
     ready \<leftarrow> guard_wait 20;
     d \<leftarrow> (if ready then worker_body fuel ev else return (Some ()));
     if d = None then return None
     else do { ext (Module WHBLogUdpDeinit); return (Some 0) } }"

section \<open>The hooks of the module system\<close>

definition thread_terminated :: "nat \<Rightarrow> ('z drv_scheme, bool) state" where
  "thread_terminated th = do { r \<leftarrow> ext (Os (OSIsThreadTerminated th)); return (r_ret r \<noteq> 0) }"

fun await_thread :: "nat \<Rightarrow> nat \<Rightarrow> ('z drv_scheme, unit) state" where
  "await_thread 0 th = return ()"
| "await_thread (Suc n) th = do {
     t \<leftarrow> thread_terminated th;
     whenM (\<not> t) (do { sleep_for 10; await_thread n th }) }"

definition join_thread :: "nat \<Rightarrow> nat \<Rightarrow> ('z drv_scheme, unit) state" where
  "join_thread n th = do {
     await_thread n th;
     t \<leftarrow> thread_terminated th;
     whenM t (do { ext (Os (OSJoinThread th)); return () }) }"

definition stop_after_all_application_ends :: "('z modul_scheme, unit) state" where
  "stop_after_all_application_ends = do {
     up \<leftarrow> gets started;
     whenM up (do {
       signal_title_end;
       join_thread 200 WORKER;
       wd \<leftarrow> gets watchdog_started;
       whenM wd (do {
         join_thread 50 WATCHDOG;
         modify (\<lambda>s. s\<lparr>watchdog_started := False\<rparr>) });
       modify (\<lambda>s. s\<lparr>started := False\<rparr>) }) }"

definition stop_worker :: "('z modul_scheme, unit) state" where
  "stop_worker = do {
     up \<leftarrow> gets started;
     whenM up (do {
       signal_stop;
       join_thread 200 WORKER;
       modify (\<lambda>s. s\<lparr>started := False\<rparr>) }) }"

definition is_wiiu_menu_title :: "u64 \<Rightarrow> bool" where
  "is_wiiu_menu_title title_id \<longleftrightarrow>
     title_id = 0x0005001010040000 \<or> title_id = 0x0005001010040100 \<or> title_id = 0x0005001010040200"

definition start_watchdog :: "('z modul_scheme, unit) state" where
  "start_watchdog = do {
     wd \<leftarrow> gets watchdog_started;
     free \<leftarrow> (if \<not> wd then return True else thread_terminated WATCHDOG);
     whenM free (do {
       r \<leftarrow> ext (Os (OSCreateThread WATCHDOG));
       whenM (r_ret r \<noteq> 0) (do {
         modify (\<lambda>s. s\<lparr>watchdog_started := True\<rparr>);
         ext (Os (OSResumeThread WATCHDOG));
         return () }) }) }"

definition start_worker :: "('z modul_scheme, unit) state" where
  "start_worker = do {
     modify (\<lambda>s. s\<lparr>title_ending := False\<rparr>);
     modify (\<lambda>s. s\<lparr>stopping := False\<rparr>);
     r \<leftarrow> ext (Os (OSCreateThread WORKER));
     whenM (r_ret r \<noteq> 0) (do {
       modify (\<lambda>s. s\<lparr>started := True\<rparr>);
       ext (Os (OSResumeThread WORKER));
       start_watchdog }) }"

definition application_starts :: "nat \<Rightarrow> ('z modul_scheme, unit option) state" where
  "application_starts fuel = do {
     r \<leftarrow> ext (Os OSGetTitleID);
     seen \<leftarrow> gets menu_seen;
     if \<not> seen \<and> \<not> is_wiiu_menu_title (word_of_int (r_ret r)) then return (Some ())
     else do {
       modify (\<lambda>s. s\<lparr>menu_seen := True\<rparr>);
       up \<leftarrow> gets started;
       if up then return (Some ())
       else do {
         b \<leftarrow> nsysnet_shim_begin_title fuel;
         if b = None then return None
         else do { start_worker; return (Some ()) } } } }"

section \<open>A state to start from\<close>

definition module_init :: "(call list \<Rightarrow> call \<Rightarrow> resp) \<Rightarrow> modul" where
  "module_init e = life.extend (life_init e) (modul.fields config0 False False False 0 False False)"

lemma module_init_simps [simp]:
  "env (module_init e) = e" "trace (module_init e) = []" "\<not> stopping (module_init e)" "config (module_init e) = config0"
  "\<not> title_ending (module_init e)" "\<not> started (module_init e)" "\<not> menu_seen (module_init e)" "\<not> watchdog_started (module_init e)"
  by (simp_all add: module_init_def life.defs modul.defs life_init_def proxy.defs proxy_init_def dns.defs shim.defs shim_init_def net_init_def net.defs)

lemma module_init_open [simp]:
  "axp (module_init e) = Some ax_zero" "g_open (module_init e)" "active (module_init e)"
  by (simp_all add: module_init_def life.defs modul.defs life_init_def proxy.defs proxy_init_def dns.defs shim.defs shim_init_def net_init_def net.defs)

end
