(* ===== verification/Module_Worker.thy ===== *)
theory Module_Worker
  imports Aroma_Module Driver_Open
begin

text \<open>
  The worker of \<^verbatim>\<open>aroma_module/main.c\<close> and the adapter: whatever happens, at most one USB interface is
  held, and it is given back when the worker returns, unless the title is ending and the console
  takes it back itself.
\<close>

section \<open>The interfaces held\<close>

fun got_iface :: "resp \<Rightarrow> call \<Rightarrow> unit list" where
  "got_iface r (Uhs (UhsAcquireInterface h)) = (if 0 \<le> r_ret r then [()] else [])"
| "got_iface r c = []"

text \<open>Interfaces acquired and released so far.\<close>

definition acquired :: "'z drv_scheme \<Rightarrow> nat" where
  "acquired s = length (collect got_iface (env s) [] (trace s))"

definition released :: "'z drv_scheme \<Rightarrow> nat" where
  "released s = calls is_release s"

definition ledger where
  "ledger s = (env s, acquired s, released s)"

text \<open>All that ownership of the adapter depends on; only opening, closing and abandoning it, and
  starting and stopping the network, change any of it.\<close>

definition own :: "'z modul_scheme \<Rightarrow> _" where
  "own s = (ledger s, axp s \<noteq> None, g_open s, active s, title_ending s)"

lemma got_none: "\<not> is_acquire c \<Longrightarrow> got_iface r c = []"
  by (cases c rule: is_acquire.cases) auto

lemma ledger_ext: "\<not> is_acquire c \<Longrightarrow> \<not> is_release c \<Longrightarrow> preserves ledger (ext c)"
  by (rule preservesI) (simp add: wp ledger_def acquired_def released_def got_none)

lemma own_ext:
  assumes "\<not> is_acquire c" "\<not> is_release c"
  shows "preserves own (ext c)"
proof (rule preservesI)
  fix s :: "'a modul_scheme"
  have "ledger (s\<lparr>trace := trace s @ [c]\<rparr>) = ledger s"
    using preserves_run [OF ledger_ext [OF assms], of s] by simp
  then show "wp (ext c) (\<lambda>_ t. own t = own s) s"
    by (simp add: wp own_def)
qed

lemma own_modify:
  assumes "\<And>s. env (f s) = env s \<and> trace (f s) = trace s \<and> (axp (f s) = None) = (axp s = None) \<and>
    g_open (f s) = g_open s \<and> active (f s) = active s \<and> title_ending (f s) = title_ending s"
  shows "preserves own (modify f)"
  by (rule preservesI) (simp add: wp own_def ledger_def acquired_def released_def calls_def assms del: not_None_eq)

lemma own_calls [preserves]:
  "preserves own (ext (Os c1))" "preserves own (ext (Lwip c2))" "preserves own (ext (Sock c3))"
  "preserves own (ext (Nsn c4))" "preserves own (ext (Dns c5))" "preserves own (ext (Nssl c6))"
  "preserves own (ext (Patcher c7))" "preserves own (ext (Module c8))"
  by (simp_all add: own_ext)

lemma own_uhs [preserves]:
  "preserves own (ext (Uhs (UhsSubmitControlRequest h b c t v i z m)))"
  "preserves own (ext (Uhs (UhsSubmitBulkRequest h e d bs m)))"
  "preserves own (ext (Uhs (UhsSubmitBulkRequestAsync h e d u x m)))"
  by (simp_all add: own_ext)

section \<open>The driver while it is open\<close>

lemma own_upd_ax [preserves]: "preserves own (upd_ax f)" "preserves own (get_ax g)"
  unfolding upd_ax_def get_ax_def by (intro preserves own_modify; simp)+

lemma own_control [preserves]: "preserves own (control rd cmd val idx sz data)"
  unfolding control_def Let_def by (intro preserves own_modify)

lemma own_regs [preserves]:
  "preserves own (reg_write cmd reg sz bs)" "preserves own (reg_read cmd reg sz out)"
  "preserves own (ax88179_read_phy reg v)" "preserves own (sleep_ms ms)" "preserves own (mac_write16 reg w)"
  unfolding reg_write_def reg_read_def ax88179_read_phy_def sleep_ms_def mac_write16_def
  by (intro preserves)+

lemma own_fifo [preserves]: "preserves own (wait_fifo k)"
  by (induction k) (auto intro!: preserves)

lemma own_globals [preserves]:
  "preserves own (modify (\<lambda>s. s\<lparr>debug_last_link := l\<rparr>))" "preserves own (modify (\<lambda>s. s\<lparr>g_tx := b\<rparr>))"
  "preserves own (modify (\<lambda>s. s\<lparr>g_rx := h s\<rparr>))" "preserves own (modify (\<lambda>s. s\<lparr>g_rx_async := k s\<rparr>))"
  "preserves own (upd_slot i f)"
  unfolding upd_slot_def by (intro preserves own_modify; simp)+

lemma own_link [preserves]: "preserves own ax88179_link"
  unfolding ax88179_link_def link_apply_def link_reconfigure_def by (intro preserves)

lemma own_send [preserves]: "preserves own (ax88179_send fr)"
  unfolding ax88179_send_def Let_def by (intro preserves)

lemma own_rx [preserves]:
  "preserves own (rx_deliver e)" "preserves own (ax_rx_submit_slot i)" "preserves own rx_ring_reset"
  "preserves own (ax88179_receive_buffered_impl f m)"
  unfolding rx_deliver_def ax_rx_async_callback_def ax_rx_submit_slot_def rx_ring_reset_def
    ax88179_receive_buffered_impl_def Let_def
  by (intro preserves)+

lemma own_submit_all [preserves]: "preserves own (submit_all is)"
  by (induction "is") (auto intro!: preserves)

lemma own_rx2 [preserves]:
  "preserves own ax_rx_start_async" "preserves own (rx_rearm i)" "preserves own (rx_wait us)"
  unfolding ax_rx_start_async_def rx_rearm_def rx_wait_def by (intro preserves)+

lemma own_take [preserves]: "preserves own ax_rx_take_completed"
  unfolding ax_rx_take_completed_def Let_def by (intro preserves)

lemma own_receive [preserves]: "preserves own (ax88179_receive f m us)"
  unfolding ax88179_receive_def receive_ring_def receive_loaded_def take_or_wait_def by (intro preserves)

section \<open>The network while it runs\<close>

lemma own_lwip [preserves]:
  "preserves own (lwip c)" "preserves own (lwip_do c)" "preserves own (lwip_nz c)" "preserves own (lwip_val c)"
  "preserves own (ax_mark n)"
  unfolding lwip_do_def lwip_nz_def lwip_val_def lwip_def ax_mark_def by (intro preserves own_modify; simp)+

lemma own_drain_one [preserves]: "preserves own (drain_one b)"
  unfolding drain_one_def Let_def free_slot_def by (intro preserves own_modify) simp_all

lemma own_drain_tx [preserves]: "preserves own (drain_tx k b)"
  by (induction k) (auto intro!: preserves)

lemma own_input [preserves]: "preserves own (input_rx_frame bs)" "preserves own count_rx_err"
  unfolding input_rx_frame_def count_rx_err_def by (intro preserves own_modify; simp)+

lemma own_rx_more [preserves]: "preserves own (rx_more k arr)"
proof (induction k arbitrary: arr)
  case (Suc k)
  then show ?case unfolding rx_more.simps by (intro preserves)
qed (simp add: preserves)

lemma own_poll [preserves]: "preserves own (ax_net_poll k arr)"
  unfolding ax_net_poll_def poll_link_def poll_rx_def set_link_def
  by (intro preserves own_modify) simp_all

lemma own_address [preserves]: "preserves own ax_net_address" "preserves own ax_net_stack_ready" "preserves own ax_net_ip4"
  unfolding ax_net_address_def ax_net_stack_ready_def ax_net_ip4_def by (intro preserves own_modify; simp)+

section \<open>The shim\<close>

lemma own_sock [preserves]:
  "preserves own (set_errno e)" "preserves own (sock c)" "preserves own (nsn d)" "preserves own (native d)"
  unfolding set_errno_def sock_def nsn_def native_def by (intro preserves own_modify; simp add: set_errno_def)+

lemma own_pump_calls [preserves]:
  "preserves own (ax_send p)" "preserves own (ax_recv sz p)" "preserves own (ax_shut p)"
  "preserves own (native_send p)" "preserves own (native_recv sz p)" "preserves own (native_shut p)"
  "preserves own native_error" "preserves own (set_nonblocking fd b)"
  unfolding ax_send_def ax_recv_def ax_shut_def native_send_def native_recv_def native_shut_def native_error_def
    set_nonblocking_def
  by (intro preserves)+

lemma preserves_go [preserves]:
  "preserves f m \<Longrightarrow> (\<And>p b. preserves f (k p b)) \<Longrightarrow> preserves f (go m k)"
  unfolding go_def by (intro preserves) (auto split: pump_out.split intro: preserves)

lemma own_proxy [preserves]:
  "preserves own wiiload_proxy_reset_connection" "preserves own nsysnet_shim_wiiload_proxy_stop"
  "preserves own nsysnet_shim_wiiload_proxy_start" "preserves own wiiload_proxy_connect_native"
  unfolding nsysnet_shim_wiiload_proxy_stop_def wiiload_proxy_reset_connection_def close_native_side_def
    close_ax_side_def nsysnet_shim_wiiload_proxy_start_def proxy_listen_def close_failed_def
    wiiload_proxy_connect_native_def
  by (intro preserves own_modify; simp)+

lemma own_wl_round [preserves]: "preserves own (wl_round p)"
  unfolding wl_round_def wl_flush_native_def wl_fill_native_def wl_shut_native_def wl_flush_ax_def wl_fill_ax_def
    wl_shut_ax_def wl_end_def
  by (intro preserves own_modify) simp_all

lemma own_wl_rounds [preserves]: "preserves own (wl_rounds k p)"
  by (induction k arbitrary: p) (auto intro!: preserves)

lemma own_wl_pump [preserves]: "preserves own wl_pump_some" "preserves own wl_accept"
proof -
  show "preserves own wl_accept"
    unfolding wl_accept_def by (intro preserves own_modify) simp_all
  have "preserves own (case r of Go q b \<Rightarrow> modify (\<lambda>s. s\<lparr>wl_pump := q\<rparr>)
      | Leave q \<Rightarrow> do { modify (\<lambda>s. s\<lparr>wl_pump := q\<rparr>); wiiload_proxy_reset_connection })" for r
    by (cases r) (simp_all, (intro preserves own_modify; simp)+)
  then show "preserves own wl_pump_some"
    unfolding wl_pump_some_def by (intro preserves)
qed

lemma own_proxy_poll [preserves]: "preserves own nsysnet_shim_wiiload_proxy_poll"
  unfolding nsysnet_shim_wiiload_proxy_poll_def by (intro preserves)

lemma own_ftp_listener [preserves]: "preserves own (ftp_listener fd)"
  unfolding ftp_listener_def by (intro preserves)

lemma own_mark_listeners [preserves]: "preserves own (mark_listeners fds)"
proof (induction fds)
  case (Cons fd fds)
  then show ?case unfolding mark_listeners.simps by (intro preserves own_modify) simp_all
qed (simp add: preserves)

lemma own_handoff [preserves]: "preserves own nsysnet_shim_request_ftp_handoff"
  unfolding nsysnet_shim_request_ftp_handoff_def by (intro preserves)

lemma own_untrack [preserves]: "preserves own (nssl_untrack_public_fd fd)" "preserves own (nssl_public_fd_is_loopback fd)"
  unfolding nssl_untrack_public_fd_def nssl_public_fd_is_loopback_def by (intro preserves own_modify; simp)+

lemma own_tracked [preserves]: "preserves own (shutdown_tracked w fds)"
proof (induction fds)
  case (Cons fd fds)
  then show ?case unfolding shutdown_tracked.simps by (intro preserves)
qed (simp add: preserves)

lemma own_any_alive [preserves]: "preserves own (any_alive is b)"
  by (induction "is" arbitrary: b) (auto intro!: preserves)

lemma own_wait_relays [preserves]: "preserves own (wait_relays k d)"
  by (induction k) (auto intro!: preserves)

lemma own_stop_all [preserves]: "preserves own (nssl_relay_stop_all k)"
  unfolding nssl_relay_stop_all_def nssl_relay_reap_def reap_slot_def upd_relay_def
  by (intro preserves own_modify) (simp_all add: set_relay_def)

lemma own_stop_accepting [preserves]: "preserves own (nsysnet_shim_stop_accepting k)" "preserves own nsysnet_shim_quiesce"
  unfolding nsysnet_shim_stop_accepting_def nsysnet_shim_quiesce_def nssl_shutdown_all_tracked_def
  by (intro preserves own_modify; simp)+

lemma own_drain_owned [preserves]: "preserves own nsysnet_shim_drain_owned_sockets"
  unfolding nsysnet_shim_drain_owned_sockets_def drain_fd_def
  by (intro preserves own_modify) (simp_all add: compat_state_reset_def)

lemma own_add_patches [preserves]: "preserves own (add_patches ns)"
  by (induction ns) (simp_all add: add_patch_def, (intro preserves own_modify; simp)+)

lemma own_install [preserves]: "preserves own nsysnet_shim_install"
  unfolding nsysnet_shim_install_def undo_patches_def remove_all_def
  by (intro preserves own_modify) simp_all

lemma own_module [preserves]:
  "preserves own os_time" "preserves own (ms_ticks n)" "preserves own (sleep_for n)" "preserves own iosu_patch_apply"
  "preserves own (poll k ev)" "preserves own nsysnet_shim_take_ax_activity" "preserves own ax_display_check_exit"
  unfolding os_time_def ms_ticks_def sleep_for_def iosu_patch_apply_def patch_guard_def mocha_def poll_def
    nsysnet_shim_take_ax_activity_def cas_activity_def ax_display_check_exit_def
  by (intro preserves own_modify; simp)+

lemma own_steps [preserves]:
  "preserves own install_hooks" "preserves own (rearm_handoff v)" "preserves own start_proxy" "preserves own stop_proxy"
  "preserves own (loop_round k n v)"
  unfolding install_hooks_def first_handoff_def rearm_handoff_def start_proxy_def stop_proxy_def loop_round_def
    retry_handoff_def report_ip_def heartbeat_def Let_def
  by (intro preserves)+

section \<open>Phases of the adapter\<close>

text \<open>\<open>phase n b act s\<close>: the adapter is open iff \<open>b\<close>, the network runs iff \<open>act\<close>, and besides the open
  adapter \<open>n\<close> interfaces are held (those of titles that were abandoned).\<close>

definition phase :: "int \<Rightarrow> bool \<Rightarrow> bool \<Rightarrow> 'z modul_scheme \<Rightarrow> bool" where
  "phase n b act s \<longleftrightarrow> (axp s \<noteq> None \<longleftrightarrow> b) \<and> (g_open s \<longleftrightarrow> b) \<and> (active s \<longleftrightarrow> act) \<and>
     int (acquired s) = int (released s) + n + of_bool b"

lemma phase_cong: "own t = own s \<Longrightarrow> phase n b act t = phase n b act s"
  by (auto simp: own_def ledger_def phase_def)

lemma wp_phase: "preserves own m \<Longrightarrow> phase n b act s \<Longrightarrow> wp m (\<lambda>_. phase n b act) s"
  by (erule wp_preserves) (blast dest: phase_cong [THEN iffD2])

lemma phase_bind:
  assumes "preserves own m" and "phase n b act s" and "\<And>x t. phase n b act t \<Longrightarrow> wp (k x) Q t"
  shows "wp (State_Monad.bind m k) Q s"
  by (rule wp_bind_I [OF wp_phase [OF assms(1,2)]]) (rule assms(3))

lemma phase_other_threads: "phase n b act s \<Longrightarrow> wp other_threads (\<lambda>_. phase n b act) s"
  by (simp add: other_threads_def signal_stop_def signal_title_end_def nsysnet_shim_quiesce_def wp phase_def
      acquired_def released_def calls_def)

lemma phase_load:
  "phase n b act s \<Longrightarrow> wp load_stopping (\<lambda>x t. phase n b act t \<and> (x \<longrightarrow> stopping t)) s"
  "phase n b act s \<Longrightarrow> wp load_title_ending (\<lambda>x t. phase n b act t \<and> x = title_ending t) s"
  unfolding load_stopping_def load_title_ending_def
  by (auto simp: wp_bind wp_gets elim!: wp_mono dest!: phase_other_threads)

subsection \<open>Opening and closing\<close>

text \<open>Apart from acquiring an interface nothing changes how many were acquired.\<close>

definition acq where "acq s = (env s, acquired s)"

lemma acq_ext: "\<not> is_acquire c \<Longrightarrow> preserves acq (ext c)"
  by (rule preservesI) (simp add: wp acq_def acquired_def got_none)

lemma acq_modify: "(\<And>s. env (f s) = env s \<and> trace (f s) = trace s) \<Longrightarrow> preserves acq (modify f)"
  by (rule preservesI) (simp add: wp acq_def acquired_def)

lemma acq_prims [preserves]: "preserves acq (upd_ax f)" "preserves acq (get_ax g)" "preserves acq free_ax"
  unfolding upd_ax_def get_ax_def free_ax_def by (intro preserves acq_modify; simp)+

lemma acq_control [preserves]: "preserves acq (control rd cmd val idx sz data)"
  unfolding control_def Let_def by (intro preserves acq_modify acq_ext) simp_all

lemma acq_regs [preserves]:
  "preserves acq (reg_write cmd reg sz bs)" "preserves acq (reg_read cmd reg sz out)"
  "preserves acq (ax88179_read_phy reg v)" "preserves acq (sleep_ms ms)" "preserves acq (mac_write16 reg w)"
  "preserves acq (mac_write8 reg w8)" "preserves acq (phy_write reg w)"
  unfolding reg_write_def reg_read_def ax88179_read_phy_def sleep_ms_def mac_write16_def mac_write8_def phy_write_def
  by (intro preserves acq_ext; simp)+

lemma acq_bringup [preserves]: "preserves acq open_bringup"
  unfolding open_bringup_def warm_phy_check_def bringup_phy_reset_def bringup_mac_def bringup_rxtx_def
    bringup_autoneg_def enable_endpoint_def ax88179_read_mac_def Let_def
  by (intro preserves acq_modify acq_ext) simp_all

lemma acq_close [preserves]: "preserves acq ax88179_close" "preserves acq (client_close_fail e)"
  unfolding ax88179_close_def client_close_fail_def by (intro preserves acq_modify acq_ext; simp)+

lemma acq_find [preserves]: "preserves acq (find_endpoints p)"
  unfolding find_endpoints_def by (intro preserves acq_modify)

definition gained :: "open_error + unit \<Rightarrow> nat" where
  "gained r = (case r of Inl e \<Rightarrow> of_bool (bring_errors e) | Inr _ \<Rightarrow> 1)"

lemma acq_open_tail:
  "wp (do { b \<leftarrow> open_bringup;
        case b of Inr _ \<Rightarrow> return (Inr ()) | Inl e \<Rightarrow> do { ax88179_close; return (Inl e) } })
     (\<lambda>r t. acq t = acq s \<and> gained r = 1) s"
proof -
  obtain b t where run: "run_state open_bringup s = (b, t)" by fastforce
  have t: "acq t = acq s" using preserves_run [OF acq_bringup, of s] run by simp
  show ?thesis
  proof (cases b)
    case (Inl e)
    then have "bring_errors e"
      using errors_bringup run unfolding errors_def by (metis fst_conv)
    with Inl t show ?thesis
      using preserves_run [OF acq_close(1), of t] by (simp add: wp_run_state run gained_def case_prod_beta)
  next
    case (Inr u)
    with t show ?thesis by (simp add: wp_run_state run gained_def)
  qed
qed

lemma acq_acquire:
  "acq (s\<lparr>trace := trace s @ [Uhs (UhsAcquireInterface h)]\<rparr>) =
     (env s, acquired s + of_bool (0 \<le> r_ret (env s (trace s) (Uhs (UhsAcquireInterface h)))))"
  by (simp add: acq_def acquired_def)

lemma gained_none: "\<not> bring_errors e \<Longrightarrow> gained (Inl e) = 0"
  by (simp add: gained_def)

lemma wp_client_close_fail:
  "acq s = (e, a) \<Longrightarrow> \<not> bring_errors x \<Longrightarrow> wp (client_close_fail x) (\<lambda>r t. acq t = (e, a + gained r)) s"
  by (auto simp: client_close_fail_def free_ax_def wp gained_none acq_def acquired_def)

lemma wp_open_interface_acq:
  assumes "acq s = (e, a)"
  shows "wp (open_interface p) (\<lambda>r t. acq t = (e, a + gained r)) s"
  unfolding open_interface_def
proof (rule wp_bind_keep [where f = acq, OF acq_find assms])
  fix x :: int and t :: "'a drv_scheme"
  assume t: "acq t = (e, a)"
  let ?h = "if_handle (the (axp t))"
  let ?c = "Uhs (UhsAcquireInterface ?h)"
  let ?u = "t\<lparr>trace := trace t @ [?c]\<rparr>"
  have u: "acq ?u = (e, a + of_bool (0 \<le> r_ret (env t (trace t) ?c)))"
    using t by (simp add: acq_acquire) (simp add: acq_def)
  have g: "acq (?u\<lparr>g_open := True\<rparr>) = acq ?u" by (simp add: acq_def acquired_def)
  have "wp (do { b \<leftarrow> open_bringup;
        case b of Inr _ \<Rightarrow> return (Inr ()) | Inl e \<Rightarrow> do { ax88179_close; return (Inl e) } })
     (\<lambda>r v. acq v = (e, a + gained r)) (?u\<lparr>g_open := True\<rparr>)" if "0 \<le> r_ret (env t (trace t) ?c)"
    by (rule wp_mono [OF acq_open_tail]) (use u g that in simp)
  moreover have "wp (client_close_fail InterfaceRefused) (\<lambda>r v. acq v = (e, a + gained r)) ?u"
    if "r_ret (env t (trace t) ?c) < 0"
    by (rule wp_client_close_fail) (use u that in \<open>simp_all add: bring_errors_def\<close>)
  moreover have "wp (client_close_fail NoBulkPair) (\<lambda>r v. acq v = (e, a + gained r)) t"
    by (rule wp_client_close_fail) (use t in \<open>simp_all add: bring_errors_def\<close>)
  ultimately show "wp (if x \<noteq> 0 then client_close_fail NoBulkPair else do {
     h \<leftarrow> get_ax if_handle;
     k \<leftarrow> ext (Uhs (UhsAcquireInterface h));
     if r_ret k < 0 then client_close_fail InterfaceRefused else do {
     modify (\<lambda>s. s\<lparr>g_open := True\<rparr>);
     b \<leftarrow> open_bringup;
     case b of Inr _ \<Rightarrow> return (Inr ())
     | Inl e \<Rightarrow> do { ax88179_close; return (Inl e) } }}) (\<lambda>r v. acq v = (e, a + gained r)) t"
    by (simp add: wp_if wp_bind [of "get_ax _"] wp_bind [of "ext _"] wp_bind [of "modify _"] wp_ext wp_modify
        get_ax_def wp_gets wp_bind [of "gets _"])
qed

lemma wp_open_acq: "wp ax88179_open (\<lambda>r t. acq t = (env s, acquired s + gained r)) s"
proof -
  have s: "acq s = (env s, acquired s)" by (simp add: acq_def)
  have none: "\<not> bring_errors AlreadyOpen" "\<not> bring_errors OutOfMemory" "\<not> bring_errors CannotOpenUhs" "\<not> bring_errors NoAdapter"
    by (simp_all add: bring_errors_def)
  have stay: "acq (s\<lparr>trace := trace s @ cs\<rparr>) = acq s" if "\<forall>c \<in> set cs. \<not> is_acquire c" for cs
    using that by (simp add: acq_def acquired_def collect_none got_none)
  have upd: "acq (t\<lparr>axp := x\<rparr>) = acq t" for t :: "'a drv_scheme" and x
    by (simp add: acq_def acquired_def)
  show ?thesis
    unfolding ax88179_open_def
    by (auto simp: wp_if wp_bind [of "ext _"] wp_bind [of "gets _"] wp_bind [of "modify _"] wp_bind [of free_ax] wp_ext wp_gets wp_modify
        wp_return gained_none none stay upd s free_ax_def upd_ax_def wp_bind [of "upd_ax _"]
        intro!: wp_client_close_fail wp_open_interface_acq) (simp_all add: acq_def acquired_def)
qed

lemma more_active: "drv.more t = drv.more s \<Longrightarrow> active t = active s"
  by (cases s; cases t) simp

lemma fail_tally_release: "snd (snd (snd (fail_tally e))) = gained (Inl e)"
  by (cases e) (simp_all add: gained_def bring_errors_def)

lemma released_tally: "released s = snd (snd (snd (tally s)))"
  by (simp add: released_def tally_def)

lemma tally_add_release: "snd (snd (snd (tally_add x y))) = snd (snd (snd x)) + snd (snd (snd y))"
  by (cases x; cases y) simp

lemma phase_open:
  assumes "phase n False act s"
  shows "wp ax88179_open (\<lambda>r. phase n (r = Inr ()) act) s"
proof (rule wp_mono [OF wp_conj [OF wp_open wp_open_acq]])
  show "drv_inv s" using assms by (simp add: phase_def drv_inv_def)
next
  fix r t
  assume a: "open_post s r t \<and> acq t = (env s, acquired s + gained r)"
  then have act: "active t = active s" by (auto simp: open_post_def dest: more_active)
  show "phase n (r = Inr ()) act t"
  proof (cases r)
    case (Inl e)
    then have "released t = released s + gained r"
      using a by (simp add: open_post_def released_tally tally_add_release fail_tally_release)
    with a Inl act assms show ?thesis
      by (auto simp: phase_def open_post_def drv_inv_def acq_def)
  next
    case (Inr u)
    then have "released t = released s"
      using a by (simp add: open_post_def released_tally tally_add_release)
    with a Inr act assms show ?thesis
      by (auto simp: phase_def open_post_def drv_inv_def acq_def gained_def)
  qed
qed

lemma phase_close:
  assumes "phase n True act s"
  shows "wp ax88179_close (\<lambda>_. phase n False act) s"
proof -
  obtain a where a: "axp s = Some a" using assms by (auto simp: phase_def)
  obtain o1 c1 a1 r1 where t: "tally s = (o1, c1, a1, r1)" by (cases "tally s") auto
  have "wp ax88179_close (\<lambda>_ t. acq t = acq s) s" by (intro wp_keep preserves)
  from wp_conj [OF wp_close [OF a t] this] show ?thesis
    by (rule wp_mono) (use assms t in \<open>auto simp: phase_def released_tally acq_def dest: more_active\<close>)
qed

lemma phase_abandon:
  assumes "phase n True act s"
  shows "wp ax88179_abandon_title (\<lambda>_ t. phase (n + 1) False act t \<and> title_ending t = title_ending s) s"
  using assms
  by (auto simp: ax88179_abandon_title_def upd_ax_def free_ax_def wp phase_def acquired_def released_def)

lemma phase_cold: "phase n b act s \<Longrightarrow> wp ax88179_force_cold_next_open (\<lambda>_. phase n b act) s"
  by (intro wp_phase) (simp_all add: ax88179_force_cold_next_open_def own_modify)

lemma phase_close_cold: "phase n True act s \<Longrightarrow> wp close_cold (\<lambda>_. phase n False act) s"
  unfolding close_cold_def by (rule wp_bind_I [OF phase_close]) (auto intro: phase_cold)

subsection \<open>Starting and stopping the network\<close>

text \<open>What of \<open>own\<close> the start and the stop of the network leave alone.\<close>

definition own0 where
  "own0 s = (ledger s, axp s \<noteq> None, g_open s, title_ending s)"

lemma own0_of_own: "preserves own m \<Longrightarrow> preserves own0 m"
  by (erule preserves_coarser) (simp add: own_def own0_def)

lemma own0_modify:
  assumes "\<And>s. env (f s) = env s \<and> trace (f s) = trace s \<and> (axp (f s) = None) = (axp s = None) \<and>
    g_open (f s) = g_open s \<and> title_ending (f s) = title_ending s"
  shows "preserves own0 (modify f)"
  by (rule preservesI) (simp add: wp own0_def ledger_def acquired_def released_def calls_def assms del: not_None_eq)

lemmas own0_calls = own_lwip [THEN own0_of_own] own_link [THEN own0_of_own] own_calls [THEN own0_of_own]
  own_drain_tx [THEN own0_of_own]

lemma own0_start: "preserves own0 ax_net_start"
  unfolding ax_net_start_def init_stack_def start_iface_def setup_netif_def remove_leftover_def add_netif_def
    init_interface_def ax88179_mac_def raise_netif_def address_netif_def undo_netif_def
  by (intro preserves own0_calls own0_modify) simp_all

lemma own0_stop: "preserves own0 (ax_net_stop k)" "preserves own0 ax_net_abandon_title" "preserves own0 ax_net_forget"
  unfolding ax_net_stop_def stop_netif_def ax_net_abandon_title_def ax_net_forget_def
  by (intro preserves own0_calls own0_modify; simp)+

lemma phase_own0: "phase n b act s \<Longrightarrow> own0 t = own0 s \<Longrightarrow> phase n b (active t) t"
  by (auto simp: phase_def own0_def ledger_def)

lemma phase_halted:
  "phase n b act s \<Longrightarrow> own0 t = own0 s \<Longrightarrow> \<not> active t \<Longrightarrow> phase n b False t \<and> title_ending t = title_ending s"
  using phase_own0 [of n b act s t] by (auto simp: own0_def)

lemma phase_start:
  assumes "phase n True False s"
  shows "wp ax_net_start (\<lambda>r. phase n True (r = 0)) s"
proof (rule wp_mono [OF wp_conj [OF wp_start wp_keep [OF own0_start]]])
  fix r and t :: "'a modul_scheme"
  assume a: "start_post s r t \<and> own0 t = own0 s"
  have "\<not> (active s \<or> axp s = None)" using assms by (auto simp: phase_def)
  then have "(r = 0) = active t" using a by (simp add: start_post_def)
  with a assms show "phase n True (r = 0) t" by (auto dest: phase_own0)
qed

lemma stop_inactive: "wp (ax_net_stop k) (\<lambda>r t. r \<noteq> None \<longrightarrow> \<not> active t) s"
proof -
  have *: "wp (do { lwip_do Lock_tcpip_core; stop_netif; lwip_do Unlock_tcpip_core; d \<leftarrow> drain_tx k False;
     if d = None then return None else do { modify (\<lambda>s. s\<lparr>active := False\<rparr>); return (Some ()) } })
     (\<lambda>r t. r \<noteq> None \<longrightarrow> \<not> active t) u" for u :: "'a net_scheme"
    by (simp add: wp_bind wp_if wp_return wp_modify) (simp add: wp_run_state)
  show ?thesis
    unfolding ax_net_stop_def by (simp only: wp_bind [of "gets _"] wp_gets wp_if wp_return *) simp
qed

lemma phase_stop:
  assumes "phase n b act s"
  shows "wp (ax_net_stop k) (\<lambda>r t. r = None \<or> phase n b False t \<and> title_ending t = title_ending s) s"
  by (rule wp_mono [OF wp_conj [OF stop_inactive wp_keep [OF own0_stop(1)]]])
     (use phase_halted [OF assms] in blast)

lemma phase_abandon_net:
  assumes "phase n b act s"
  shows "wp ax_net_abandon_title (\<lambda>_ t. phase n b False t \<and> title_ending t = title_ending s) s"
proof -
  have "wp ax_net_abandon_title (\<lambda>_ t. \<not> active t) s"
    by (simp add: ax_net_abandon_title_def wp lwip_def)
  from wp_conj [OF this wp_keep [OF own0_stop(2)]] show ?thesis
    by (rule wp_mono) (use phase_halted [OF assms] in blast)
qed

lemma phase_forget:
  assumes "phase n b act s"
  shows "wp ax_net_forget (\<lambda>_. phase n b False) s"
proof -
  have "wp ax_net_forget (\<lambda>_ t. \<not> active t) s"
    by (simp add: ax_net_forget_def wp lwip_def lwip_do_def)
  from wp_conj [OF this wp_keep [OF own0_stop(3)]] show ?thesis
    by (rule wp_mono) (use phase_halted [OF assms] in blast)
qed

subsection \<open>The worker's loops\<close>

lemma keeps_phase_own: "preserves own m \<Longrightarrow> keeps (phase n b act) m"
  by (intro keepsI wp_phase)

lemma keeps_load: "keeps (phase n b act) load_stopping"
  by (rule keepsI, rule wp_mono [OF phase_load(1)], assumption, blast)

lemmas keeps_parts = keeps_load keeps_phase_own [OF own_module(1)] keeps_phase_own [OF own_module(3)] keeps_phase_own [OF own_module(5)]
  keeps_phase_own [OF own_address(1)] keeps_phase_own [OF own_calls(8)] keeps_phase_own [OF own_lwip(5)]

lemma phase_guard: "keeps (phase n b act) (guard_wait k)"
  by (induction k) (auto intro!: keeps keeps_parts)

lemma phase_recover_wait: "keeps (phase n b act) (recover_wait k fuel ev d)"
  by (induction k) (auto intro!: keeps keeps_parts)

lemma phase_dhcp_wait: "keeps (phase n b act) (dhcp_wait k fuel ev d)"
  by (induction k) (auto intro!: keeps keeps_parts)

lemma phase_seq:
  assumes "keeps (phase n b act) m" and "phase n b act s" and "\<And>x t. phase n b act t \<Longrightarrow> wp (k x) Q t"
  shows "wp (State_Monad.bind m k) Q s"
  by (rule wp_bind_I [OF keepsD [OF assms(1,2)]]) (rule assms(3))

lemma phase_stop_bind:
  assumes "phase n b act s" and "\<And>t. phase n b False t \<Longrightarrow> wp k Q t" and "\<And>t. Q None t"
  shows "wp (do { d \<leftarrow> ax_net_stop fuel; if d = None then return None else k }) Q s"
  by (rule wp_bind_I [OF phase_stop [OF assms(1)]]) (use assms(2,3) in \<open>auto simp: wp_return\<close>)

lemma phase_recover_try:
  assumes "phase n False False s"
  shows "wp (recover_try fuel ev) (\<lambda>r t. r = None \<or> phase n (r = Some True) (r = Some True) t) s"
proof -
  let ?Q = "\<lambda>r t. r = None \<or> phase n (r = Some True) (r = Some True) t"
  have cold: "wp (do { close_cold; return (Some False) }) ?Q t" if "phase n True False t" for t :: "'a modul_scheme"
    by (rule wp_bind_I [OF phase_close_cold [OF that]]) (simp add: wp_return)
  have stop: "wp (do { d \<leftarrow> ax_net_stop fuel; if d = None then return None else do { close_cold; return (Some False) } }) ?Q t"
    if "phase n True True t" for t :: "'a modul_scheme"
    by (rule phase_stop_bind [OF that cold]) simp_all
  have healthy: "wp (case h of None \<Rightarrow> return None | Some True \<Rightarrow> return (Some True)
      | Some False \<Rightarrow> do { d \<leftarrow> ax_net_stop fuel; if d = None then return None else do { close_cold; return (Some False) } }) ?Q t"
    if "phase n True True t" for h and t :: "'a modul_scheme"
    by (cases h rule: option.exhaust [case_product bool.exhaust]) (use that stop in \<open>auto simp: wp_return split: bool.split\<close>)
  have online: "wp (do { now \<leftarrow> os_time; w \<leftarrow> ms_ticks 35000; h \<leftarrow> recover_wait fuel fuel ev (now + w);
      case h of None \<Rightarrow> return None | Some True \<Rightarrow> return (Some True)
      | Some False \<Rightarrow> do { d \<leftarrow> ax_net_stop fuel; if d = None then return None else do { close_cold; return (Some False) } } }) ?Q t"
    if "phase n True True t" for t :: "'a modul_scheme"
    by (rule phase_bind [OF own_module(1) that], rule phase_bind [OF own_module(2)], assumption,
        rule phase_seq [OF phase_recover_wait], assumption, rule healthy)
  have started: "wp (if r \<noteq> 0 then do { close_cold; return (Some False) }
      else do { now \<leftarrow> os_time; w \<leftarrow> ms_ticks 35000; h \<leftarrow> recover_wait fuel fuel ev (now + w);
      case h of None \<Rightarrow> return None | Some True \<Rightarrow> return (Some True)
      | Some False \<Rightarrow> do { d \<leftarrow> ax_net_stop fuel; if d = None then return None else do { close_cold; return (Some False) } } }) ?Q t"
    if "phase n True (r = 0) t" for r :: int and t :: "'a modul_scheme"
    using that cold online by (cases "r = 0") simp_all
  show ?thesis
    unfolding recover_try_def
    apply (rule phase_bind [OF own_module(3) assms])
    apply (rule wp_bind_I [OF phase_open], assumption)
    subgoal for r t c u
      by (cases c) (auto simp: wp_return intro!: wp_bind_I [OF phase_start] started)
    done
qed

lemma phase_recover_loop:
  "phase n False False s \<Longrightarrow> wp (recover_loop k fuel ev) (\<lambda>r t. r = None \<or>
     r = Some 0 \<and> phase n True True t \<or> r = Some (- 1) \<and> phase n False False t \<and> stopping t) s"
proof (induction k arbitrary: s)
  case (Suc k)
  let ?Q = "\<lambda>r t. r = None \<or> r = Some 0 \<and> phase n True True t \<or> r = Some (- 1) \<and> phase n False False t \<and> stopping t"
  have next_try: "wp (case r of None \<Rightarrow> return None | Some True \<Rightarrow> return (Some 0) | Some False \<Rightarrow> recover_loop k fuel ev) ?Q u"
    if "r = None \<or> phase n (r = Some True) (r = Some True) u" for r and u :: "'a modul_scheme"
    by (cases r rule: option.exhaust [case_product bool.exhaust]) (use that Suc.IH in \<open>auto simp: wp_return split: bool.split\<close>)
  have "wp (do { r \<leftarrow> recover_try fuel ev;
      case r of None \<Rightarrow> return None | Some True \<Rightarrow> return (Some 0) | Some False \<Rightarrow> recover_loop k fuel ev }) ?Q t"
    if "phase n False False t" for t :: "'a modul_scheme"
    by (rule wp_bind_I [OF phase_recover_try [OF that] next_try])
  then show ?case
    unfolding recover_loop.simps
    by (intro wp_bind_I [OF phase_load(1) [OF Suc.prems]]) (auto simp only: wp_if wp_return split: if_splits)
qed (simp add: wp)

lemma phase_recover:
  assumes "phase n True True s"
  shows "wp (recover_adapter fuel ev True) (\<lambda>r t. r = None \<or>
     r = Some 0 \<and> phase n True True t \<or> r = Some (- 1) \<and> phase n False False t \<and> stopping t) s"
  unfolding recover_adapter_def if_True
  apply (rule phase_bind [OF own_calls(8) assms])
  apply (rule phase_stop_bind, assumption)
   apply (simp only: whenM_def if_True)
   apply (rule wp_bind_I [OF phase_close], assumption)
   apply (rule wp_bind_I [OF phase_cold], assumption)
   apply (rule phase_recover_loop, assumption)
  apply simp
  done

lemma phase_poll_loop:
  "phase n True True s \<Longrightarrow> wp (poll_loop k fuel ev v) (\<lambda>r t. r = None \<or> phase n (r = Some True) (r = Some True) t) s"
proof (induction k arbitrary: s v)
  case (Suc k)
  let ?Q = "\<lambda>r t. r = None \<or> phase n (r = Some True) (r = Some True) t"
  have resume: "wp (do { start_proxy; v1 \<leftarrow> rearm_handoff w; poll_loop k fuel ev v1 }) ?Q t"
    if "phase n True True t" for w and t :: "'a modul_scheme"
    by (rule phase_bind [OF own_steps(3) that], rule phase_bind [OF own_steps(2)], assumption, rule Suc.IH)
  have gone: "wp (do { stop_proxy; r \<leftarrow> recover_adapter fuel ev True;
      if r = None then return None else if r \<noteq> Some 0 then return (Some False)
      else do { start_proxy; v1 \<leftarrow> rearm_handoff w; poll_loop k fuel ev v1 } }) ?Q t"
    if "phase n True True t" for w and t :: "'a modul_scheme"
    by (rule phase_bind [OF own_steps(4) that], rule wp_bind_I [OF phase_recover], assumption)
       (auto simp only: wp_if wp_return option.simps simp_thms split: if_splits intro: resume)
  have there: "wp (do { w \<leftarrow> loop_round fuel i v;
      case w of None \<Rightarrow> return (Some True) | Some v1 \<Rightarrow> poll_loop k fuel ev v1 }) ?Q t"
    if "phase n True True t" for i and t :: "'a modul_scheme"
    by (rule phase_bind [OF own_steps(5) that]) (auto simp: wp_return Suc.IH split: option.split)
  have "wp (do { x \<leftarrow> poll fuel ev; case x of None \<Rightarrow> return None | Some i \<Rightarrow>
      if i = - 2 then do { stop_proxy; r \<leftarrow> recover_adapter fuel ev True;
        if r = None then return None else if r \<noteq> Some 0 then return (Some False)
        else do { start_proxy; v1 \<leftarrow> rearm_handoff (v\<lparr>previous_ip := None\<rparr>); poll_loop k fuel ev v1 } }
      else do { w \<leftarrow> loop_round fuel i v;
        case w of None \<Rightarrow> return (Some True) | Some v1 \<Rightarrow> poll_loop k fuel ev v1 } }) ?Q t"
    if "phase n True True t" for t :: "'a modul_scheme"
    by (rule phase_bind [OF own_module(5) that]) (auto simp only: wp_return wp_if option.case split: option.split if_splits intro: gone there)
  then show ?case
    unfolding poll_loop.simps
    by (intro wp_bind_I [OF phase_load(1) [OF Suc.prems]]) (auto simp only: wp_if wp_return simp_thms split: if_splits)
qed (simp add: wp)

text \<open>The end: the adapter is closed, or abandoned when the title is ending.\<close>

definition at_rest :: "int \<Rightarrow> 'z modul_scheme \<Rightarrow> bool" where
  "at_rest n t \<longleftrightarrow> phase n False False t \<or> title_ending t \<and> phase (n + 1) False False t"

lemma at_rest_own: "preserves own m \<Longrightarrow> at_rest n s \<Longrightarrow> wp m (\<lambda>_. at_rest n) s"
  by (erule wp_preserves) (auto simp: at_rest_def own_def phase_def ledger_def)

lemma phase_te: "preserves own m \<Longrightarrow> phase n b act s \<and> title_ending s = te \<Longrightarrow> wp m (\<lambda>_ t. phase n b act t \<and> title_ending t = te) s"
  by (erule wp_preserves) (auto simp: own_def phase_def ledger_def)

lemma phase_cleanup:
  assumes "phase n ax ax s"
  shows "wp (worker_cleanup fuel ax) (\<lambda>r t. r = None \<or> at_rest n t) s"
proof -
  let ?Q = "\<lambda>r t. r = None \<or> at_rest n t"
  have release: "wp (whenM ax (if te then ax88179_abandon_title else ax88179_close)) (\<lambda>_. at_rest n) t"
    if "phase n ax False t \<and> title_ending t = te" for te and t :: "'a modul_scheme"
    using that by (cases ax; cases te) (auto simp: wp_return whenM_def at_rest_def
        intro: wp_mono [OF phase_abandon] wp_mono [OF phase_close])
  have last: "wp (do { ax_mark 16; whenM ax (if te then ax88179_abandon_title else ax88179_close); ax_mark 17; return (Some ()) }) ?Q t"
    if "phase n ax False t \<and> title_ending t = te" for te and t :: "'a modul_scheme"
    by (rule wp_bind_I [OF phase_te [OF own_lwip(5) that]], rule wp_bind_I [OF release], assumption,
        rule wp_bind_I [OF at_rest_own [OF own_lwip(5)]], assumption) (simp add: wp_return)
  have halt: "wp (do { d \<leftarrow> (if te then do { ax_net_abandon_title; return (Some ()) } else ax_net_stop fuel);
      if d = None then return None
      else do { ax_mark 16; whenM ax (if te then ax88179_abandon_title else ax88179_close); ax_mark 17; return (Some ()) } }) ?Q t"
    if "phase n ax ax t \<and> title_ending t = te" for te and t :: "'a modul_scheme"
  proof (cases te)
    case True
    then show ?thesis
      using that last [of _ te] by (auto simp: wp_bind [of "State_Monad.bind _ _"] wp_bind [of ax_net_abandon_title] wp_return
          intro!: wp_mono [OF phase_abandon_net])
  next
    case False
    with that have "wp (ax_net_stop fuel) (\<lambda>r u. r = None \<or> phase n ax False u \<and> title_ending u = te) t"
      using phase_stop [of n ax ax t fuel] by auto
    then have "wp (if te then do { ax_net_abandon_title; return (Some ()) } else ax_net_stop fuel)
        (\<lambda>r u. r = None \<or> phase n ax False u \<and> title_ending u = te) t"
      using False by simp
    then show ?thesis
      by (rule wp_bind_I) (use last [of _ te] in \<open>auto simp: wp_return\<close>)
  qed
  have drain: "wp (do { whenM (\<not> te) nsysnet_shim_drain_owned_sockets;
      d \<leftarrow> (if te then do { ax_net_abandon_title; return (Some ()) } else ax_net_stop fuel);
      if d = None then return None
      else do { ax_mark 16; whenM ax (if te then ax88179_abandon_title else ax88179_close); ax_mark 17; return (Some ()) } }) ?Q t"
    if "phase n ax ax t \<and> title_ending t = te" for te and t :: "'a modul_scheme"
    by (rule wp_bind_I [OF phase_te [OF preserves_whenM [OF own_drain_owned] that]], rule halt)
  have quiet: "wp (if a = None then return None else do { whenM (\<not> te) nsysnet_shim_drain_owned_sockets;
      d \<leftarrow> (if te then do { ax_net_abandon_title; return (Some ()) } else ax_net_stop fuel);
      if d = None then return None
      else do { ax_mark 16; whenM ax (if te then ax88179_abandon_title else ax88179_close); ax_mark 17; return (Some ()) } }) ?Q t"
    if "phase n ax ax t \<and> title_ending t = te" for te a and t :: "'a modul_scheme"
    using drain [OF that] by (cases a) (simp_all add: wp_return)
  show ?thesis
    unfolding worker_cleanup_def
    apply (rule wp_bind_I [OF phase_load(2) [OF assms]])
    subgoal for te t
      by (rule wp_bind_I [OF phase_te [OF own_stop_accepting(1), where te = te]], blast, rule quiet)
    done
qed

lemma phase_online:
  assumes "phase n True True s"
  shows "wp (worker_online fuel ev) (\<lambda>r t. r = None \<or> at_rest n t) s"
proof -
  let ?Q = "\<lambda>r t. r = None \<or> at_rest n t"
  have close: "wp (do { ax88179_close; return (Some ()) }) ?Q t" if "phase n True False t" for t :: "'a modul_scheme"
    by (rule wp_bind_I [OF phase_close [OF that]]) (simp add: wp_return at_rest_def)
  have stop: "wp (do { d \<leftarrow> ax_net_stop fuel; if d = None then return None else do { ax88179_close; return (Some ()) } }) ?Q t"
    if "phase n True True t" for t :: "'a modul_scheme"
    by (rule phase_stop_bind [OF that close]) simp_all
  have over: "wp (case l of None \<Rightarrow> return None | Some ax \<Rightarrow> worker_cleanup fuel ax) ?Q t"
    if "l = None \<or> phase n (l = Some True) (l = Some True) t" for l and t :: "'a modul_scheme"
    using that phase_cleanup [of n "l = Some True" t fuel] by (cases l) (auto simp: wp_return)
  have loop: "wp (do { v \<leftarrow> install_hooks; ax_mark 12; l \<leftarrow> poll_loop fuel fuel ev v;
      case l of None \<Rightarrow> return None | Some ax \<Rightarrow> worker_cleanup fuel ax }) ?Q t"
    if "phase n True True t" for t :: "'a modul_scheme"
    by (rule phase_bind [OF own_steps(1) that], rule phase_bind [OF own_lwip(5)], assumption,
        rule wp_bind_I [OF phase_poll_loop], assumption, rule over)
  have bound: "wp (case d of None \<Rightarrow> return None
      | Some False \<Rightarrow> do { d \<leftarrow> ax_net_stop fuel; if d = None then return None else do { ax88179_close; return (Some ()) } }
      | Some True \<Rightarrow> do { v \<leftarrow> install_hooks; ax_mark 12; l \<leftarrow> poll_loop fuel fuel ev v;
          case l of None \<Rightarrow> return None | Some ax \<Rightarrow> worker_cleanup fuel ax }) ?Q t"
    if "phase n True True t" for d and t :: "'a modul_scheme"
    by (cases d rule: option.exhaust [case_product bool.exhaust]) (use that stop loop in \<open>auto simp: wp_return split: bool.split\<close>)
  show ?thesis
    unfolding worker_online_def
    by (rule phase_bind [OF own_lwip(5) assms], rule phase_bind [OF own_lwip(5)], assumption,
        rule phase_bind [OF own_module(1)], assumption, rule phase_bind [OF own_module(2)], assumption,
        rule phase_seq [OF phase_dhcp_wait], assumption, rule bound)
qed

lemma own_apply_config: "preserves own apply_config"
  unfolding apply_config_def nsysnet_shim_set_trace_level_def nsysnet_shim_set_system_dns_def nsysnet_shim_set_force_native_def
    nsysnet_shim_set_nssl_bridge_def ax_net_set_session_lease_mode_def
  by (intro preserves own_modify) simp_all

lemma phase_body:
  assumes "phase n False act s"
  shows "wp (worker_body fuel ev) (\<lambda>r t. r = None \<or> at_rest n t) s"
proof -
  let ?Q = "\<lambda>r t. r = None \<or> at_rest n t"
  have close: "wp (do { ax88179_close; return (Some ()) }) ?Q t" if "phase n True False t" for t :: "'a modul_scheme"
    by (rule wp_bind_I [OF phase_close [OF that]]) (simp add: wp_return at_rest_def)
  have started: "wp (if r \<noteq> 0 then do { ax88179_close; return (Some ()) } else worker_online fuel ev) ?Q t"
    if "phase n True (r = 0) t" for r :: int and t :: "'a modul_scheme"
    using that close phase_online by (cases "r = 0") simp_all
  have opened: "wp (case c of Inl e \<Rightarrow> return (Some ())
      | Inr _ \<Rightarrow> do { ax_mark 3; r \<leftarrow> ax_net_start;
          if r \<noteq> 0 then do { ax88179_close; return (Some ()) } else worker_online fuel ev }) ?Q t"
    if "phase n (c = Inr ()) False t" for c and t :: "'a modul_scheme"
  proof (cases c)
    case (Inl e)
    with that show ?thesis by (simp add: wp_return at_rest_def)
  next
    case (Inr u)
    with that have "phase n True False t" by simp
    with Inr show ?thesis
      by (simp only: sum.case) (rule phase_bind [OF own_lwip(5)], assumption, rule wp_bind_I [OF phase_start], assumption, rule started)
  qed
  show ?thesis
    unfolding worker_body_def
    by (rule phase_bind [OF own_apply_config assms], rule wp_bind_I [OF phase_forget], assumption,
        rule phase_bind [OF own_lwip(5)], assumption, rule phase_bind [OF own_module(4)], assumption,
        rule wp_bind_I [OF phase_open], assumption, rule opened)
qed

lemma phase_run_network:
  assumes "phase n False False s"
  shows "wp (run_network fuel ev) (\<lambda>r t. r = None \<or> r = Some 0 \<and> at_rest n t) s"
proof -
  let ?Q = "\<lambda>r t. r = None \<or> r = Some 0 \<and> at_rest n t"
  have leave: "wp (if d = None then return None else do { ext (Module WHBLogUdpDeinit); return (Some 0) }) ?Q t"
    if "d = None \<or> at_rest n t" for d :: "unit option" and t :: "'a modul_scheme"
    using that by (cases d) (auto simp: wp_return intro!: wp_bind_I [OF at_rest_own [OF own_calls(8)]])
  have body: "wp (if go' then worker_body fuel ev else return (Some ())) (\<lambda>r t. r = None \<or> at_rest n t) t"
    if "phase n False False t" for go' and t :: "'a modul_scheme"
    using that phase_body by (cases go') (auto simp: wp_return at_rest_def)
  have gen: "preserves own (modify (\<lambda>s. s\<lparr>worker_generation := worker_generation s + 1\<rparr>))"
    by (rule own_modify) simp
  show ?thesis
    unfolding run_network_def
    by (rule phase_bind [OF own_lwip(5) assms], rule phase_bind [OF own_calls(8)], assumption,
        rule phase_bind [OF own_lwip(5)], assumption, rule phase_bind [OF gen], assumption,
        rule phase_seq [OF phase_guard], assumption, rule wp_bind_I [OF body], assumption, rule leave)
qed

section \<open>Properties\<close>

lemma phase_of:
  "axp s = None \<Longrightarrow> \<not> g_open s \<Longrightarrow> \<not> active s \<Longrightarrow> phase (int (acquired s) - int (released s)) False False s"
  by (simp add: phase_def)

text \<open>C33. When the worker returns, no adapter is open and the network is down. Every USB interface
  it acquired, at its start or while recovering, has been released, on every path: a refused patch,
  a failed open or start, a DHCP timeout, a stop during any wait, a lost adapter. The one exception
  is a title that is ending, where the open adapter, at most one, is left to the console.\<close>

theorem worker_returns_adapter:
  assumes "axp s = None" "\<not> g_open s" "\<not> active s" and run: "run_state (run_network fuel ev) s = (Some r, t)"
  shows "r = 0 \<and> axp t = None \<and> \<not> g_open t \<and> \<not> active t \<and>
    (acquired t + released s = acquired s + released t \<or>
     title_ending t \<and> acquired t + released s = acquired s + released t + 1)"
  using wpD [OF run phase_run_network [OF phase_of [OF assms(1-3)]]]
  by (auto simp: at_rest_def phase_def)

text \<open>C34. Recovering a lost adapter ends in one of two ways: with one adapter open, its network
  started and no other interface held, or, only after a stop was requested, with none. No failed
  attempt leaves an interface behind.\<close>

theorem recover_outcome:
  assumes "axp s \<noteq> None" "g_open s" "active s" and run: "run_state (recover_adapter fuel ev True) s = (Some r, t)"
  shows "(r = 0 \<and> axp t \<noteq> None \<and> g_open t \<and> active t \<and> acquired t + released s = acquired s + released t \<or>
     r = - 1 \<and> axp t = None \<and> \<not> g_open t \<and> \<not> active t \<and> stopping t \<and>
       acquired t + released s + 1 = acquired s + released t)"
proof -
  have "phase (int (acquired s) - int (released s) - 1) True True s"
    using assms by (simp add: phase_def)
  from wpD [OF run phase_recover [OF this]] show ?thesis
    by (auto simp: phase_def)
qed

text \<open>An adapter that is not there, and a device that disappears and is asked to stop.\<close>

definition off :: "'z modul_scheme \<Rightarrow> 'z modul_scheme" where
  "off s = s\<lparr>axp := None, g_open := False, active := False\<rparr>"

definition no_adapter :: "call list \<Rightarrow> call \<Rightarrow> resp" where
  "no_adapter h c = resp0\<lparr>r_ret := (if c = Os Os_calloc then 1 else 0)\<rparr>"

lemma no_adapter_simps [simp]:
  "r_ret (no_adapter h c) = (if c = Os Os_calloc then 1 else 0)" "r_val (no_adapter h c) = 0"
  by (simp_all add: no_adapter_def resp0_def)

lemma guard_runs:
  assumes "env s = no_adapter" and "\<not> stopping s"
  shows "\<exists>cs. run_state (guard_wait n) s = (True, s\<lparr>trace := trace s @ cs\<rparr>)"
  using assms
proof (induction n arbitrary: s)
  case 0
  show ?case by (intro exI [of _ "[]"]) simp
next
  case (Suc n)
  let ?cs = "[Module Other_threads, Os (OSMillisecondsToTicks 100), Os (OSSleepTicks 0)]"
  obtain cs where "run_state (guard_wait n) (s\<lparr>trace := trace s @ ?cs\<rparr>) = (True, s\<lparr>trace := trace s @ ?cs @ cs\<rparr>)"
    using Suc.IH [of "s\<lparr>trace := trace s @ ?cs\<rparr>"] Suc.prems by auto
  then show ?case
    using Suc.prems
    by (intro exI [of _ "?cs @ cs"]) (simp add: load_stopping_def other_threads_def sleep_for_def ms_ticks_def)
qed

lemma off_simps [simp]:
  "env (off s) = env s" "trace (off s) = trace s" "axp (off s) = None" "\<not> g_open (off s)" "\<not> active (off s)"
  "stopping (off s) = stopping s"
  by (simp_all add: off_def)

lemma absent_runs:
  assumes "env s = no_adapter" "\<not> g_open s" "\<not> stopping s"
  shows "fst (run_state (run_network 1 ev) s) = Some 0"
proof -
  let ?s = "s\<lparr>trace := trace s @ [Module WHBLogUdpInit], ax_progress := (ax_progress s OR bitm 0) OR bitm 1,
     worker_generation := worker_generation s + 1\<rparr>"
  obtain cs where "run_state (guard_wait 20) ?s = (True, ?s\<lparr>trace := trace ?s @ cs\<rparr>)"
    using guard_runs [of ?s 20] assms by auto
  then show ?thesis
    using assms
    by (simp add: run_network_def worker_body_def apply_config_def nsysnet_shim_set_trace_level_def nsysnet_shim_set_system_dns_def
        nsysnet_shim_set_force_native_def nsysnet_shim_set_nssl_bridge_def ax_net_set_session_lease_mode_def
        ax_net_forget_def iosu_patch_apply_def patch_guard_def mocha_def GUARD_NOP_def GUARD_BEQ_def
        ax88179_open_def client_close_fail_def free_ax_def lwip_do_def lwip_def ax_mark_def runs)
qed

theorem worker_returns_adapter_witness:
  "\<exists>t. run_state (run_network 1 (\<lambda>_. [])) (off (module_init no_adapter)) = (Some 0, t) \<and> axp t = None \<and>
     (acquired t = released t \<or> title_ending t)"
proof -
  let ?s = "off (module_init no_adapter)"
  have "fst (run_state (run_network 1 (\<lambda>_. [])) ?s) = Some 0"
    by (rule absent_runs) simp_all
  then obtain t where t: "run_state (run_network 1 (\<lambda>_. [])) ?s = (Some 0, t)"
    by (metis prod.collapse)
  have "acquired ?s = 0" "released ?s = 0" by (simp_all add: acquired_def released_def calls_def)
  with worker_returns_adapter [OF _ _ _ t] t show ?thesis by auto
qed

definition told_to_stop :: "call list \<Rightarrow> call \<Rightarrow> resp" where
  "told_to_stop h c = resp0\<lparr>r_ret := (if c = Module Other_threads then 1 else 0)\<rparr>"

lemma told_simps [simp]: "r_ret (told_to_stop h c) = (if c = Module Other_threads then 1 else 0)"
  by (simp add: told_to_stop_def)

lemma recover_stopped: "env s = told_to_stop \<Longrightarrow> fst (run_state (recover_loop (Suc k) fuel ev) s) = Some (- 1)"
  by (simp add: load_stopping_def other_threads_def signal_stop_def nsysnet_shim_quiesce_def)

lemma stop_told:
  assumes "env s = told_to_stop" "axp s = Some ax_zero" "active s"
  shows "fst (run_state (recover_adapter 1 ev True) s) = Some (- 1)"
  using assms
  by (simp add: recover_stopped recover_adapter_def ax_net_stop_def stop_netif_def drain_one_def ax88179_close_def
      ax88179_force_cold_next_open_def ax_zero_def runs del: recover_loop.simps)

theorem recover_outcome_witness:
  "\<exists>t. run_state (recover_adapter 1 (\<lambda>_. []) True) (module_init told_to_stop) = (Some (- 1), t) \<and>
     axp t = None \<and> \<not> g_open t \<and> stopping t"
proof -
  let ?s = "module_init told_to_stop"
  have "fst (run_state (recover_adapter 1 (\<lambda>_. []) True) ?s) = Some (- 1)"
    by (rule stop_told) simp_all
  then obtain t where t: "run_state (recover_adapter 1 (\<lambda>_. []) True) ?s = (Some (- 1), t)"
    by (metis prod.collapse)
  from recover_outcome [OF _ _ _ t] t show ?thesis by auto
qed

end
