(* ===== verification/Module_Hooks.thy ===== *)
theory Module_Hooks
  imports Aroma_Module Shim_Select
begin

text \<open>
  The module between titles: when it starts its worker and when it stays silent, what a title's
  start leaves of the previous one in the shim, and the guard of the kernel patch.
\<close>

section \<open>The kernel patch\<close>

fun kernel_read :: "resp \<Rightarrow> call \<Rightarrow> (u32 \<times> u32) list" where
  "kernel_read r (Module (Mocha_IOSUKernelRead32 a)) = (if r_ret r = 0 then [(a, r_val r)] else [])"
| "kernel_read r c = []"

text \<open>C37. The kernel is written at most once, only at the guard, only with the NOP, and only after
  the guard was read as the expected branch. Success is reported only when the last read of the
  guard gave the NOP; nothing of the module's state changes.\<close>

theorem patch_guarded:
  assumes "run_state iosu_patch_apply s = (r, t)"
  shows "\<exists>cs. t = s\<lparr>trace := trace s @ cs\<rparr> \<and> (r = 0 \<or> r = - 1) \<and>
    (\<forall>a v. Module (Mocha_IOSUKernelWrite32 a v) \<in> set cs \<longrightarrow> a = GUARD_ADDR \<and> v = GUARD_NOP \<and>
       hd (collect kernel_read (env s) (trace s) cs) = (GUARD_ADDR, GUARD_BEQ)) \<and>
    (r = 0 \<longrightarrow> collect kernel_read (env s) (trace s) cs \<noteq> [] \<and>
       last (collect kernel_read (env s) (trace s) cs) = (GUARD_ADDR, GUARD_NOP))"
  using assms
  by (auto simp: iosu_patch_apply_def patch_guard_def mocha_def case_prod_beta GUARD_NOP_def GUARD_BEQ_def split: if_splits)

text \<open>A kernel that holds the expected branch until it is patched.\<close>

definition stock_kernel :: "call list \<Rightarrow> call \<Rightarrow> resp" where
  "stock_kernel h c = resp0\<lparr>r_val := (if Module (Mocha_IOSUKernelWrite32 GUARD_ADDR GUARD_NOP) \<in> set h then GUARD_NOP else GUARD_BEQ)\<rparr>"

theorem patch_guarded_witness:
  "\<exists>cs. snd (run_state iosu_patch_apply (net_init stock_kernel)) = (net_init stock_kernel)\<lparr>trace := cs\<rparr> \<and>
     fst (run_state iosu_patch_apply (net_init stock_kernel)) = 0 \<and>
     last (collect kernel_read stock_kernel [] cs) = (GUARD_ADDR, GUARD_NOP)"
proof -
  let ?r = "run_state iosu_patch_apply (net_init stock_kernel)"
  have i: "env (net_init stock_kernel) = stock_kernel" "trace (net_init stock_kernel) = []"
    by (simp_all add: net_init_def)
  have "r_ret resp0 = 0" by (simp add: resp0_def)
  then have "fst ?r = 0"
    by (simp add: iosu_patch_apply_def patch_guard_def mocha_def stock_kernel_def i GUARD_NOP_def GUARD_BEQ_def)
  with patch_guarded [of "net_init stock_kernel" "fst ?r" "snd ?r", OF prod.collapse [symmetric]] i show ?thesis by auto
qed

section \<open>Titles\<close>

datatype title_event = Starts | Ends | Unloads

fun on_event :: "nat \<Rightarrow> title_event \<Rightarrow> ('z modul_scheme, unit option) state" where
  "on_event fuel Starts = application_starts fuel"
| "on_event fuel Ends = do { stop_after_all_application_ends; return (Some ()) }"
| "on_event fuel Unloads = do { stop_worker; return (Some ()) }"

fun on_events :: "nat \<Rightarrow> title_event list \<Rightarrow> ('z modul_scheme, unit option) state" where
  "on_events fuel [] = return (Some ())"
| "on_events fuel (x # xs) = do {
     r \<leftarrow> on_event fuel x;
     if r = None then return None else on_events fuel xs }"

abbreviation (input) "starts xs \<equiv> length (filter ((=) Starts) xs)"

abbreviation (input) "titles n \<equiv> replicate n (Os OSGetTitleID)"

definition other_title :: "(call list \<Rightarrow> call \<Rightarrow> resp) \<Rightarrow> call list \<Rightarrow> bool" where
  "other_title e h \<longleftrightarrow> \<not> is_wiiu_menu_title (word_of_int (r_ret (e h (Os OSGetTitleID))))"

lemma silent_event:
  assumes "\<not> menu_seen s" "\<not> started s" "x = Starts \<Longrightarrow> other_title (env s) (trace s)"
  shows "run_state (on_event fuel x) s = (Some (), s\<lparr>trace := trace s @ titles (of_bool (x = Starts))\<rparr>)"
  using assms
  by (cases x) (simp_all add: application_starts_def stop_after_all_application_ends_def stop_worker_def whenM_def other_title_def)

lemma silent_events:
  assumes "\<not> started s" "\<not> menu_seen s" "\<forall>k < starts xs. other_title (env s) (trace s @ titles k)"
  shows "run_state (on_events fuel xs) s = (Some (), s\<lparr>trace := trace s @ titles (starts xs)\<rparr>)"
  using assms
proof (induction xs arbitrary: s)
  case Nil
  then show ?case by simp
next
  case (Cons x xs)
  let ?t = "s\<lparr>trace := trace s @ titles (of_bool (x = Starts))\<rparr>"
  have "other_title (env s) (trace s @ titles 0)" if "x = Starts"
    using Cons.prems(3) that by auto
  then have e: "run_state (on_event fuel x) s = (Some (), ?t)"
    using silent_event [of s x fuel] Cons.prems by simp
  have "other_title (env ?t) (trace ?t @ titles k)" if "k < starts xs" for k
    using Cons.prems(3) [rule_format, of "k + of_bool (x = Starts)"] that
    by (cases x) (simp_all add: replicate_app_Cons_same)
  then have "run_state (on_events fuel xs) ?t = (Some (), ?t\<lparr>trace := trace ?t @ titles (starts xs)\<rparr>)"
    using Cons.IH [of ?t] Cons.prems by simp
  moreover have "trace ?t @ titles (starts xs) = trace s @ titles (starts (x # xs))"
    by (cases x) simp_all
  ultimately show ?case
    using e by (simp del: on_event.simps)
qed

lemma running_start:
  assumes "started s"
  shows "run_state (application_starts fuel) s =
     (Some (), if \<not> menu_seen s \<and> other_title (env s) (trace s) then s\<lparr>trace := trace s @ [Os OSGetTitleID]\<rparr>
       else s\<lparr>trace := trace s @ [Os OSGetTitleID], menu_seen := True\<rparr>)"
  using assms by (simp add: application_starts_def other_title_def)

text \<open>C36. Until a Wii U Menu title has started the module does nothing at all: whatever titles
  start and end, it only asks for the title's id, once per start. And while its worker runs a
  further start changes nothing but the note that the menu was seen.\<close>

theorem silent_before_menu:
  "(\<not> started s \<and> \<not> menu_seen s \<and> (\<forall>k < starts xs. other_title (env s) (trace s @ titles k)) \<longrightarrow>
      run_state (on_events fuel xs) s = (Some (), s\<lparr>trace := trace s @ titles (starts xs)\<rparr>)) \<and>
   (started s \<longrightarrow> run_state (application_starts fuel) s =
      (Some (), if \<not> menu_seen s \<and> other_title (env s) (trace s) then s\<lparr>trace := trace s @ [Os OSGetTitleID]\<rparr>
        else s\<lparr>trace := trace s @ [Os OSGetTitleID], menu_seen := True\<rparr>))"
  using silent_events [of s xs fuel] running_start [of s fuel] by blast

text \<open>EnvironmentLoader, then a game, and no menu.\<close>

definition loader_only :: "call list \<Rightarrow> call \<Rightarrow> resp" where
  "loader_only h c = resp0\<lparr>r_ret := 0x00050010 + int (length h)\<rparr>"

theorem silent_before_menu_witness:
  "run_state (on_events 5 [Starts, Ends, Starts]) (module_init loader_only) =
     (Some (), (module_init loader_only)\<lparr>trace := [Os OSGetTitleID, Os OSGetTitleID]\<rparr>)"
proof -
  have "\<forall>k < 2. other_title loader_only (titles k)"
    by (auto simp: other_title_def loader_only_def is_wiiu_menu_title_def less_2_cases_iff)
  then show ?thesis
    using silent_before_menu [of "module_init loader_only" "[Starts, Ends, Starts]" 5] by (simp add: numeral_2_eq_2)
qed

section \<open>Waiting for the worker\<close>

definition joins :: "call \<Rightarrow> bool" where
  "joins c \<longleftrightarrow> c = Os (OSJoinThread WORKER)"

lemma await_alive:
  assumes "\<forall>h. r_ret (env s h (Os (OSIsThreadTerminated th))) = 0"
  shows "\<exists>cs. run_state (await_thread n th) s = ((), s\<lparr>trace := trace s @ cs\<rparr>) \<and> (\<forall>c \<in> set cs. \<not> joins c)"
  using assms
proof (induction n arbitrary: s)
  case 0
  show ?case by (intro exI [of _ "[]"]) simp
next
  case (Suc n)
  let ?c1 = "Os (OSIsThreadTerminated th)" and ?c2 = "Os (OSMillisecondsToTicks 10)"
  let ?cs = "[?c1, ?c2, Os (OSSleepTicks (r_ret (env s (trace s @ [?c1]) ?c2)))]"
  obtain cs where "run_state (await_thread n th) (s\<lparr>trace := trace s @ ?cs\<rparr>) = ((), s\<lparr>trace := trace s @ ?cs @ cs\<rparr>)"
      "\<forall>c \<in> set cs. \<not> joins c"
    using Suc.IH [of "s\<lparr>trace := trace s @ ?cs\<rparr>"] Suc.prems by auto
  then show ?case
    using Suc.prems
    by (intro exI [of _ "?cs @ cs"]) (auto simp: thread_terminated_def sleep_for_def ms_ticks_def whenM_def joins_def)
qed

text \<open>A worker that does not end within two seconds is neither joined nor remembered: the module
  counts it as stopped, and the next title's start creates a thread in the same structure and on
  the same stack.\<close>

theorem worker_forgotten:
  assumes "started s" "\<not> watchdog_started s" and "\<forall>h. r_ret (env s h (Os (OSIsThreadTerminated WORKER))) = 0"
  shows "\<exists>t cs. run_state stop_after_all_application_ends s = ((), t) \<and> \<not> started t \<and>
     trace t = trace s @ cs \<and> (\<forall>c \<in> set cs. \<not> joins c)"
proof -
  let ?s = "s\<lparr>title_ending := True, stopping := True\<rparr>"
  obtain cs where cs: "run_state (await_thread 200 WORKER) ?s = ((), ?s\<lparr>trace := trace ?s @ cs\<rparr>)" "\<forall>c \<in> set cs. \<not> joins c"
    using await_alive [of ?s WORKER 200] assms by auto
  show ?thesis
    by (rule exI, rule exI [of _ "cs @ [Os (OSIsThreadTerminated WORKER)]"])
       (use assms cs in \<open>auto simp: stop_after_all_application_ends_def signal_title_end_def join_thread_def
          thread_terminated_def whenM_def joins_def\<close>)
qed

section \<open>A clean slate for every title\<close>

lemma clock_any_alive: "preserves clock_view (any_alive is b)"
  by (induction "is" arbitrary: b) (auto intro!: preserves pres_ext simp: sleeps_def)

lemma wait_relays_stops:
  assumes "clock_ok (env s)" and "0 < fuel" and "d - int (sleeps (trace s)) < int fuel"
  shows "\<exists>t. run_state (wait_relays fuel d) s = (Some (), t)"
  using assms
proof (induction fuel arbitrary: s)
  case (Suc fuel)
  let ?now = "r_ret (env s (trace s) (Os OSGetTime))"
  let ?s1 = "s\<lparr>trace := trace s @ [Os OSGetTime]\<rparr>"
  obtain a t where a: "run_state (any_alive [0..<NSSL_RELAY_MAX] False) ?s1 = (a, t)" by fastforce
  then have v: "env t = env s" "sleeps (trace t) = sleeps (trace s)"
    using preserves_run [OF clock_any_alive, of "[0..<NSSL_RELAY_MAX]" False ?s1] by (simp_all add: clock_view_def sleeps_def)
  show ?case
  proof (cases "?now < d \<and> a")
    case False
    with a show ?thesis by auto
  next
    case True
    moreover have "int (sleeps (trace s)) \<le> ?now"
      using Suc.prems(1) by (simp add: clock_ok_def)
    ultimately have lt: "0 < fuel" "d - (int (sleeps (trace s)) + 1) < int fuel"
      using Suc.prems(3) by simp_all
    let ?u = "t\<lparr>trace := trace t @ [Os (OSMillisecondsToTicks 1),
        Os (OSSleepTicks (r_ret (env t (trace t) (Os (OSMillisecondsToTicks 1)))))]\<rparr>"
    have "sleeps (trace ?u) = sleeps (trace s) + 1" using v(2) by simp (simp add: sleeps_def)
    with lt Suc.IH [of ?u] Suc.prems(1) v(1) have "\<exists>w. run_state (wait_relays fuel d) ?u = (Some (), w)" by simp
    with a True show ?thesis by auto
  qed
qed simp

text \<open>What stopping the relays leaves alone.\<close>

definition idle_view :: "'z life_scheme \<Rightarrow> _" where
  "idle_view s = (env s, accepting_sockets s, listener_fd s, wl_pump s, compat_sock s)"

lemma idle_modify: "(\<And>s. idle_view (f s) = idle_view s) \<Longrightarrow> preserves idle_view (modify f)"
  by (rule preservesI) (simp add: wp)

lemma idle_calls [preserves]: "preserves idle_view (ext c)" "preserves idle_view (nsn d)" "preserves idle_view (set_errno e)"
  by (rule preservesI; simp add: wp idle_view_def nsn_def set_errno_def)+

lemma idle_tracked [preserves]: "preserves idle_view (shutdown_tracked w fds)"
proof (induction fds)
  case (Cons fd fds)
  have "preserves idle_view (nssl_public_fd_is_loopback (int fd))"
    unfolding nssl_public_fd_is_loopback_def native_def by (intro preserves)
  moreover have "preserves idle_view (nssl_untrack_public_fd (int fd))"
    unfolding nssl_untrack_public_fd_def by (intro preserves idle_modify) (simp add: idle_view_def)
  ultimately show ?case
    unfolding shutdown_tracked.simps by (intro preserves Cons.IH)
qed (simp add: preserves)

lemma idle_wait [preserves]: "preserves idle_view (any_alive is b)" "preserves idle_view (wait_relays k d)"
proof -
  show *: "preserves idle_view (any_alive is b)" for "is" b
    by (induction "is" arbitrary: b) (auto intro!: preserves)
  show "preserves idle_view (wait_relays k d)"
    by (induction k) (auto intro!: preserves *)
qed

lemma idle_stop_all [preserves]: "preserves idle_view (nssl_relay_stop_all k)"
  unfolding nssl_relay_stop_all_def nssl_relay_reap_def reap_slot_def upd_relay_def
  by (intro preserves idle_modify) (simp_all add: idle_view_def set_relay_def)

lemma stop_all_returns:
  assumes "clock_ok (env s)"
  shows "\<exists>n. \<forall>fuel \<ge> n. \<exists>t. run_state (nssl_relay_stop_all fuel) s = (Some (), t)"
proof -
  let ?s = "s\<lparr>nssl_relays := map stop_flagged (nssl_relays s),
     trace := trace s @ [Os OSGetTime, Os (OSMillisecondsToTicks 500)]\<rparr>"
  let ?d = "r_ret (env s (trace s) (Os OSGetTime)) + r_ret (env s (trace s @ [Os OSGetTime]) (Os (OSMillisecondsToTicks 500)))"
  have "\<exists>t. run_state (nssl_relay_stop_all fuel) s = (Some (), t)" if f: "nat ?d + 1 \<le> fuel" for fuel
  proof (cases "list_ex rl_allocated (nssl_relays s)")
    case True
    obtain t where "run_state (wait_relays fuel ?d) ?s = (Some (), t)"
      using wait_relays_stops [of ?s fuel ?d] assms f by force
    with True show ?thesis
      by (cases "run_state nssl_relay_reap t") (simp add: nssl_relay_stop_all_def)
  next
    case False
    then show ?thesis by (simp add: nssl_relay_stop_all_def)
  qed
  then show ?thesis by blast
qed

definition proxy_idle :: "'z proxy_scheme \<Rightarrow> bool" where
  "proxy_idle s \<longleftrightarrow> listener_fd s < 0 \<and> ax_fd (wl_pump s) < 0 \<and> native_fd (wl_pump s) < 0"

lemma run_sock_err: "\<exists>e. run_state (sock c) s = (env s (trace s) (Sock c), s\<lparr>trace := trace s @ [Sock c], errno := e\<rparr>)"
  by (cases "r_errno (env s (trace s) (Sock c))") (auto simp: sock_def set_errno_def intro: exI [of _ "errno s"])

lemma wp_proxy_stop:
  "wp nsysnet_shim_wiiload_proxy_stop (\<lambda>_ t. proxy_idle t \<and> compat_sock t = compat_sock s \<and> env t = env s) s"
proof -
  have sock: "wp (sock c) (\<lambda>r t. P t) u"
    if "\<And>e. P (u\<lparr>trace := trace u @ [Sock c], errno := e\<rparr>)" for c P and u :: "'a proxy_scheme"
    using run_sock_err [of c u] that by (auto simp: wp_run_state)
  show ?thesis
    unfolding nsysnet_shim_wiiload_proxy_stop_def wiiload_proxy_reset_connection_def close_native_side_def close_ax_side_def
    by (auto simp: wp nsn_def proxy_idle_def wl_empty_def intro!: sock)
qed

lemma compat_reset_upto:
  assumes "length (compat_sock s) = 32" and "n \<le> 32"
  shows "compat_sock (fold (\<lambda>fd. compat_state_reset (int fd)) [0..<n] s) = replicate n compat_fresh @ drop n (compat_sock s)"
  using assms(2)
proof (induction n)
  case (Suc n)
  then show ?case
    using assms(1)
    by (simp add: compat_state_reset_def fd_ok_def list_update_append Cons_nth_drop_Suc [symmetric] replicate_append_same)
qed simp

lemma compat_reset_all:
  "length (compat_sock s) = 32 \<Longrightarrow> compat_sock (compat_state_reset_all s) = replicate 32 compat_fresh"
  using compat_reset_upto [of s 32] by (simp add: compat_state_reset_all_def)

lemma compat_reset_only: "\<exists>c. compat_state_reset_all s = s\<lparr>compat_sock := c\<rparr>"
proof -
  have one: "\<exists>c. compat_state_reset i u = u\<lparr>compat_sock := c\<rparr>" for i and u :: "'a shim_scheme"
    by (cases "fd_ok i") (auto simp: compat_state_reset_def intro: exI [of _ "compat_sock u"])
  have "\<exists>c. fold (\<lambda>fd. compat_state_reset (int fd)) fds s = s\<lparr>compat_sock := c\<rparr>" for fds
  proof (induction fds rule: rev_induct)
    case Nil
    show ?case by (intro exI [of _ "compat_sock s"]) simp
  next
    case (snoc fd fds)
    then obtain c where "fold (\<lambda>fd. compat_state_reset (int fd)) fds s = s\<lparr>compat_sock := c\<rparr>" by blast
    then show ?case
      using one [of "int fd" "s\<lparr>compat_sock := c\<rparr>"] by auto
  qed
  then show ?thesis by (simp add: compat_state_reset_all_def)
qed

definition slate :: "'z life_scheme \<Rightarrow> bool" where
  "slate t \<longleftrightarrow> \<not> accepting_sockets t \<and> open_mask t = 0 \<and> mapped_fd t = replicate 32 (- 1) \<and>
     compat_sock t = replicate 32 compat_fresh \<and> ai_owned t = replicate 8 0 \<and>
     (\<forall>x \<in> set (async_dns_slots t). as_state x = ASYNC_DNS_FREE) \<and> proxy_idle t \<and>
     nssl_public_mask t = 0 \<and> ftp_restart_mask t = 0 \<and> probe_thread t = 0"

lemma begin_title_tail:
  assumes "idle_view s = (e, False, l, p, c)" "l < 0" "ax_fd p < 0" "native_fd p < 0" "length c = 32"
  shows "wp (do {
      modify clear_title;
      modify compat_state_reset_all;
      async_dns_reset_all;
      modify (\<lambda>s. s\<lparr>ai_owned := replicate 8 0\<rparr>);
      return (Some ()) }) (\<lambda>r t. r = Some () \<and> slate t) s"
proof -
  have "compat_sock (compat_state_reset_all (clear_title s)) = replicate 32 compat_fresh"
    using assms by (intro compat_reset_all) (simp add: clear_title_def idle_view_def)
  moreover obtain d where "compat_state_reset_all (clear_title s) = (clear_title s)\<lparr>compat_sock := d\<rparr>"
    using compat_reset_only by blast
  ultimately show ?thesis
    using assms by (auto simp: wp async_dns_reset_all_def slate_def clear_title_def idle_view_def proxy_idle_def)
qed

text \<open>C35. A title starts on a clean slate: whatever the previous one left, the shim stops
  accepting, no descriptor is routed, the options, address lists and asynchronous lookups are
  forgotten, and the Wiiload proxy is closed. The call returns, since the wait for the relays ends
  when the clock reaches its deadline.\<close>

theorem title_clean_slate:
  assumes "clock_ok (env s)" and "length (compat_sock s) = 32"
  shows "\<exists>n. \<forall>fuel \<ge> n. \<exists>t. run_state (nsysnet_shim_begin_title fuel) s = (Some (), t) \<and> slate t \<and>
    (\<forall>fd. is_foreign fd t)"
proof -
  obtain s1 where s1: "run_state nsysnet_shim_wiiload_proxy_stop s = ((), s1)"
    by (cases "run_state nsysnet_shim_wiiload_proxy_stop s") simp
  note p = wpD [OF s1 wp_proxy_stop]
  let ?s2 = "s1\<lparr>accepting_sockets := False, probe_owns_accepting := False\<rparr>"
  obtain i s3 where s3: "run_state nssl_shutdown_all_tracked ?s2 = (i, s3)" by fastforce
  have "preserves idle_view nssl_shutdown_all_tracked"
    unfolding nssl_shutdown_all_tracked_def by (intro preserves)
  then have v: "idle_view s3 = idle_view ?s2" using preserves_run s3 by (metis snd_conv)
  then have e: "clock_ok (env s3)" using p assms(1) by (simp add: idle_view_def)
  obtain n where n: "\<And>fuel. n \<le> fuel \<Longrightarrow> \<exists>t. run_state (nssl_relay_stop_all fuel) s3 = (Some (), t)"
    using stop_all_returns [OF e] by blast
  have "\<exists>t. run_state (nsysnet_shim_begin_title fuel) s = (Some (), t) \<and> slate t \<and> (\<forall>fd. is_foreign fd t)" if f: "n \<le> fuel" for fuel
  proof -
    obtain s4 where s4: "run_state (nssl_relay_stop_all fuel) s3 = (Some (), s4)" using n [OF f] by blast
    have "idle_view s4 = idle_view s3" using preserves_run [OF idle_stop_all, of fuel s3] s4 by simp
    then have v4: "idle_view s4 = (env s1, False, listener_fd s1, wl_pump s1, compat_sock s1)"
      using v by (simp add: idle_view_def)
    obtain r t where t: "run_state (do {
        modify clear_title; modify compat_state_reset_all; async_dns_reset_all;
        modify (\<lambda>s. s\<lparr>ai_owned := replicate 8 0\<rparr>); return (Some ()) }) s4 = (r, t)" by fastforce
    have "r = Some () \<and> slate t"
      by (rule wpD [OF t begin_title_tail [OF v4]]) (use p assms(2) in \<open>auto simp: proxy_idle_def\<close>)
    moreover have "run_state (nsysnet_shim_begin_title fuel) s = (r, t)"
      using t by (simp add: nsysnet_shim_begin_title_def nsysnet_shim_stop_accepting_def nsysnet_shim_quiesce_def s1 s3 s4)
    ultimately show ?thesis by (auto simp: is_foreign_def shim_accepts_def slate_def)
  qed
  then show ?thesis by blast
qed

theorem title_clean_slate_witness:
  "\<exists>n t. run_state (nsysnet_shim_begin_title n) (life_init sleepy_clock) = (Some (), t) \<and> slate t"
proof -
  let ?s = "life_init sleepy_clock"
  have len: "length (compat_sock ?s) = 32"
    by (simp add: life_init_def proxy.defs life.defs proxy_init_def dns.defs shim.defs shim_init_def net_init_def net.defs)
  have clock: "clock_ok (env ?s)" by (simp add: clock_ok_def sleepy_clock_def)
  obtain n where "\<forall>fuel \<ge> n. \<exists>t. run_state (nsysnet_shim_begin_title fuel) ?s = (Some (), t) \<and> slate t \<and> (\<forall>fd. is_foreign fd t)"
    using title_clean_slate [OF clock len] by blast
  then show ?thesis by blast
qed

end
