(* ===== verification/Sys_Arch.thy ===== *)
theory Sys_Arch
  imports Shim_Select
begin

text \<open>
  The port of lwIP to the console, \<^verbatim>\<open>net/port/sys_arch.c\<close>: clock, semaphores, mutexes, mailboxes,
  threads and critical sections over coreinit. A handle is the address of the object, 0 for NULL,
  and an operation that stores a handle through its argument returns the value stored. The block
  that carries a thread's function and argument to the new thread is kept in \<open>thread_starts\<close>.
\<close>

record port = net +
  ax_fetch_calls :: u32
  ax_fetch_timeouts :: u32
  ax_fetch_infinite :: u32
  ax_fetch_msgs :: u32
  thread_starts :: "u32 \<rightharpoonup> u32 \<times> u32"

definition cafe :: "port_call \<Rightarrow> ('z drv_scheme, resp) state" where
  "cafe c = ext (Port c)"

definition cafe_do :: "port_call \<Rightarrow> ('z drv_scheme, unit) state" where
  "cafe_do c = do { cafe c; return () }"

section \<open>Time\<close>

definition ticks_ms :: "int \<Rightarrow> ('z drv_scheme, u32) state" where
  "ticks_ms d = do { r \<leftarrow> ext (Os (OSTicksToMilliseconds d)); return (word_of_int (r_ret r)) }"

definition get_time :: "('z drv_scheme, int) state" where
  "get_time = do { r \<leftarrow> ext (Os OSGetTime); return (r_ret r) }"

definition sys_now :: "('z drv_scheme, u32) state" where
  "sys_now = do { t \<leftarrow> get_time; ticks_ms t }"

definition msleep :: "nat \<Rightarrow> ('z drv_scheme, unit) state" where
  "msleep ms = do {
     t \<leftarrow> ext (Os (OSMillisecondsToTicks ms));
     ext (Os (OSSleepTicks (r_ret t)));
     return () }"

section \<open>Semaphores\<close>

abbreviation (input) "SYS_ARCH_TIMEOUT \<equiv> (0xFFFFFFFF :: u32)"
abbreviation (input) "SYS_MBOX_EMPTY \<equiv> SYS_ARCH_TIMEOUT"

definition sys_sem_new :: "u8 \<Rightarrow> ('z drv_scheme, int \<times> u32) state" where
  "sys_sem_new count = do {
     m \<leftarrow> cafe New_sem;
     if r_val m = 0 then return (ERR_MEM, 0)
     else do { cafe_do (OSInitSemaphore (r_val m) count); return (ERR_OK, r_val m) } }"

definition sys_sem_free :: "u32 \<Rightarrow> ('z drv_scheme, u32) state" where
  "sys_sem_free sem = do { cafe_do (Port_free sem); return 0 }"

definition sys_sem_signal :: "u32 \<Rightarrow> ('z drv_scheme, unit) state" where
  "sys_sem_signal sem = cafe_do (OSSignalSemaphore sem)"

definition sys_sem_valid :: "u32 \<Rightarrow> bool" where
  "sys_sem_valid sem \<longleftrightarrow> sem \<noteq> 0"

definition sys_sem_set_invalid :: "u32 \<Rightarrow> u32" where
  "sys_sem_set_invalid sem = 0"

text \<open>A wait that polls: \<open>attempt\<close> once a millisecond until it succeeds or the time is up.
  \<open>None\<close> is a timeout; otherwise what \<open>attempt\<close> got.\<close>

fun poll_until :: "nat \<Rightarrow> port_call \<Rightarrow> int \<Rightarrow> u32 \<Rightarrow> ('z drv_scheme, resp option option) state" where
  "poll_until 0 attempt start timeout = return None"
| "poll_until (Suc k) attempt start timeout = do {
     r \<leftarrow> cafe attempt;
     if r_ret r \<noteq> 0 then return (Some (Some r))
     else do {
       now \<leftarrow> get_time;
       elapsed \<leftarrow> ticks_ms (now - start);
       if elapsed \<ge> timeout then return (Some None)
       else do { msleep 1; poll_until k attempt start timeout } } }"

definition sys_arch_sem_wait :: "nat \<Rightarrow> u32 \<Rightarrow> u32 \<Rightarrow> ('z drv_scheme, u32 option) state" where
  "sys_arch_sem_wait fuel sem timeout =
     (if timeout = 0 then do { cafe_do (OSWaitSemaphore sem); return (Some 0) }
      else do {
        start \<leftarrow> get_time;
        w \<leftarrow> poll_until fuel (OSTryWaitSemaphore sem) start timeout;
        (case w of None \<Rightarrow> return None
         | Some None \<Rightarrow> return (Some SYS_ARCH_TIMEOUT)
         | Some (Some _) \<Rightarrow> do { now \<leftarrow> get_time; ms \<leftarrow> ticks_ms (now - start); return (Some ms) }) })"

section \<open>Mutexes\<close>

definition sys_mutex_new :: "('z drv_scheme, int \<times> u32) state" where
  "sys_mutex_new = do {
     m \<leftarrow> cafe New_mutex;
     if r_val m = 0 then return (ERR_MEM, 0)
     else do { cafe_do (OSInitMutex (r_val m)); return (ERR_OK, r_val m) } }"

definition sys_mutex_lock :: "u32 \<Rightarrow> ('z drv_scheme, unit) state" where
  "sys_mutex_lock m = cafe_do (OSLockMutex m)"

definition sys_mutex_unlock :: "u32 \<Rightarrow> ('z drv_scheme, unit) state" where
  "sys_mutex_unlock m = cafe_do (OSUnlockMutex m)"

definition sys_mutex_free :: "u32 \<Rightarrow> ('z drv_scheme, u32) state" where
  "sys_mutex_free m = do { cafe_do (Port_free m); return 0 }"

definition sys_mutex_valid :: "u32 \<Rightarrow> bool" where
  "sys_mutex_valid m \<longleftrightarrow> m \<noteq> 0"

definition sys_mutex_set_invalid :: "u32 \<Rightarrow> u32" where
  "sys_mutex_set_invalid m = 0"

section \<open>Mailboxes\<close>

definition sys_mbox_new :: "int \<Rightarrow> ('z drv_scheme, int \<times> u32) state" where
  "sys_mbox_new sz = do {
     let n = nat (if sz \<le> 0 then 1 else sz);
     m \<leftarrow> cafe (New_mbox n);
     if r_val m = 0 then return (ERR_MEM, 0)
     else do { cafe_do (Mbox_init (r_val m) n); return (ERR_OK, r_val m) } }"

definition sys_mbox_post :: "u32 \<Rightarrow> u32 \<Rightarrow> ('z drv_scheme, unit) state" where
  "sys_mbox_post mbox msg = cafe_do (Mbox_send mbox msg True)"

definition sys_mbox_trypost :: "u32 \<Rightarrow> u32 \<Rightarrow> ('z drv_scheme, int) state" where
  "sys_mbox_trypost mbox msg = do {
     r \<leftarrow> cafe (Mbox_send mbox msg False);
     return (if r_ret r \<noteq> 0 then ERR_OK else ERR_MEM) }"

definition sys_mbox_trypost_fromisr :: "u32 \<Rightarrow> u32 \<Rightarrow> ('z drv_scheme, int) state" where
  "sys_mbox_trypost_fromisr mbox msg = sys_mbox_trypost mbox msg"

text \<open>A fetch also returns the message it stores, if it stores one.\<close>

definition sys_arch_mbox_fetch :: "nat \<Rightarrow> u32 \<Rightarrow> u32 \<Rightarrow> ('z port_scheme, (u32 \<times> u32 option) option) state" where
  "sys_arch_mbox_fetch fuel mbox timeout = do {
     modify (\<lambda>s. s\<lparr>ax_fetch_calls := ax_fetch_calls s + 1\<rparr>);
     if timeout = 0 then do {
       modify (\<lambda>s. s\<lparr>ax_fetch_infinite := ax_fetch_infinite s + 1\<rparr>);
       r \<leftarrow> cafe (Mbox_receive mbox True);
       modify (\<lambda>s. s\<lparr>ax_fetch_msgs := ax_fetch_msgs s + 1\<rparr>);
       return (Some (0, Some (r_val r))) }
     else do {
       start \<leftarrow> get_time;
       w \<leftarrow> poll_until fuel (Mbox_receive mbox False) start timeout;
       (case w of None \<Rightarrow> return None
        | Some None \<Rightarrow> do {
            modify (\<lambda>s. s\<lparr>ax_fetch_timeouts := ax_fetch_timeouts s + 1\<rparr>);
            return (Some (SYS_ARCH_TIMEOUT, None)) }
        | Some (Some r) \<Rightarrow> do {
            modify (\<lambda>s. s\<lparr>ax_fetch_msgs := ax_fetch_msgs s + 1\<rparr>);
            now \<leftarrow> get_time;
            ms \<leftarrow> ticks_ms (now - start);
            return (Some (ms, Some (r_val r))) }) } }"

definition sys_arch_mbox_tryfetch :: "u32 \<Rightarrow> ('z drv_scheme, u32 \<times> u32 option) state" where
  "sys_arch_mbox_tryfetch mbox = do {
     r \<leftarrow> cafe (Mbox_receive mbox False);
     return (if r_ret r = 0 then (SYS_MBOX_EMPTY, None) else (0, Some (r_val r))) }"

definition sys_mbox_free :: "u32 \<Rightarrow> ('z drv_scheme, u32) state" where
  "sys_mbox_free mbox = do { cafe_do (Port_free mbox); return 0 }"

definition sys_mbox_valid :: "u32 \<Rightarrow> bool" where
  "sys_mbox_valid mbox \<longleftrightarrow> mbox \<noteq> 0"

definition sys_mbox_set_invalid :: "u32 \<Rightarrow> u32" where
  "sys_mbox_set_invalid mbox = 0"

section \<open>Threads\<close>

definition ax_thread_entry :: "u32 \<Rightarrow> ('z port_scheme, int) state" where
  "ax_thread_entry start = do {
     ax_mark 7;
     b \<leftarrow> gets (\<lambda>s. the (thread_starts s start));
     cafe_do (Port_free start);
     modify (\<lambda>s. s\<lparr>thread_starts := (thread_starts s)(start := None)\<rparr>);
     cafe_do (Run_thread_fn (fst b) (snd b));
     return 0 }"

definition thread_prio :: "int \<Rightarrow> int" where
  "thread_prio prio = (let c = 4 + prio; d = (if c > 31 then 31 else c) in if d < 0 then 0 else d)"

definition free_each :: "u32 list \<Rightarrow> ('z drv_scheme, unit) state" where
  "free_each ps = for_each ps (\<lambda>p. cafe_do (Port_free p))"

definition sys_thread_new :: "u32 \<Rightarrow> u32 \<Rightarrow> int \<Rightarrow> int \<Rightarrow> ('z port_scheme, u32) state" where
  "sys_thread_new fn arg stacksize prio = do {
     let sz = (if stacksize \<le> 0 then 16 * 1024 else stacksize);
     rt \<leftarrow> cafe New_thread;
     rs \<leftarrow> cafe (New_stack sz);
     rb \<leftarrow> cafe New_thread_start;
     let (t, stack, start) = (r_val rt, r_val rs, r_val rb);
     if t = 0 \<or> stack = 0 \<or> start = 0 then do { free_each [t, stack, start]; return 0 }
     else do {
       modify (\<lambda>s. s\<lparr>thread_starts := (thread_starts s)(start \<mapsto> (fn, arg))\<rparr>);
       c \<leftarrow> cafe (Port_create_thread t start (stack + word_of_int sz) sz (thread_prio prio));
       if r_ret c = 0 then do {
         free_each [t, stack, start];
         modify (\<lambda>s. s\<lparr>thread_starts := (thread_starts s)(start := None)\<rparr>);
         return 0 }
       else do {
         cafe_do (OSDetachThread t);
         cafe_do (Port_resume_thread t);
         ax_mark 6;
         return t } } }"

section \<open>Critical sections\<close>

text \<open>The one mutex that protects lwIP's short critical sections.\<close>

definition sys_init :: "u32 \<Rightarrow> ('z drv_scheme, unit) state" where
  "sys_init protect_mutex = cafe_do (OSInitMutex protect_mutex)"

definition sys_arch_protect :: "u32 \<Rightarrow> ('z drv_scheme, u32) state" where
  "sys_arch_protect protect_mutex = do { cafe_do (OSLockMutex protect_mutex); return 0 }"

definition sys_arch_unprotect :: "u32 \<Rightarrow> u32 \<Rightarrow> ('z drv_scheme, unit) state" where
  "sys_arch_unprotect protect_mutex p = cafe_do (OSUnlockMutex protect_mutex)"

section \<open>Timed waits\<close>

text \<open>What is used of the clock: \<open>k\<close> ticks are a millisecond, a sleep of a millisecond lasts at
  least that long, time does not go back, and a wait of \<open>n\<close> such sleeps is over before the 32-bit
  count of milliseconds wraps around.\<close>

definition port_clock :: "int \<Rightarrow> nat \<Rightarrow> (call list \<Rightarrow> call \<Rightarrow> resp) \<Rightarrow> bool" where
  "port_clock k n e \<longleftrightarrow> 0 < k \<and>
     (\<forall>h g. r_ret (e h (Os OSGetTime)) + k * int (sleeps g) \<le> r_ret (e (h @ g) (Os OSGetTime))) \<and>
     (\<forall>h g. sleeps g \<le> n \<longrightarrow> r_ret (e (h @ g) (Os OSGetTime)) - r_ret (e h (Os OSGetTime)) < k * 2 ^ 32) \<and>
     (\<forall>h d. r_ret (e h (Os (OSTicksToMilliseconds d))) = d div k)"

definition got :: "port_call \<Rightarrow> resp \<Rightarrow> call \<Rightarrow> resp list" where
  "got attempt r c = (if c = Port attempt \<and> r_ret r \<noteq> 0 then [r] else [])"

lemma mult_div_le: "0 < k \<Longrightarrow> k * (x div k) \<le> (x :: int)"
  using mult_div_mod_eq [of k x] pos_mod_sign [of k x] by linarith

lemma late_iff:
  assumes "port_clock k n e" and "start = r_ret (e h0 (Os OSGetTime))" and "now = r_ret (e (h0 @ g) (Os OSGetTime))"
    and "sleeps g \<le> n"
  shows "int (sleeps g) \<le> (now - start) div k"
    "timeout \<le> (word_of_int ((now - start) div k) :: u32) \<longleftrightarrow> int (unat timeout) \<le> (now - start) div k"
proof -
  have k: "0 < k" "start + k * int (sleeps g) \<le> now" "now - start < k * 2 ^ 32"
    using assms by (auto simp: port_clock_def)
  show le: "int (sleeps g) \<le> (now - start) div k"
    using k(1,2) zdiv_mono1 [of "k * int (sleeps g)" "now - start" k] by simp
  have "k * ((now - start) div k) < k * 2 ^ 32"
    using k(3) mult_div_le [OF k(1), of "now - start"] by linarith
  then have "(now - start) div k < 2 ^ 32"
    using k(1) by simp
  with le show "timeout \<le> (word_of_int ((now - start) div k) :: u32) \<longleftrightarrow> int (unat timeout) \<le> (now - start) div k"
    by (simp add: word_le_def uint_word_of_int take_bit_int_eq_self)
qed

lemma poll_until_spec:
  assumes clk: "port_clock k (unat timeout) (env s)" and tr: "trace s = h0 @ g" and st: "start = r_ret (env s h0 (Os OSGetTime))"
    and enough: "0 < fuel" "unat timeout < fuel + sleeps g" "sleeps g \<le> unat timeout"
  shows "\<exists>w cs. run_state (poll_until fuel attempt start timeout) s = (Some w, s\<lparr>trace := trace s @ cs\<rparr>) \<and>
    (case w of Some r \<Rightarrow> collect (got attempt) (env s) (trace s) cs = [r]
     | None \<Rightarrow> collect (got attempt) (env s) (trace s) cs = [] \<and>
         (\<exists>g' g''. cs = g' @ g'' \<and> start + k * int (unat timeout) \<le> r_ret (env s (trace s @ g') (Os OSGetTime))))"
  using assms
proof (induction fuel arbitrary: s g)
  case (Suc fuel)
  let ?c = "Port attempt" and ?e = "env s"
  let ?r = "?e (trace s) ?c"
  let ?now = "r_ret (?e (trace s @ [?c]) (Os OSGetTime))"
  let ?m = "Os (OSTicksToMilliseconds (?now - start))"
  have got1: "got attempt (?e (trace s) ?c) ?c = (if r_ret ?r \<noteq> 0 then [?r] else [])" by (simp add: got_def)
  have others: "got attempt x (Os c) = []" for x c by (simp add: got_def)
  show ?case
  proof (cases "r_ret ?r = 0")
    case False
    then show ?thesis
      by (intro exI [of _ "Some ?r"] exI [of _ "[?c]"]) (simp add: cafe_def got1)
  next
    case True
    have now: "?now = r_ret (?e (h0 @ (g @ [?c])) (Os OSGetTime))" using Suc.prems(2) by simp
    have le: "sleeps (g @ [?c]) \<le> unat timeout" using Suc.prems(6) by (simp add: sleeps_def)
    note late = late_iff [OF Suc.prems(1,3) now le]
    have ms: "r_ret (?e h (Os (OSTicksToMilliseconds d))) = d div k" for h d using Suc.prems(1) by (simp add: port_clock_def)
    have k: "0 < k" using Suc.prems(1) by (simp add: port_clock_def)
    show ?thesis
    proof (cases "timeout \<le> word_of_int ((?now - start) div k)")
      case over: True
      then have "k * int (unat timeout) \<le> k * ((?now - start) div k)" using late(2) k by simp
      then have "start + k * int (unat timeout) \<le> ?now"
        using mult_div_le [OF k, of "?now - start"] by linarith
      then have "\<exists>g' g''. [?c, Os OSGetTime, ?m] = g' @ g'' \<and> start + k * int (unat timeout) \<le> r_ret (?e (trace s @ g') (Os OSGetTime))"
        by (intro exI [of _ "[?c]"] exI [of _ "[Os OSGetTime, ?m]"]) simp
      with True over show ?thesis
        by (intro exI [of _ None] exI [of _ "[?c, Os OSGetTime, ?m]"])
           (simp add: cafe_def get_time_def ticks_ms_def ms others got1)
    next
      case early: False
      let ?t = "Os (OSMillisecondsToTicks 1)"
      let ?cs = "[?c, Os OSGetTime, ?m, ?t, Os (OSSleepTicks (r_ret (?e (trace s @ [?c, Os OSGetTime, ?m]) ?t)))]"
      let ?s = "s\<lparr>trace := trace s @ ?cs\<rparr>"
      have sl: "sleeps (g @ ?cs) = sleeps g + 1" by (simp add: sleeps_def)
      have "sleeps [?c] = 0" by (simp add: sleeps_def)
      then have "int (sleeps g) \<le> (?now - start) div k" using late(1) by simp
      moreover have "\<not> int (unat timeout) \<le> (?now - start) div k" using early late(2) [of timeout] by blast
      ultimately have "sleeps g < unat timeout" by linarith
      then have f: "0 < fuel" "unat timeout < fuel + sleeps (g @ ?cs)" "sleeps (g @ ?cs) \<le> unat timeout"
        using Suc.prems(5) unfolding sl by linarith+
      obtain w cs where IH: "run_state (poll_until fuel attempt start timeout) ?s = (Some w, ?s\<lparr>trace := trace ?s @ cs\<rparr>)"
          "(case w of Some r \<Rightarrow> collect (got attempt) (env ?s) (trace ?s) cs = [r]
           | None \<Rightarrow> collect (got attempt) (env ?s) (trace ?s) cs = [] \<and>
               (\<exists>g' g''. cs = g' @ g'' \<and> start + k * int (unat timeout) \<le> r_ret (env ?s (trace ?s @ g') (Os OSGetTime))))"
        using Suc.IH [of ?s "g @ ?cs", OF _ _ _ f] Suc.prems by auto
      have run: "run_state (poll_until (Suc fuel) attempt start timeout) s = run_state (poll_until fuel attempt start timeout) ?s"
        using True early by (simp add: cafe_def get_time_def ticks_ms_def msleep_def ms)
      have none: "collect (got attempt) ?e (trace s) ?cs = []" using True by (simp add: got1 others)
      show ?thesis
      proof (intro exI conjI)
        show "run_state (poll_until (Suc fuel) attempt start timeout) s = (Some w, s\<lparr>trace := trace s @ ?cs @ cs\<rparr>)"
          using run IH(1) by simp
        show "case w of Some r \<Rightarrow> collect (got attempt) ?e (trace s) (?cs @ cs) = [r]
           | None \<Rightarrow> collect (got attempt) ?e (trace s) (?cs @ cs) = [] \<and>
               (\<exists>g' g''. ?cs @ cs = g' @ g'' \<and> start + k * int (unat timeout) \<le> r_ret (?e (trace s @ g') (Os OSGetTime)))"
          using IH(2) unfolding collect_append none
          by (cases w) (simp_all, metis append_Cons append_assoc)
      qed
    qed
  qed
qed simp

text \<open>The timed fetch, given how its polling ended.\<close>

lemma mbox_fetch_run:
  assumes "timeout \<noteq> 0"
    and "run_state (poll_until fuel (Mbox_receive mbox False) (r_ret (env s (trace s) (Os OSGetTime))) timeout)
      (s\<lparr>ax_fetch_calls := ax_fetch_calls s + 1, trace := trace s @ [Os OSGetTime]\<rparr>) =
      (Some w, s\<lparr>ax_fetch_calls := ax_fetch_calls s + 1, trace := trace s @ Os OSGetTime # cs\<rparr>)"
  obtains r t ds where "run_state (sys_arch_mbox_fetch fuel mbox timeout) s = (Some (r, map_option r_val w), t)"
    "trace t = trace s @ Os OSGetTime # cs @ map Os ds" "w = None \<Longrightarrow> r = SYS_ARCH_TIMEOUT \<and> ds = []"
proof (cases w)
  case None
  have "\<exists>t. run_state (sys_arch_mbox_fetch fuel mbox timeout) s = (Some (SYS_ARCH_TIMEOUT, None), t) \<and>
      trace t = trace s @ Os OSGetTime # cs"
    using assms None by (simp add: sys_arch_mbox_fetch_def get_time_def)
  with that [of _ _ "[]"] None show ?thesis by auto
next
  case (Some r)
  have "\<exists>ms t d. run_state (sys_arch_mbox_fetch fuel mbox timeout) s = (Some (ms, Some (r_val r)), t) \<and>
      trace t = trace s @ Os OSGetTime # cs @ map Os [OSGetTime, OSTicksToMilliseconds d]"
    using assms Some by (simp add: sys_arch_mbox_fetch_def get_time_def ticks_ms_def)
  with that Some show ?thesis unfolding Some option.map by blast
qed

text \<open>C39. A mailbox fetch with a timeout returns, within as many rounds as the timeout has
  milliseconds. It takes one message and returns it, or it takes none and reports a timeout, and
  then the time is really up.\<close>

theorem mbox_fetch_timed:
  assumes "port_clock k (unat timeout) (env s)" and "timeout \<noteq> 0" and "unat timeout < fuel"
  shows "\<exists>r m t cs. run_state (sys_arch_mbox_fetch fuel mbox timeout) s = (Some (r, m), t) \<and> trace t = trace s @ cs \<and>
    (case m of Some v \<Rightarrow> map r_val (collect (got (Mbox_receive mbox False)) (env s) (trace s) cs) = [v]
     | None \<Rightarrow> collect (got (Mbox_receive mbox False)) (env s) (trace s) cs = [] \<and> r = SYS_ARCH_TIMEOUT \<and>
         (\<exists>g g'. cs = g @ g' \<and> r_ret (env s (trace s) (Os OSGetTime)) + k * int (unat timeout)
            \<le> r_ret (env s (trace s @ g) (Os OSGetTime))))"
proof -
  let ?attempt = "Mbox_receive mbox False"
  let ?s = "s\<lparr>ax_fetch_calls := ax_fetch_calls s + 1, trace := trace s @ [Os OSGetTime]\<rparr>"
  let ?start = "r_ret (env s (trace s) (Os OSGetTime))"
  have others: "collect (got ?attempt) e h (map Os ds) = []" for e h ds
    by (induction ds arbitrary: h) (simp_all add: got_def)
  have p: "port_clock k (unat timeout) (env ?s)" "trace ?s = trace s @ [Os OSGetTime]" "?start = r_ret (env ?s (trace s) (Os OSGetTime))"
      "0 < fuel" "unat timeout < fuel + sleeps [Os OSGetTime]" "sleeps [Os OSGetTime] \<le> unat timeout"
    using assms by (simp_all add: sleeps_def)
  obtain w cs where w: "run_state (poll_until fuel ?attempt ?start timeout) ?s = (Some w, ?s\<lparr>trace := trace ?s @ cs\<rparr>)"
      "case w of Some r \<Rightarrow> collect (got ?attempt) (env ?s) (trace ?s) cs = [r]
       | None \<Rightarrow> collect (got ?attempt) (env ?s) (trace ?s) cs = [] \<and>
         (\<exists>g' g''. cs = g' @ g'' \<and> ?start + k * int (unat timeout) \<le> r_ret (env ?s (trace ?s @ g') (Os OSGetTime)))"
    using poll_until_spec [OF p, of ?attempt] by blast
  obtain r t ds where t: "run_state (sys_arch_mbox_fetch fuel mbox timeout) s = (Some (r, map_option r_val w), t)"
      "trace t = trace s @ Os OSGetTime # cs @ map Os ds" "w = None \<Longrightarrow> r = SYS_ARCH_TIMEOUT \<and> ds = []"
    using mbox_fetch_run [OF assms(2), of fuel mbox s w cs] w(1) by auto
  have got: "collect (got ?attempt) (env s) (trace s) (Os OSGetTime # cs @ map Os ds) =
      collect (got ?attempt) (env s) (trace s @ [Os OSGetTime]) cs"
    by (simp add: others) (simp add: got_def)
  have "\<exists>h h'. Os OSGetTime # cs = h @ h' \<and> ?start + k * int (unat timeout) \<le> r_ret (env s (trace s @ h) (Os OSGetTime))"
    if none: "w = None"
  proof -
    obtain g g' where "cs = g @ g'" "?start + k * int (unat timeout) \<le> r_ret (env s (trace s @ Os OSGetTime # g) (Os OSGetTime))"
      using w(2) none by auto
    then show ?thesis by (intro exI [of _ "Os OSGetTime # g"] exI [of _ g']) simp
  qed
  with t got w(2) show ?thesis
    by (intro exI [of _ r] exI [of _ "map_option r_val w"] exI [of _ t] exI [of _ "Os OSGetTime # cs @ map Os ds"])
       (auto split: option.splits)
qed

text \<open>A clock of one tick a millisecond, and an empty mailbox.\<close>

definition tick_clock :: "call list \<Rightarrow> call \<Rightarrow> resp" where
  "tick_clock h c = resp0\<lparr>r_ret := (case c of Os OSGetTime \<Rightarrow> int (sleeps h) | Os (OSTicksToMilliseconds d) \<Rightarrow> d | _ \<Rightarrow> 0)\<rparr>"

definition port_init :: "(call list \<Rightarrow> call \<Rightarrow> resp) \<Rightarrow> port" where
  "port_init e = net.extend (net_init e) (port.fields 0 0 0 0 Map.empty)"

theorem mbox_fetch_timed_witness:
  "\<exists>r m t. run_state (sys_arch_mbox_fetch 6 0x1000 5) (port_init tick_clock) = (Some (r, m), t)"
proof -
  have "port_clock 1 (unat (5 :: u32)) (env (port_init tick_clock))"
    by (auto simp: port_clock_def tick_clock_def port_init_def net_init_def net.defs port.defs)
  from mbox_fetch_timed [OF this, where fuel = 6 and mbox = "0x1000"] show ?thesis by auto
qed

section \<open>Threads and their start blocks\<close>

fun allocated_by :: "resp \<Rightarrow> call \<Rightarrow> u32 list" where
  "allocated_by r (Port New_thread) = [r_val r]"
| "allocated_by r (Port (New_stack n)) = [r_val r]"
| "allocated_by r (Port New_thread_start) = [r_val r]"
| "allocated_by r c = []"

fun freed_by :: "resp \<Rightarrow> call \<Rightarrow> u32 list" where
  "freed_by r (Port (Port_free p)) = [p]"
| "freed_by r c = []"

fun ran_by :: "resp \<Rightarrow> call \<Rightarrow> (u32 \<times> u32) list" where
  "ran_by r (Port (Run_thread_fn f a)) = [(f, a)]"
| "ran_by r c = []"

lemma thread_entry_run:
  assumes "thread_starts t c = Some (fn, arg)"
  obtains u where "run_state (ax_thread_entry c) t = (0, u)" "thread_starts u = (thread_starts t)(c := None)"
    "trace u = trace t @ [Port (Port_free c), Port (Run_thread_fn fn arg)]"
  using assms that by (simp add: ax_thread_entry_def ax_mark_def cafe_do_def cafe_def)

text \<open>C40. Creating a thread for lwIP either fails with everything that was allocated for it freed
  and no start block left, or yields a thread; and that thread, when it runs, calls the function
  with the argument it was given, once, and frees its start block. Its priority is within the
  console's range.\<close>

theorem thread_handover:
  assumes run: "run_state (sys_thread_new fn arg sz prio) s = (th, t)"
    and fresh: "\<forall>h. thread_starts s (r_val (env s h (Port New_thread_start))) = None"
  shows "\<exists>cs. trace t = trace s @ cs \<and> 0 \<le> thread_prio prio \<and> thread_prio prio \<le> 31 \<and>
    (if th = 0 then thread_starts t = thread_starts s \<and>
        collect freed_by (env s) (trace s) cs = collect allocated_by (env s) (trace s) cs
     else collect freed_by (env s) (trace s) cs = [] \<and>
        (\<exists>start. thread_starts t = (thread_starts s)(start \<mapsto> (fn, arg)) \<and>
           (\<exists>u ds. run_state (ax_thread_entry start) t = (0, u) \<and> trace u = trace t @ ds \<and>
              collect ran_by (env s) (trace t) ds = [(fn, arg)] \<and> collect freed_by (env s) (trace t) ds = [start] \<and>
              thread_starts u = thread_starts s)))"
proof -
  define n where "n = (if sz \<le> 0 then 16 * 1024 else sz)"
  let ?c1 = "Port New_thread" and ?c2 = "Port (New_stack n)" and ?c3 = "Port New_thread_start"
  define a b c where "a = r_val (env s (trace s) ?c1)" and "b = r_val (env s (trace s @ [?c1]) ?c2)"
    and "c = r_val (env s (trace s @ [?c1, ?c2]) ?c3)"
  note abc = a_def [symmetric] b_def [symmetric] c_def [symmetric]
  let ?frees = "map (\<lambda>p. Port (Port_free p)) [a, b, c]"
  let ?c4 = "Port (Port_create_thread a c (b + word_of_int n) n (thread_prio prio))"
  let ?r4 = "env s (trace s @ [?c1, ?c2, ?c3]) ?c4"
  have prio: "0 \<le> thread_prio prio" "thread_prio prio \<le> 31" by (simp_all add: thread_prio_def Let_def)
  have c: "thread_starts s c = None" using fresh by (simp add: c_def)
  then have idem: "(thread_starts s)(c := None) = thread_starts s" by (simp add: fun_upd_idem_iff)
  note ev = run [unfolded sys_thread_new_def n_def [symmetric] Let_def]
  consider (none) "a = 0 \<or> b = 0 \<or> c = 0" | (refused) "a \<noteq> 0" "b \<noteq> 0" "c \<noteq> 0" "r_ret ?r4 = 0"
    | (made) "a \<noteq> 0" "b \<noteq> 0" "c \<noteq> 0" "r_ret ?r4 \<noteq> 0" by blast
  then show ?thesis
  proof cases
    case none
    then have "th = 0" "t = s\<lparr>trace := trace s @ [?c1, ?c2, ?c3] @ ?frees\<rparr>"
      using ev by (auto simp: cafe_def cafe_do_def free_each_def abc)
    then show ?thesis
      using prio by (intro exI [of _ "[?c1, ?c2, ?c3] @ ?frees"]) (simp add: abc)
  next
    case refused
    then have "th = 0" "trace t = trace s @ [?c1, ?c2, ?c3, ?c4] @ ?frees" "thread_starts t = thread_starts s"
      using ev idem by (auto simp: cafe_def cafe_do_def free_each_def abc)
    then show ?thesis
      using prio by (intro exI [of _ "[?c1, ?c2, ?c3, ?c4] @ ?frees"]) (simp add: abc)
  next
    case made
    let ?ds = "[Port (Port_free c), Port (Run_thread_fn fn arg)]"
    have t: "th = a" "trace t = trace s @ [?c1, ?c2, ?c3, ?c4, Port (OSDetachThread a), Port (Port_resume_thread a)]"
        "thread_starts t = (thread_starts s)(c \<mapsto> (fn, arg))"
      using ev made by (auto simp: cafe_def cafe_do_def ax_mark_def abc)
    obtain u where u: "run_state (ax_thread_entry c) t = (0, u)" "trace u = trace t @ ?ds" "thread_starts u = thread_starts s"
      using thread_entry_run [of t c fn arg] t(3) idem by auto
    show ?thesis
      using prio t made(1) u
      by (intro exI [of _ "[?c1, ?c2, ?c3, ?c4, Port (OSDetachThread a), Port (Port_resume_thread a)]"])
         (simp, intro exI [of _ c] conjI exI [of _ u] exI [of _ ?ds]; simp)
  qed
qed

definition heap_env :: "call list \<Rightarrow> call \<Rightarrow> resp" where
  "heap_env h c = resp0\<lparr>r_ret := 1, r_val := 0x100 * of_nat (Suc (length h))\<rparr>"

theorem thread_handover_witness:
  "\<exists>t cs. run_state (sys_thread_new 7 8 0 3) (port_init heap_env) = (0x100, t) \<and> trace t = cs \<and>
     collect freed_by heap_env [] cs = []"
proof -
  let ?s = "port_init heap_env"
  have i: "env ?s = heap_env" "trace ?s = []" "thread_starts ?s = Map.empty"
    by (simp_all add: port_init_def net_init_def net.defs port.defs)
  have h: "r_ret (heap_env h c) = 1" "r_val (heap_env h c) = 0x100 * of_nat (Suc (length h))" for h c
    by (simp_all add: heap_env_def)
  obtain t where t: "run_state (sys_thread_new 7 8 0 3) ?s = (0x100, t)"
    by (simp add: sys_thread_new_def cafe_def cafe_do_def ax_mark_def Let_def i h)
  from thread_handover [OF t] i t show ?thesis by auto
qed

end
