(* ===== verification/Net_Path.thy ===== *)
theory Net_Path
  imports Rx_Ring Net_Lifecycle
begin

text \<open>
  The way of a frame through all the layers. Outwards: from the transmit slots of
  \<^verbatim>\<open>net/ax_net.c\<close> through \<open>ax88179_send\<close> into a bulk-OUT transfer. Inwards: from a completed
  bulk-IN transfer in the ring of \<^verbatim>\<open>driver/ax88179.c\<close> through the parser into lwIP's input.
  What has gone out and what has come in are read off the calls made so far.
\<close>

section \<open>What has crossed the two borders\<close>

text \<open>The bulk-OUT transfers given to the USB host stack, and the frames given to lwIP.\<close>

fun out_of :: "call \<Rightarrow> bytes list" where
  "out_of (Uhs (UhsSubmitBulkRequest h ep d bs t)) = [bs]"
| "out_of c = []"

fun in_of :: "call \<Rightarrow> bytes list" where
  "in_of (Lwip (Netif_input bs)) = [bs]"
| "in_of c = []"

definition wired :: "'z drv_scheme \<Rightarrow> bytes list" where
  "wired s = concat (map out_of (trace s))"

definition fed :: "'z drv_scheme \<Rightarrow> bytes list" where
  "fed s = concat (map in_of (trace s))"

lemma wired_ext [preserves]: "out_of c = [] \<Longrightarrow> preserves wired (ext c)"
  by (rule preservesI) (simp add: wp wired_def)

lemma fed_ext [preserves]: "in_of c = [] \<Longrightarrow> preserves fed (ext c)"
  by (rule preservesI) (simp add: wp fed_def)

section \<open>Outwards\<close>

text \<open>The device has a link, a legal packet size, and the transmit buffer its size.\<close>

definition linked :: "'z drv_scheme \<Rightarrow> bool" where
  "linked s \<longleftrightarrow> length (g_tx s) = 2048 \<and> (\<exists>a. axp s = Some a \<and> medium a \<noteq> 0 \<and> legal_mps (tx_maxpacket a))"

definition sendable :: "bytes \<Rightarrow> bool" where
  "sendable fr \<longleftrightarrow> 14 \<le> length fr \<and> length fr \<le> 1518"

text \<open>What sending leaves alone, for the receive side.\<close>

definition rx_view :: "'z drv_scheme \<Rightarrow> _" where
  "rx_view s = (env s, map_option (\<lambda>a. a\<lparr>last_bulk := 0\<rparr>) (axp s), g_rx s, g_rx_async s, g_rx_slots s)"

lemma send_path:
  assumes "linked s"
  shows "wp (ax88179_send (Some fr)) (\<lambda>r t. linked t \<and> rx_view t = rx_view s \<and> fed t = fed s \<and>
    map tx_decode (wired t) = map tx_decode (wired s) @ map tx_padded (filter sendable [fr])) s"
proof -
  obtain a where a: "axp s = Some a" "medium a \<noteq> 0" "legal_mps (tx_maxpacket a)" "length (g_tx s) = 2048"
    using assms by (auto simp: linked_def)
  show ?thesis
  proof (cases "sendable fr")
    case True
    then have fr: "14 \<le> length fr" "length fr \<le> 1518" by (simp_all add: sendable_def)
    obtain rest n where f: "tx_fill (tx_maxpacket a) fr (g_tx s) = Some (tx_transfer (tx_maxpacket a) fr @ rest, n)"
      "n = length (tx_transfer (tx_maxpacket a) fr)" "length (tx_transfer (tx_maxpacket a) fr @ rest) = 2048"
      using tx_fill_ok [OF a(4) fr(2)] by blast
    then show ?thesis
      using a fr tx_decode_transfer [OF fr(2)]
      by (simp add: ax88179_send_def wp linked_def rx_view_def fed_def wired_def sendable_def)
  next
    case False
    with a assms show ?thesis
      by (auto simp: ax88179_send_def wp sendable_def)
  qed
qed

lemma view_stats:
  "linked (s\<lparr>tx_in_use := us\<rparr>) = linked s" "rx_view (s\<lparr>tx_in_use := us\<rparr>) = rx_view s"
  "fed (s\<lparr>tx_in_use := us\<rparr>) = fed s" "wired (s\<lparr>tx_in_use := us\<rparr>) = wired s"
  "linked (s\<lparr>stat_tx_ok := k\<rparr>) = linked s" "rx_view (s\<lparr>stat_tx_ok := k\<rparr>) = rx_view s"
  "fed (s\<lparr>stat_tx_ok := k\<rparr>) = fed s" "wired (s\<lparr>stat_tx_ok := k\<rparr>) = wired s"
  "linked (s\<lparr>stat_tx_err := k\<rparr>) = linked s" "rx_view (s\<lparr>stat_tx_err := k\<rparr>) = rx_view s"
  "fed (s\<lparr>stat_tx_err := k\<rparr>) = fed s" "wired (s\<lparr>stat_tx_err := k\<rparr>) = wired s"
  by (simp_all add: linked_def rx_view_def fed_def wired_def)

text \<open>One round of \<open>drain_tx\<close>.\<close>

lemma drain_one_path:
  assumes "linked s"
  shows "wp (drain_one True) (\<lambda>found t. linked t \<and> rx_view t = rx_view s \<and> fed t = fed s \<and>
    map tx_decode (wired t) = map tx_decode (wired s) @
      (if found then map tx_padded (filter sendable [frame_of s (r_msg (env s (trace s) (Os OSReceiveMessage)))]) else [])) s"
proof -
  let ?c = "Os OSReceiveMessage" and ?u = "s\<lparr>trace := trace s @ [Os OSReceiveMessage]\<rparr>"
  have u: "linked ?u" "rx_view ?u = rx_view s" "fed ?u = fed s" "wired ?u = wired s"
    using assms by (simp_all add: linked_def rx_view_def fed_def wired_def)
  obtain i len where m: "r_msg (env s (trace s) ?c) = (i, len)" by fastforce
  show ?thesis
    unfolding drain_one_def free_slot_def
    by (simp add: wp u m assms, intro impI conjI wp_mono [OF send_path [OF u(1)]])
       (auto simp: wp view_stats u frame_of_def m)
qed

lemma drain_tx_path:
  assumes "tx_queue_inv s" and "linked s" and "length (tx_items s) < k"
  shows "\<exists>t. run_state (drain_tx k True) s = (Some (), t) \<and> tx_queue_inv t \<and> tx_items t = [] \<and> linked t \<and>
    rx_view t = rx_view s \<and> fed t = fed s \<and>
    map tx_decode (wired t) = map tx_decode (wired s) @ map tx_padded (filter sendable (tx_items s))"
  using assms
proof (induction k arbitrary: s)
  case (Suc k)
  obtain found t where run: "run_state (drain_one True) s = (found, t)" by fastforce
  note path = wpD [OF run drain_one_path [OF Suc.prems(2)]]
  show ?case
  proof (cases found)
    case True
    let ?f = "frame_of s (r_msg (env s (trace s) (Os OSReceiveMessage)))"
    have "tx_get s = Some (?f, t)" using run True by (simp add: tx_get_def)
    then have t: "tx_queue_inv t" "tx_items s = ?f # tx_items t"
      using tx_get_Some [OF Suc.prems(1)] by auto
    from Suc.IH [OF t(1)] path t(2) Suc.prems(3) obtain u where
      u: "run_state (drain_tx k True) t = (Some (), u)" "tx_queue_inv u" "tx_items u = []" "linked u"
        "rx_view u = rx_view t" "fed u = fed t"
        "map tx_decode (wired u) = map tx_decode (wired t) @ map tx_padded (filter sendable (tx_items t))"
      by auto
    have "run_state (drain_tx (Suc k) True) s = (Some (), u)" using run True u(1) by simp
    with u path True t(2) show ?thesis by auto
  next
    case False
    have "tx_get s = None" using run False by (simp add: tx_get_def)
    then have none: "tx_items s = []" using tx_get_None Suc.prems(1) by blast
    have "r_ret (env s (trace s) (Os OSReceiveMessage)) = 0"
      using run False by (auto simp: drain_one_def case_prod_beta split: if_splits)
    then have "t = s\<lparr>trace := trace s @ [Os OSReceiveMessage]\<rparr>"
      using run by (simp add: drain_one_def)
    moreover have "queue_of s = []" using none by (simp add: tx_items_def)
    ultimately have "tx_queue_inv t" "tx_items t = []"
      using Suc.prems(1) by (auto simp: tx_queue_inv_def resting_def tx_inv_def holders_def pool_ok_def
          tx_items_def queue_of_def frame_of_def [abs_def])
    moreover have "run_state (drain_tx (Suc k) True) s = (Some (), t)" using run False by simp
    ultimately show ?thesis using path False none by auto
  qed
qed simp

section \<open>Inwards\<close>

text \<open>What receiving leaves alone: the transmit side, the link, and the two borders.\<close>

definition outside :: "'z net_scheme \<Rightarrow> _" where
  "outside s = (map_option (\<lambda>a. (medium a, tx_maxpacket a)) (axp s), length (g_tx s), env s,
     tx_pool s, tx_in_use s, queue_of s, wired s, fed s)"

lemma rx_body_parsed:
  "case rx_body g m a of Continue b \<Rightarrow> parsed b = parsed a | Return r b \<Rightarrow> parsed b = parsed a"
  by (auto simp: rx_body_def Let_def split: option.split)

lemma rx_loop_parsed: "parsed (snd (rx_loop g m a)) = parsed a"
proof (induction g m a rule: rx_loop.induct)
  case (1 g m a)
  then show ?case
    using rx_body_parsed [where g = g and m = m and a = a] by (subst rx_loop.simps) (auto split: rx_round.splits)
qed

lemma parsed_link: "parsed b = parsed a \<Longrightarrow> medium b = medium a \<and> tx_maxpacket b = tx_maxpacket a"
  by (cases a; cases b) (simp add: parsed_def)

lemma rx_header_link:
  "rx_header g n c = Some (r, b) \<Longrightarrow> medium b = medium c \<and> tx_maxpacket b = tx_maxpacket c"
  by (auto simp: rx_header_def Let_def split: option.splits if_splits)

lemma outside_impl [preserves]: "preserves outside (ax88179_receive_buffered_impl f m)"
proof (rule preservesI)
  fix s :: "'a net_scheme"
  show "wp (ax88179_receive_buffered_impl f m) (\<lambda>_ t. outside t = outside s) s"
    using rx_loop_parsed [of "g_rx s" m "the (axp s)", THEN parsed_link]
    by (auto simp: ax88179_receive_buffered_impl_def wp outside_def wired_def fed_def queue_of_def
        case_prod_beta)
qed

lemma outside_rearm [preserves]: "preserves outside (rx_rearm i)"
  by (rule preservesI)
     (simp add: rx_rearm_def upd_slot_def ax_rx_submit_slot_def wp outside_def wired_def fed_def queue_of_def
       option.map_comp comp_def)

lemma outside_take [preserves]: "preserves outside ax_rx_take_completed"
proof (rule preservesI)
  fix s :: "'a net_scheme"
  have rearm: "wp (rx_rearm i) Q t" if "\<And>u. outside u = outside t \<Longrightarrow> Q () u" for i Q and t :: "'a net_scheme"
    using wp_preserves [OF outside_rearm, of t "\<lambda>_. Q ()"] that by simp
  show "wp ax_rx_take_completed (\<lambda>_ t. outside t = outside s) s"
    unfolding ax_rx_take_completed_def Let_def
    by (simp add: wp, intro impI conjI rearm)
       (cases "axp s"; auto simp: wp outside_def wired_def fed_def queue_of_def dest!: rx_header_link split: option.splits)+
qed

text \<open>The frames of an aggregate that fit the network layer's buffer, and a transfer that carries
  some.\<close>

definition deliverables :: "rx_item list \<Rightarrow> bytes list" where
  "deliverables its = concat (map (deliverable 1600) its)"

definition carries :: "transfer \<Rightarrow> rx_item list \<Rightarrow> bool" where
  "carries x its \<longleftrightarrow> aggregate_ok its \<and> deliverables its \<noteq> [] \<and>
     (\<exists>ret \<ge> 0. x = (ret, of_nat (length (aggregate its)), aggregate its))"

text \<open>The parser still has the frames \<open>fs\<close> ahead of it.\<close>

definition ahead :: "bytes \<Rightarrow> bytes list \<Rightarrow> ax88179 \<Rightarrow> bool" where
  "ahead g fs a \<longleftrightarrow> rx_frames a \<le> rx_next a \<and> fs = [] \<or>
     (\<exists>pre post zs. at_pos pre post a \<and> list_all item_ok post \<and> length (rx_data (pre @ post)) < 65536 \<and>
        g = aggregate (pre @ post) @ zs \<and> fs = deliverables post)"

definition answer :: "bytes list \<Rightarrow> int \<times> bytes" where
  "answer fs = (case fs of [] \<Rightarrow> (0, []) | f # _ \<Rightarrow> (int (length f), f))"

lemma loop_items:
  assumes "at_pos pre post a" and "list_all item_ok post" and "length (rx_data (pre @ post)) < 65536"
    and "g = aggregate (pre @ post) @ zs"
  shows "\<exists>b. rx_loop g 1600 a = (Some (answer (deliverables post)), b) \<and> ahead g (tl (deliverables post)) b"
  using assms
proof (induction post arbitrary: pre a)
  case Nil
  then show ?case by (simp add: rx_loop.simps at_pos_def answer_def deliverables_def ahead_def)
next
  case (Cons it post)
  then obtain b where b: "at_pos (pre @ [it]) post b"
    and body: "rx_body g 1600 a = (case deliverable 1600 it of [] \<Rightarrow> Continue b
       | fr # _ \<Rightarrow> Return (Some (int (length fr), fr)) b)"
    using rx_body_item [of pre it post a 1600 g zs] by auto
  have more: "rx_next a < rx_frames a"
    using Cons.prems(1) by (simp add: at_pos_def)
  consider (skip) "deliverable 1600 it = []" | (take) fr where "deliverable 1600 it = [fr]"
    using deliverable_cases by blast
  then show ?case
  proof cases
    case skip
    then have "deliverables (it # post) = deliverables post" "rx_loop g 1600 a = rx_loop g 1600 b"
      using body more by (simp_all add: deliverables_def rx_loop.simps [of g 1600 a])
    then show ?thesis using Cons.IH [OF b] Cons.prems by simp
  next
    case take
    then have "deliverables (it # post) = fr # deliverables post"
      "rx_loop g 1600 a = (Some (int (length fr), fr), b)"
      using body more by (simp_all add: deliverables_def rx_loop.simps [of g 1600 a])
    moreover have "ahead g (deliverables post) b"
      unfolding ahead_def using b Cons.prems
      by (intro disjI2 exI [of _ "pre @ [it]"] exI [of _ post] exI [of _ zs]) simp
    ultimately show ?thesis by (simp add: answer_def)
  qed
qed

lemma loop_ahead:
  assumes "ahead g fs a"
  shows "\<exists>b. rx_loop g 1600 a = (Some (answer fs), b) \<and> ahead g (tl fs) b"
proof (cases "rx_frames a \<le> rx_next a \<and> fs = []")
  case True
  then show ?thesis by (simp add: rx_loop.simps answer_def ahead_def)
next
  case False
  then show ?thesis using assms loop_items [of _ _ a g] unfolding ahead_def [of g fs] by blast
qed

lemma ring_parsed:
  assumes "ring_inv s" and "axp s = Some a" and "parsed b = parsed a" and "par_ok (g_rx s) b"
  shows "ring_inv (s\<lparr>axp := Some b\<rparr>)" "ring_items (s\<lparr>axp := Some b\<rparr>) = ring_items s"
  using assms parsed_parts [OF assms(3)]
  by (auto simp: ring_inv_def ring_items_def rx_inv_def bufs_ok_def rx_ax_ok_def ring_order_def
      is_done_def [abs_def] is_pending_def [abs_def] ring_item_def [abs_def] rx_slot_def Let_def)

text \<open>What the network layer is to be given: the rest of the aggregate being parsed, then those
  in the ring.\<close>

definition inbound :: "bytes list \<Rightarrow> 'z net_scheme \<Rightarrow> bool" where
  "inbound fs s \<longleftrightarrow> ring_inv s \<and> linked s \<and> (\<exists>a gs aggs. axp s = Some a \<and> ahead (g_rx s) gs a \<and>
     list_all2 carries (ring_items s) aggs \<and> fs = gs @ concat (map deliverables aggs))"

lemma impl_ahead:
  assumes "ring_inv s" and "axp s = Some a" and "ahead (g_rx s) gs a"
  obtains b where "run_state (ax88179_receive_buffered_impl True 1600) s = (Some (answer gs), s\<lparr>axp := Some b\<rparr>)"
    "ahead (g_rx s) (tl gs) b" "parsed b = parsed a" "par_ok (g_rx s) b"
proof -
  obtain b where b: "rx_loop (g_rx s) 1600 a = (Some (answer gs), b)" "ahead (g_rx s) (tl gs) b"
    using loop_ahead [OF assms(3)] by blast
  have "par_ok (g_rx s) a"
    using assms(1,2) by (auto simp: ring_inv_def rx_inv_def rx_ax_ok_def)
  from rx_loop_safe [OF this, of 1600] b show ?thesis
    by (intro that [of b]) (simp_all add: ax88179_receive_buffered_impl_def assms(2) runs)
qed

lemma take_carried:
  assumes "ring_inv s" and "list_all2 carries (ring_items s) (its # aggs)"
  obtains t b where "run_state ax_rx_take_completed s = (Some 1, t)" "ring_inv t" "axp t = Some b"
    "list_all2 carries (ring_items t) aggs" "ahead (g_rx t) (deliverables its) b"
proof -
  obtain a where a: "axp s = Some a" "rx_consume a < 3" "\<And>i. i < 3 \<Longrightarrow> sl_ptr (rx_slot i s) = Some i"
    using ring_basics [OF assms(1)] by metis
  obtain x xs where x: "ring_items s = x # xs" "carries x its" "list_all2 carries xs aggs"
    using assms(2) by (auto simp: list_all2_Cons2)
  then have "is_done s (rx_consume a)" and item: "ring_item s (rx_consume a) = x"
    using a(1) by (auto simp: ring_items_def ring_order_def Let_def split: if_splits)
  moreover have "length (aggregate its) \<le> RX_BUFFER_SIZE"
    using x(2) by (simp add: carries_def aggregate_ok_def)
  then have "unat (of_nat (length (aggregate its)) :: u32) = length (aggregate its)"
    by (intro of_nat_small) simp
  ultimately have "completed (aggregate its) s"
    using a x(2) by (auto simp: completed_def carries_def ring_item_def is_done_def Let_def)
  then obtain t b zs where t: "run_state ax_rx_take_completed s = (Some 1, t)" "axp t = Some b" "at_pos [] its b"
      "g_rx t = aggregate its @ zs"
    using take_aggregate [of s its] assms(1) x(2) by (auto simp: wp_run_state ring_inv_def carries_def) (metis prod.collapse)
  have "ring_get s = Some (x, t)"
    using x(1) item t(1) a(1) \<open>is_done s (rx_consume a)\<close> by (simp add: ring_get_def ring_order_def Let_def)
  from ring_get_Some [OF assms(1) this] have ring: "ring_inv t" "ring_items t = xs" using x(1) by auto
  have "ahead (g_rx t) (deliverables its) b"
    unfolding ahead_def using t(3,4) x(2) aggregate_ok_small [of its]
    by (intro disjI2 exI [of _ "[]"] exI [of _ its] exI [of _ zs]) (auto simp: carries_def aggregate_ok_def)
  with t ring x(3) that show ?thesis by blast
qed

lemma take_empty:
  assumes "ring_inv s" and "ring_items s = []"
  shows "run_state ax_rx_take_completed s = (Some 0, s)"
  using ring_basics [OF assms(1)] assms(2)
  by (auto simp: ring_items_def ring_order_def Let_def is_done_def ax_rx_take_completed_def runs split: if_splits)

lemma deliverables_nonempty: "f \<in> set (deliverables its) \<Longrightarrow> f \<noteq> []"
  using deliverable_cases [of 1600] by (auto simp: deliverables_def) (metis list.set_cases empty_iff empty_set set_ConsD)

lemma answer_pos: "ahead g (f # fs) a \<Longrightarrow> f \<noteq> []"
  unfolding ahead_def by (metis deliverables_nonempty list.distinct(1) list.set_intros(1))

lemma linked_outside: "outside t = outside s \<Longrightarrow> linked t = linked s"
  by (cases "axp s"; cases "axp t") (auto simp: outside_def linked_def)

lemma answer_first:
  assumes "inbound fs s" and "fs \<noteq> []"
  shows "hd fs \<noteq> []"
proof -
  obtain a gs aggs where a: "ahead (g_rx s) gs a" "fs = gs @ concat (map deliverables aggs)"
    using assms(1) by (auto simp: inbound_def)
  show ?thesis
  proof (cases gs)
    case Nil
    have "hd fs \<in> set fs" using assms(2) by simp
    then show ?thesis using a(2) Nil deliverables_nonempty by auto
  qed (use answer_pos a in auto)
qed

text \<open>With nothing left in the parser, the next frame is the first of the oldest aggregate.\<close>

lemma loaded_inbound:
  assumes ring: "ring_inv s" and link: "linked s" and ax: "axp s = Some a" and idle: "ahead (g_rx s) [] a"
    and aggs: "list_all2 carries (ring_items s) aggs" and us: "aggs \<noteq> [] \<or> us = 0"
  obtains t where
    "run_state (receive_loaded True 1600 us) s = (Some (answer (concat (map deliverables aggs))), t)"
    "inbound (tl (concat (map deliverables aggs))) t" "outside t = outside s"
proof (cases aggs)
  case (Cons its aggs')
  obtain t c where t: "run_state ax_rx_take_completed s = (Some 1, t)" "ring_inv t" "axp t = Some c"
      "list_all2 carries (ring_items t) aggs'" "ahead (g_rx t) (deliverables its) c"
    using take_carried [OF ring] aggs Cons by metis
  obtain d where d: "run_state (ax88179_receive_buffered_impl True 1600) t = (Some (answer (deliverables its)), t\<lparr>axp := Some d\<rparr>)"
      "ahead (g_rx t) (tl (deliverables its)) d" "parsed d = parsed c" "par_ok (g_rx t) d"
    using impl_ahead [OF t(2,3,5)] by blast
  let ?t = "t\<lparr>axp := Some d\<rparr>"
  have ring': "ring_inv ?t" "ring_items ?t = ring_items t"
    using ring_parsed [OF t(2,3) d(3,4)] by auto
  have out: "outside ?t = outside s"
    using preserves_run [OF outside_take, of s] preserves_run [OF outside_impl, of True 1600 t] t(1) d(1) by simp
  obtain f gs where its: "deliverables its = f # gs"
    using aggs Cons by (auto simp: list_all2_Cons2 carries_def neq_Nil_conv)
  have "run_state (receive_loaded True 1600 us) s = (Some (answer (concat (map deliverables aggs))), ?t)"
    using t(1) d(1) Cons its by (simp add: receive_loaded_def take_or_wait_def answer_def)
  moreover have "inbound (tl (concat (map deliverables aggs))) ?t"
    using ring' d(2) t(4) its Cons linked_outside [OF out] link
    by (auto simp: inbound_def intro!: exI [of _ gs] exI [of _ aggs'])
  ultimately show ?thesis using that out by blast
next
  case Nil
  moreover have "inbound [] s" using ring link ax idle Nil aggs by (auto simp: inbound_def)
  ultimately show ?thesis
    using that [of s] take_empty [OF ring] aggs us by (simp add: receive_loaded_def take_or_wait_def answer_def)
qed

text \<open>One receive call takes the next frame, or finds nothing.\<close>

lemma receive_inbound:
  assumes "inbound fs s" and "fs \<noteq> [] \<or> us = 0"
  obtains t where "run_state (ax88179_receive True 1600 us) s = (Some (answer fs), t)" "inbound (tl fs) t"
    "outside t = outside s"
proof -
  obtain a gs aggs where a: "axp s = Some a" "ahead (g_rx s) gs a" "list_all2 carries (ring_items s) aggs"
      "fs = gs @ concat (map deliverables aggs)" and inv: "ring_inv s" "linked s"
    using assms(1) by (auto simp: inbound_def)
  obtain b where b: "run_state (ax88179_receive_buffered_impl True 1600) s = (Some (answer gs), s\<lparr>axp := Some b\<rparr>)"
      "ahead (g_rx s) (tl gs) b" "parsed b = parsed a" "par_ok (g_rx s) b"
    using impl_ahead [OF inv(1) a(1,2)] by blast
  let ?s = "s\<lparr>axp := Some b\<rparr>"
  have ring: "ring_inv ?s" "ring_items ?s = ring_items s" using ring_parsed [OF inv(1) a(1) b(3,4)] by auto
  have out: "outside ?s = outside s" using preserves_run [OF outside_impl, of True 1600 s] b(1) by simp
  have link: "linked ?s" "medium a \<noteq> 0" using linked_outside [OF out] inv(2) a(1) by (auto simp: linked_def)
  have "rx_async_started b" using ring(1) by (auto simp: ring_inv_def)
  then have run: "run_state (ax88179_receive True 1600 us) s = (if fst (answer gs) \<noteq> 0 then (Some (answer gs), ?s)
      else run_state (receive_loaded True 1600 us) ?s)"
    using a(1) b(1) link(2)
    by (cases "answer gs") (simp add: ax88179_receive_def receive_ring_def get_ax_def)
  show ?thesis
  proof (cases gs)
    case (Cons f gs')
    have "f \<noteq> []" using answer_pos a(2) Cons by blast
    moreover have "inbound (tl fs) ?s"
      using ring b(2) a Cons link by (auto simp: inbound_def)
    ultimately show ?thesis using that [of ?s] run out Cons a(4) by (simp add: answer_def)
  next
    case Nil
    have "aggs \<noteq> [] \<or> us = 0" using assms(2) a(4) Nil by auto
    then obtain t where "run_state (receive_loaded True 1600 us) ?s = (Some (answer fs), t)"
        "inbound (tl fs) t" "outside t = outside ?s"
      using loaded_inbound [OF ring(1) link(1), of b aggs us] b(2) a(3,4) ring(2) Nil by auto
    with that run out Nil show ?thesis by (simp add: answer_def)
  qed
qed

text \<open>lwIP has buffers.\<close>

definition stack_takes :: "(call list \<Rightarrow> call \<Rightarrow> resp) \<Rightarrow> bool" where
  "stack_takes e \<longleftrightarrow> (\<forall>h n bs. r_ret (e h (Lwip (Pbuf_alloc n))) \<noteq> 0 \<and> r_ret (e h (Lwip (Pbuf_take bs))) = ERR_OK)"

definition tx_view :: "'z net_scheme \<Rightarrow> _" where
  "tx_view s = (env s, tx_pool s, tx_in_use s, queue_of s, wired s)"

lemma tx_view_outside: "outside t = outside s \<Longrightarrow> tx_view t = tx_view s \<and> fed t = fed s \<and> env t = env s"
  by (simp add: outside_def tx_view_def)

lemma same_parser:
  "a\<lparr>last_bulk := 0\<rparr> = b\<lparr>last_bulk := 0\<rparr> \<Longrightarrow> rx_consume a = rx_consume b \<and> rx_async_started a = rx_async_started b \<and>
     rx_frames a = rx_frames b \<and> rx_next a = rx_next b \<and> rx_pos a = rx_pos b \<and> rx_hdr_offset a = rx_hdr_offset b"
  by (cases a; cases b) simp

lemma inbound_view:
  assumes "rx_view t = rx_view s" and "linked t" and "inbound fs s"
  shows "inbound fs t"
proof -
  obtain a where a: "axp s = Some a" using assms(3) by (auto simp: inbound_def)
  then obtain b where b: "axp t = Some b" using assms(1) by (auto simp: rx_view_def)
  have ab: "rx_consume b = rx_consume a \<and> rx_async_started b = rx_async_started a \<and>
     rx_frames b = rx_frames a \<and> rx_next b = rx_next a \<and> rx_pos b = rx_pos a \<and> rx_hdr_offset b = rx_hdr_offset a"
    using assms(1) a b by (intro same_parser) (simp add: rx_view_def)
  have fields: "env t = env s" "g_rx t = g_rx s" "g_rx_async t = g_rx_async s" "g_rx_slots t = g_rx_slots s"
    using assms(1) by (simp_all add: rx_view_def)
  have ring: "ring_order t = ring_order s" "is_done t = is_done s" "is_pending t = is_pending s" "ring_item t = ring_item s"
    using a b ab fields
    by (simp_all add: ring_order_def fun_eq_iff is_done_def is_pending_def ring_item_def rx_slot_def)
  have "ahead (g_rx s) gs b = ahead (g_rx s) gs a" for gs
    using ab by (simp add: ahead_def at_pos_def)
  with assms(2,3) a b ab fields ring show ?thesis
    by (auto simp: inbound_def ring_inv_def ring_items_def rx_inv_def bufs_ok_def rx_ax_ok_def par_ok_def)
qed

lemma input_path:
  assumes "stack_takes (env s)" and "inbound fs s"
  shows "wp (input_rx_frame bs) (\<lambda>_ t. inbound fs t \<and> tx_view t = tx_view s \<and> fed t = fed s @ [bs]) s"
proof -
  have "linked s" using assms(2) by (simp add: inbound_def)
  then have "wp (input_rx_frame bs) (\<lambda>_ t. (rx_view t = rx_view s \<and> linked t) \<and> tx_view t = tx_view s \<and> fed t = fed s @ [bs]) s"
    using assms(1)
    by (simp add: input_rx_frame_def lwip_nz_def lwip_def lwip_do_def wp stack_takes_def linked_def tx_view_def rx_view_def
        fed_def wired_def queue_of_def mq_def)
  then show ?thesis using inbound_view assms(2) by (elim wp_mono) blast
qed

text \<open>The loop of \<open>ax_net_poll\<close> feeds everything there is to lwIP.\<close>

lemma rx_more_path:
  assumes "inbound fs s" and "stack_takes (env s)" and "length fs < k"
  shows "\<exists>t. run_state (rx_more k []) s = (Some (), t) \<and> inbound [] t \<and> tx_view t = tx_view s \<and> fed t = fed s @ fs"
  using assms
proof (induction k arbitrary: s fs)
  case (Suc k)
  obtain t where t: "run_state (ax88179_receive True 1600 0) s = (Some (answer fs), t)" "inbound (tl fs) t"
      "outside t = outside s"
    using receive_inbound [OF Suc.prems(1), of 0] by blast
  note v = tx_view_outside [OF t(3)]
  show ?case
  proof (cases fs)
    case Nil
    with t v show ?thesis by (simp add: answer_def whenM_def)
  next
    case (Cons f gs)
    have f: "0 < length f" using answer_first [OF Suc.prems(1)] Cons by simp
    obtain u where u: "run_state (input_rx_frame f) t = ((), u)" "inbound gs u" "tx_view u = tx_view t" "fed u = fed t @ [f]"
      using input_path [of t gs f] t(2) v Suc.prems(2) Cons by (auto simp: wp_run_state) (metis prod.collapse unit.exhaust)
    moreover have "env u = env t" using u(3) by (simp add: tx_view_def)
    ultimately obtain w where "run_state (rx_more k []) u = (Some (), w)" "inbound [] w" "tx_view w = tx_view u"
        "fed w = fed u @ gs"
      using Suc.IH [of gs u] Suc.prems Cons v by auto
    with t u v f Cons show ?thesis by (simp add: answer_def)
  qed
qed simp

lemma poll_rx_path:
  assumes "inbound fs s" and "stack_takes (env s)" and "fs \<noteq> []" and "length fs \<le> k"
  shows "\<exists>t. run_state (poll_rx k []) s = (Some (int (length (hd fs))), t) \<and> inbound [] t \<and> tx_view t = tx_view s \<and>
    fed t = fed s @ fs"
proof -
  obtain f gs where fs: "fs = f # gs" using assms(3) by (cases fs) auto
  obtain t where t: "run_state (ax88179_receive True 1600 5000) s = (Some (answer fs), t)" "inbound gs t"
      "outside t = outside s"
    using receive_inbound [OF assms(1), of 5000] fs by auto
  note v = tx_view_outside [OF t(3)]
  have f: "0 < length f" using answer_first [OF assms(1)] fs by simp
  obtain u where u: "run_state (input_rx_frame f) t = ((), u)" "inbound gs u" "tx_view u = tx_view t" "fed u = fed t @ [f]"
    using input_path [of t gs f] t(2) v assms(2) by (auto simp: wp_run_state) (metis prod.collapse unit.exhaust)
  moreover have "env u = env t" using u(3) by (simp add: tx_view_def)
  ultimately obtain w where "run_state (rx_more k []) u = (Some (), w)" "inbound [] w" "tx_view w = tx_view u"
      "fed w = fed u @ gs"
    using rx_more_path [of gs u k] assms fs v by auto
  with t u v f fs show ?thesis by (simp add: poll_rx_def answer_def)
qed

section \<open>Both ways\<close>

lemma tx_queue_view:
  assumes "tx_view t = tx_view s"
  shows "tx_queue_inv t = tx_queue_inv s" "tx_items t = tx_items s"
  using assms
  by (auto simp: tx_view_def tx_queue_inv_def resting_def tx_inv_def holders_def pool_ok_def tx_items_def frame_of_def [abs_def])

text \<open>A link poll that is not due does nothing but look at the clock.\<close>

lemma poll_link_early:
  assumes "r_val (env s (trace s) (Lwip Sys_now)) - last_link s < 500"
  shows "run_state poll_link s = (False, s\<lparr>trace := trace s @ [Lwip Sys_now]\<rparr>)"
  using assms by (simp add: poll_link_def lwip_val_def lwip_def not_le)

text \<open>A network with a frame of 60 bytes in a transmit slot and an aggregate in the ring.\<close>

definition busy_env :: "call list \<Rightarrow> call \<Rightarrow> resp" where
  "busy_env = with_mq (\<lambda>h c. resp0\<lparr>r_ret := (case c of Lwip (Pbuf_alloc n) \<Rightarrow> 1 | _ \<Rightarrow> 0)\<rparr>)"

definition busy_net :: net where
  "busy_net = (let d = demo_ring AX_RX_SLOT_DONE busy_env (aggregate demo_items) in
     (net_init busy_env)\<lparr>trace := [Os (OSSendMessage 0 60)],
       axp := Some (ax_zero\<lparr>medium := 0x10b, rx_async_started := True, tx_maxpacket := 512\<rparr>),
       g_rx := g_rx d, g_rx_async := g_rx_async d, g_rx_slots := g_rx_slots d, g_tx := g_tx d,
       tx_in_use := (replicate 32 False)[0 := True]\<rparr>)"

lemma busy_tx: "tx_queue_inv busy_net" "tx_items busy_net = [replicate 60 0]"
proof -
  have q: "queue_of busy_net = [(0, 60)]" by (simp add: busy_net_def Let_def queue_of_def mq_def)
  show "tx_queue_inv busy_net"
    using q by (auto simp: tx_queue_inv_def resting_def tx_inv_def holders_def pool_ok_def list_all_length
        busy_net_def Let_def net_init_def busy_env_def with_mq_fifo nth_list_update)
  show "tx_items busy_net = [replicate 60 0]"
    using q by (simp add: tx_items_def frame_of_def busy_net_def Let_def net_init_def)
qed

lemma busy_fields:
  "env busy_net = busy_env" "axp busy_net = Some (ax_zero\<lparr>medium := 0x10b, rx_async_started := True, tx_maxpacket := 512\<rparr>)"
  "g_rx busy_net = replicate 26624 0" "g_tx busy_net = replicate 2048 0"
  "g_rx_async busy_net = [aggregate demo_items @ replicate (26624 - length (aggregate demo_items)) 0,
     replicate 26624 0, replicate 26624 0]"
  "g_rx_slots busy_net =
     [\<lparr>sl_state = AX_RX_SLOT_DONE, sl_ret = 0, sl_actual = of_nat (length (aggregate demo_items)), sl_ptr = Some 0\<rparr>,
      \<lparr>sl_state = AX_RX_SLOT_PENDING, sl_ret = 0, sl_actual = 0, sl_ptr = Some 1\<rparr>,
      \<lparr>sl_state = AX_RX_SLOT_PENDING, sl_ret = 0, sl_actual = 0, sl_ptr = Some 2\<rparr>]"
  by (simp_all add: busy_net_def Let_def demo_ring_def net_init_def)

lemma busy_ring:
  "ring_order busy_net = [0, 1, 2]" "is_done busy_net 0" "is_pending busy_net 1" "is_pending busy_net 2"
  by (simp_all add: busy_fields ring_order_def is_done_def is_pending_def rx_slot_def ax_zero_def)

lemma demo_aggregate: "aggregate_ok demo_items" "deliverables demo_items = [replicate 60 7, replicate 64 9]"
  by (simp_all add: aggregate_ok_def demo_items_def length_aggregate rx_data_Cons pad_len_def deliverables_def)

lemma busy_rx: "inbound [replicate 60 7, replicate 64 9] busy_net"
proof -
  have len: "length (aggregate demo_items) \<le> 26624" using demo_aggregate(1) by (simp add: aggregate_ok_def)
  then have un: "unat (of_nat (length (aggregate demo_items)) :: u32) = length (aggregate demo_items)"
    by (intro of_nat_small) simp
  have "submits_ok busy_env" by (simp add: submits_ok_def busy_env_def with_mq_def)
  moreover have "rx_inv busy_net"
    using len by (simp add: rx_inv_def busy_fields bufs_ok_def rx_ax_ok_def par_ok_def ax_zero_def upt_rec numeral_3_eq_3)
  moreover have pend: "\<not> is_done busy_net 1" using pending_not_done busy_ring(3) by blast
  ultimately have "ring_inv busy_net"
    using busy_ring by (simp add: ring_inv_def busy_fields(1,2))
  moreover have "ring_items busy_net = [(0, of_nat (length (aggregate demo_items)), aggregate demo_items)]"
    using un busy_ring pend by (simp add: ring_items_def ring_item_def rx_slot_def busy_fields)
  moreover have "carries (0, of_nat (length (aggregate demo_items)), aggregate demo_items) demo_items"
    using demo_aggregate by (simp add: carries_def)
  moreover have "ahead (g_rx busy_net) [] (the (axp busy_net))" "linked busy_net"
    by (simp_all add: ahead_def linked_def busy_fields ax_zero_def legal_mps_def)
  ultimately show ?thesis
    unfolding inbound_def using demo_aggregate(2)
    by (intro conjI exI [of _ "the (axp busy_net)"] exI [of _ "[]"] exI [of _ "[demo_items]"]) (simp_all add: busy_fields(2))
qed

end
