(* ===== verification/Spec2Isabelle.thy ===== *)
theory Spec2Isabelle
  imports Driver_Open Rx_Ring Net_Lifecycle Shim_Live Shim_Select Dns_Async Dns_Reverse Shim_Lifecycle
    Module_Worker Module_Hooks Sys_Arch Net_Path
begin

text \<open>
  Verification development for the AX88179 Aroma driver: a Wii U module that drives an ASIX
  AX88179 USB network adapter, runs lwIP on it, and patches the console's socket library
  (nsysnet) so that titles use the adapter without knowing of it.

  \<^bold>\<open>The program and how its parts interact.\<close>

  \<^item> The module (\<^verbatim>\<open>src/aroma_module/main.c\<close>) is called by the plugin system when a title starts and
    ends. From the first Wii U Menu title on it runs a worker thread, which reads the
    configuration, patches one kernel instruction (\<^verbatim>\<open>iosu_patch.c\<close>), opens the adapter, starts the
    network, waits for an address, installs the socket hooks, and then polls the network until the
    title ends or the adapter is lost; a lost adapter is recovered.
  \<^item> The driver (\<^verbatim>\<open>src/driver/ax88179.c\<close>) talks to the adapter through the USB host stack: control
    transfers for registers, a ring of three asynchronous bulk-IN transfers for reception, one
    synchronous bulk-OUT transfer per frame sent.
  \<^item> The network layer (\<^verbatim>\<open>src/net/ax_net.c\<close>) is lwIP's interface: the stack's thread puts frames into 32
    transmit slots, the worker sends them and feeds received frames to the stack.
  \<^item> The port (\<^verbatim>\<open>src/net/port/sys_arch.c\<close>) gives lwIP its threads, semaphores and mailboxes.
  \<^item> The socket shim (\<^verbatim>\<open>src/aroma_module/nsysnet_shim.c\<close>) holds the replacement of every nsysnet
    function. A socket it owns is a native placeholder descriptor that stands for a socket of
    lwIP; every other descriptor goes to nsysnet unchanged. It also resolves names, relays the
    sockets that are handed to NSSL (Nintendo's TLS), and proxies Wiiload.

  \<^bold>\<open>How code becomes definitions.\<close> A C function is a program of \<open>State_Monad\<close> over a record of the
  static variables. The records extend one another as the components build on one another:
  \<open>drv\<close> (driver), \<open>net\<close> (network layer), \<open>shim\<close>, \<open>dns\<close>, \<open>proxy\<close>, \<open>life\<close> (shim lifecycle), \<open>modul\<close> (the
  module), and beside them \<open>port\<close>; operations are polymorphic in the extension, so a module step
  runs driver code on the same state. A call to code that is not under src/ is \<open>ext\<close> of a
  constructor of \<open>call\<close> (theory \<open>Env\<close>). The field \<open>env\<close> answers it, as a function of the whole history of
  calls, and the call is recorded in the field \<open>trace\<close>. A theorem that says nothing of \<open>env\<close> therefore holds for
  every behaviour of the USB stack, lwIP, nsysnet and the operating system; where the code relies
  on their documented behaviour, a named hypothesis on \<open>env\<close> says so (the clock advances by at
  least the time slept, a descriptor just opened was not open before). Machine integers are words
  where they can wrap; errors are values; a read outside an array is a value of its own.

  \<^bold>\<open>Theories, sources and what is shown.\<close>

  \<^item> \<open>Prelude\<close>, \<open>Env\<close>: words, byte order, bit masks, \<open>ext\<close>, and the program logics: \<open>wp\<close> (weakest
    preconditions), \<open>runs\<close> (symbolic execution), \<open>errors\<close> (which errors a program raises), \<open>keeps\<close> and \<open>preserves\<close> (what of the
    state a program leaves alone), \<open>returns\<close> (what its results satisfy). Each is a predicate with rules in a collection of the
    same name, so that a component's proof applies the collection.
  \<^item> \<open>Fifo\<close>, \<open>Fd_Table\<close>, \<open>Slot_Pool\<close>: the interfaces as locales, their clients' lemmas proved once.
    \<open>fifo\<close> is a bounded queue: \<open>Rx_Ring\<close> and \<open>Tx_Queue\<close> interpret it on the receive ring and the queued
    transmit slots. \<open>fd_table\<close> is a table indexed by descriptors: \<open>Shim_State\<close> interprets it on the routed
    descriptors, \<open>Nssl_Relay\<close> on the tracked NSSL connections. \<open>slot_pool\<close> is a pool of numbered slots:
    \<open>Tx_Queue\<close> interprets it on the transmit slots, \<open>Dns_Async\<close> on the asynchronous lookups.
  \<^item> \<open>Driver_Control\<close>, \<open>Driver_Open\<close> (\<^verbatim>\<open>ax88179.c\<close>: \<open>control\<close> to \<open>ax88179_link\<close>): opening releases what it acquired
    on every failure and otherwise yields a configured device; the driver's copy of the medium
    register is right after every link poll that succeeds.
  \<^item> \<open>Driver_Rx\<close>, \<open>Rx_Aggregate\<close>, \<open>Rx_Ring\<close> (\<open>ax_rx_*\<close>, \<open>ax88179_receive*\<close>): no read outside the buffer, encoded
    aggregates are parsed into their frames, the ring is a queue, and a refused re-submission
    stalls it.
  \<^item> \<open>Driver_Tx\<close> (\<open>ax88179_send\<close>): the transfer decodes to the padded frame and ends in a short packet.
  \<^item> \<open>Ax_Net\<close>, \<open>Tx_Queue\<close>, \<open>Net_Lifecycle\<close> (\<^verbatim>\<open>ax_net.c\<close>): slot ownership in every interleaving of the two
    threads (the step relation \<open>tx_step\<close>), the slots as a queue, start, stop, link errors, leases.
  \<^item> \<open>Net_Path\<close>: the way of a frame through all layers, in both directions; the property that spans driver
    and network layer is below.
  \<^item> \<open>Shim_State\<close>, \<open>Shim_Sockets\<close>, \<open>Shim_Sockopt\<close>, \<open>Shim_Multi\<close>, \<open>Shim_Select\<close> (\<^verbatim>\<open>nsysnet_shim.c\<close>: tables and
    translation, socket calls, options, batch calls, select); \<open>Shim_Routing\<close> and \<open>Shim_Live\<close> hold what spans
    them: which stack a call reaches, and that routed descriptors stand for open sockets.
  \<^item> \<open>Ptr_Dns\<close>, \<open>Shim_Dns\<close> (the DNS codec and all name calls), \<open>Dns_Props\<close>, \<open>Dns_Async\<close>, \<open>Dns_Reverse\<close>: codec round trip
    and bounds, ownership of address lists, the cycle of an asynchronous lookup, late callbacks,
    and that a reverse lookup leaves nothing behind.
  \<^item> \<open>Pump\<close>, \<open>Nssl_Relay\<close>, \<open>Wiiload_Proxy\<close>: both forwarders move bytes without loss or reordering, and the
    handover to NSSL keeps every socket owned once.
  \<^item> \<open>Shim_Lifecycle\<close>: installing the hooks, quiescing, draining, the start of a title.
  \<^item> \<open>Module_Config\<close>, \<open>Aroma_Module\<close>, \<open>Module_Worker\<close>, \<open>Module_Hooks\<close> (\<^verbatim>\<open>main.c\<close>, \<^verbatim>\<open>iosu_patch.c\<close>): the configuration
    file, the worker and its recovery (no adapter is leaked), the title hooks, the guard of the
    kernel patch.
  \<^item> \<open>Sys_Arch\<close> (\<^verbatim>\<open>net/port/sys_arch.c\<close>): timed waits and the start of threads.

  \<^bold>\<open>Threads.\<close> A definition runs its function from beginning to end. Other threads appear where the
  code meets them: the receive callback and the stack's frames are events taken between two calls
  (\<open>rx_event\<close>, the argument \<open>arr\<close> of \<open>ax_net_poll\<close>), the transmit slots and the relays have step relations that
  interleave the threads (\<open>tx_step\<close>, \<open>relay_runs\<close>), flags other threads set (\<open>stopping\<close>, \<open>title_ending\<close>) are read through \<open>env\<close>.
  Otherwise a call of the shim is taken as one step: two threads of a title inside the same table at
  the same moment are not modelled.

  \<^bold>\<open>Fuel and bounds.\<close> A loop with a bound in the code has that bound (the parser's rounds, the retry
  counts, the joins). A loop without one takes fuel and answers \<open>None\<close> when it runs out.

  \<^item> Draining the transmit slots needs more fuel than frames are queued, the receive loop as much as
    there are frames to receive; \<open>Net_Path\<close> shows that this is enough.
  \<^item> Select on a mixed set, a timed mailbox or semaphore wait, and the wait of a title's start for
    the relays are proved to return with fuel beyond their time limit, from the hypothesis that
    sleeping advances the clock.
  \<^item> The worker polls for as long as its title lives; its theorems speak of the state in which it
    returns, and the recovery may retry for ever by design.

  \<^bold>\<open>Not modelled.\<close>

  \<^item> lwIP (\<^verbatim>\<open>src/vendor\<close>) is third-party code; its functions are outside calls with arbitrary answers.
  \<^item> \<^verbatim>\<open>src/tools\<close>, \<^verbatim>\<open>src/tests\<close> and \<^verbatim>\<open>src/common\<close> are test programs run by hand on a console: they draw on the
    screen and call the module or the driver through the interfaces modelled here.
  \<^item> The fatal screen of \<^verbatim>\<open>debug_abort.c\<close>, log lines and trace messages, \<open>ax_net_status\<close>, which formats counters,
    and the build without the shim (\<^verbatim>\<open>AX_DISABLE_SHIM\<close>).
  \<^item> Cache maintenance and address alignment: the buffers are values, not memory.
\<close>

section \<open>Frames through all the layers\<close>

text \<open>C1. One poll of the network layer moves everything that is waiting, in both directions. The
  frames in the transmit slots leave in bulk-OUT transfers that decode to the frames padded to 60
  bytes, in order; only those the driver must not send (under 14 or over 1518 bytes) are dropped.
  The frames that the rest of the aggregate being parsed and the completed transfers of the ring
  carry are given to lwIP, in order, without loss. The poll returns the length of the first, and
  leaves both queues empty and in order.

  Hypotheses: the layer is active, the link is up and its next poll not due, there is something to
  receive, lwIP has buffers, and no completion or further frame arrives meanwhile.\<close>

theorem poll_moves_frames:
  assumes "active s" and "r_val (env s (trace s) (Lwip Sys_now)) - last_link s < 500"
    and "tx_queue_inv s" and "inbound fs s" and "fs \<noteq> []" and "stack_takes (env s)"
    and "length (tx_items s) < k" and "length fs \<le> k"
  shows "\<exists>t. run_state (ax_net_poll k []) s = (Some (int (length (hd fs))), t) \<and> fed t = fed s @ fs \<and>
    map tx_decode (wired t) = map tx_decode (wired s) @ map tx_padded (filter sendable (tx_items s)) \<and>
    tx_queue_inv t \<and> tx_items t = [] \<and> inbound [] t"
proof -
  let ?s = "s\<lparr>trace := trace s @ [Lwip Sys_now]\<rparr>"
  have view: "tx_view ?s = tx_view s" "rx_view ?s = rx_view s" "fed ?s = fed s" "wired ?s = wired s"
    by (simp_all add: tx_view_def rx_view_def fed_def wired_def queue_of_def)
  have link: "linked ?s" using assms(4) by (auto simp: inbound_def linked_def)
  have in0: "inbound fs ?s" by (rule inbound_view [OF view(2) link assms(4)])
  obtain t where t: "run_state (drain_tx k True) ?s = (Some (), t)" "tx_queue_inv t" "tx_items t = []" "linked t"
      "rx_view t = rx_view ?s" "fed t = fed ?s"
      "map tx_decode (wired t) = map tx_decode (wired ?s) @ map tx_padded (filter sendable (tx_items ?s))"
    using drain_tx_path [of ?s k] tx_queue_view [OF view(1)] link assms(3,7) by auto
  have "inbound fs t" "env t = env s"
    using inbound_view [OF t(5,4) in0] t(5) by (simp_all add: rx_view_def)
  then obtain u where u: "run_state (poll_rx k []) t = (Some (int (length (hd fs))), u)" "inbound [] u"
      "tx_view u = tx_view t" "fed u = fed t @ fs"
    using poll_rx_path [of fs t k] assms(5,6,8) by auto
  have "linked u" using u(2) by (simp add: inbound_def)
  then obtain w where w: "run_state (drain_tx k True) u = (Some (), w)" "tx_queue_inv w" "tx_items w = []" "linked w"
      "rx_view w = rx_view u" "fed w = fed u" "map tx_decode (wired w) = map tx_decode (wired u)"
    using drain_tx_path [of u k] tx_queue_view [OF u(3)] t(2,3) assms(7) by auto
  have "run_state (ax_net_poll k []) s = (Some (int (length (hd fs))), w)"
    using assms(1) poll_link_early [OF assms(2)] t(1) u(1) w(1) by (simp add: ax_net_poll_def)
  moreover have "wired u = wired t" using u(3) by (simp add: tx_view_def)
  ultimately show ?thesis
    using w inbound_view [OF w(5,4) u(2)] t u view tx_queue_view [OF view(1)] by auto
qed

theorem poll_moves_frames_witness:
  "\<exists>t. run_state (ax_net_poll 4 []) busy_net = (Some 60, t) \<and>
     fed t = [replicate 60 7, replicate 64 9] \<and> map tx_decode (wired t) = [replicate 60 0]"
proof -
  have start: "active busy_net" "fed busy_net = []" "wired busy_net = []" "last_link busy_net = 0"
      "r_val (env busy_net (trace busy_net) (Lwip Sys_now)) = 0" "stack_takes (env busy_net)"
    by (simp_all add: busy_net_def Let_def net_init_def fed_def wired_def busy_env_def with_mq_def stack_takes_def)
       (simp add: resp0_def)
  have "sendable (replicate 60 0)" "tx_padded (replicate 60 0) = replicate 60 0"
    by (simp_all add: sendable_def tx_padded_def)
  with poll_moves_frames [OF start(1) _ busy_tx(1) busy_rx, of 4] start busy_tx(2) show ?thesis by auto
qed

end
